(* ===== verification/Prelude.thy ===== *)
theory Prelude
  imports Main "HOL-Library.Word"
begin

text \<open>
  Shared vocabulary of the development: the collections of rules that the component proofs use, the
  type of identifiers, Go's fixed-width arithmetic and byte strings, and the generic facts about
  lists of rows (a table is a list of rows) on which the proofs about the database rest.
\<close>

section \<open>Rule collections\<close>

text \<open>
  \<open>tx_run\<close> holds the equations that take a successful run of a transaction apart, \<open>tx_steps\<close> the
  introduction rules for facts about every run, and \<open>row_simps\<close> the facts about tables.
\<close>

named_theorems tx_run \<open>what a successful run of a composed program consists of\<close>
named_theorems tx_steps \<open>introduction rules for relations respected by every run\<close>
named_theorems row_simps \<open>simplification of table operations\<close>

section \<open>Identifiers, hashes and machine integers\<close>

text \<open>
  A \<open>uuid.UUID\<close> is sixteen bytes, read as a big-endian number: the order of the numbers is the
  byte order that \<open>bytes.Compare\<close> and the database's \<open>ORDER BY id\<close> use.
\<close>

type_synonym uuid = "128 word"
type_synonym hash = "256 word"

definition uuid_nil :: uuid where
  "uuid_nil = 0"

text \<open>\<open>int64\<close> arithmetic wraps around; the bounds are those of the type.\<close>

definition max_int64 :: int where
  "max_int64 = 2 ^ 63 - 1"

definition int64 :: "int \<Rightarrow> int" where
  "int64 x = (x + 2 ^ 63) mod 2 ^ 64 - 2 ^ 63"

definition int32 :: "int \<Rightarrow> int" where
  "int32 x = (x + 2 ^ 31) mod 2 ^ 32 - 2 ^ 31"

lemma int64_id [simp]: "- (2 ^ 63) \<le> x \<Longrightarrow> x \<le> max_int64 \<Longrightarrow> int64 x = x"
  by (simp add: int64_def max_int64_def)

lemma int32_id [simp]: "- (2 ^ 31) \<le> x \<Longrightarrow> x < 2 ^ 31 \<Longrightarrow> int32 x = x"
  by (simp add: int32_def)

text \<open>Go's \<open>/\<close> rounds towards zero, unlike \<open>div\<close>.\<close>

definition trunc_div :: "int \<Rightarrow> int \<Rightarrow> int" where
  "trunc_div n k = (if 0 \<le> n then n div k else - ((- n) div k))"

lemma trunc_div_exact [simp]: "k \<noteq> 0 \<Longrightarrow> trunc_div (q * k) k = q"
  by (simp add: trunc_div_def flip: mult_minus_left)

section \<open>Byte strings\<close>

text \<open>A Go string is a sequence of bytes; \<open><\<close> compares them lexicographically.\<close>

fun str_less :: "string \<Rightarrow> string \<Rightarrow> bool" where
  "str_less _ [] = False"
| "str_less [] (_ # _) = True"
| "str_less (a # as) (b # bs) =
     ((of_char a :: nat) < of_char b \<or> a = b \<and> str_less as bs)"

definition str_le :: "string \<Rightarrow> string \<Rightarrow> bool" where
  "str_le a b \<longleftrightarrow> \<not> str_less b a"

section \<open>Tables as lists of rows\<close>

text \<open>
  \<open>upd_where p f\<close> is the effect of an \<open>UPDATE\<close> with condition \<open>p\<close>, and \<open>ins_by\<close> the insertion
  that \<open>ORDER BY\<close> with a key performs, later rows staying behind earlier ones with the same key.
\<close>

definition upd_where :: "('a \<Rightarrow> bool) \<Rightarrow> ('a \<Rightarrow> 'a) \<Rightarrow> 'a list \<Rightarrow> 'a list" where
  "upd_where p f = map (\<lambda>r. if p r then f r else r)"

lemma upd_where_simps [simp, row_simps]:
  "upd_where p f [] = []"
  "upd_where p f (r # rs) = (if p r then f r else r) # upd_where p f rs"
  "upd_where p f (rs @ qs) = upd_where p f rs @ upd_where p f qs"
  "length (upd_where p f rs) = length rs"
  by (simp_all add: upd_where_def)

lemma set_upd_where [row_simps]:
  "set (upd_where p f rs) = f ` {r \<in> set rs. p r} \<union> {r \<in> set rs. \<not> p r}"
  by (induction rs) (auto simp: image_iff)

lemma in_set_upd_whereE:
  assumes "r \<in> set (upd_where p f rs)"
  obtains q where "q \<in> set rs" and "r = (if p q then f q else q)"
  using assms by (auto simp: upd_where_def)

lemma ball_upd_where: "(\<forall>r \<in> set (upd_where p f rs). P r) \<longleftrightarrow> (\<forall>r \<in> set rs. P (if p r then f r else r))"
  by (induction rs) auto

lemma bex_upd_where: "(\<exists>r \<in> set (upd_where p f rs). P r) \<longleftrightarrow> (\<exists>r \<in> set rs. P (if p r then f r else r))"
  by (induction rs) auto

lemma map_upd_where [row_simps]:
  assumes "\<And>r. key (f r) = key r"
  shows "map key (upd_where p f rs) = map key rs"
  by (induction rs) (simp_all add: assms)

lemma filter_upd_where_other [row_simps]:
  assumes "\<And>r. p r \<Longrightarrow> \<not> q r" and "\<And>r. p r \<Longrightarrow> \<not> q (f r)"
  shows "filter q (upd_where p f rs) = filter q rs"
  by (induction rs) (auto simp: assms)

lemma filter_upd_where_comm:
  assumes "\<And>r. q (f r) = q r"
  shows "filter q (upd_where p f rs) = upd_where p f (filter q rs)"
  by (induction rs) (auto simp: assms)

lemma upd_where_idle: "(\<And>r. r \<in> set rs \<Longrightarrow> \<not> p r) \<Longrightarrow> upd_where p f rs = rs"
  by (induction rs) auto

text \<open>The first row with a property, as a \<open>SELECT\<close> on a primary key returns it.\<close>

lemma find_Some_iff_mem: "List.find p xs = Some x \<Longrightarrow> x \<in> set xs \<and> p x"
  by (induction xs) (auto split: if_splits)

lemma find_None_iff_all: "List.find p xs = None \<longleftrightarrow> (\<forall>x \<in> set xs. \<not> p x)"
  by (induction xs) auto

lemma find_append [row_simps]:
  "List.find p (xs @ ys) = (case List.find p xs of None \<Rightarrow> List.find p ys | Some x \<Rightarrow> Some x)"
  by (induction xs) auto

lemma find_unique:
  assumes "distinct (map key xs)" and "x \<in> set xs" and "key x = k"
    and "\<And>y. p y \<Longrightarrow> key y = k" and "p x"
  shows "List.find p xs = Some x"
  using assms
proof (induction xs)
  case Nil
  then show ?case by simp
next
  case (Cons a xs)
  then show ?case by (cases "a = x") (auto simp: image_iff)
qed

lemma find_upd_where:
  assumes "\<And>r. p (f r) = p r" and "\<And>r. p r \<Longrightarrow> u r"
  shows "List.find p (upd_where u f rs) = map_option f (List.find p rs)"
  by (induction rs) (auto simp: assms)

lemma find_filter_conj:
  "List.find p (filter q xs) = List.find (\<lambda>x. q x \<and> p x) xs"
  by (induction xs) auto

lemma distinct_map_inj:
  assumes "distinct (map key xs)" and "x \<in> set xs" and "y \<in> set xs" and "key x = key y"
  shows "x = y"
  using assms by (auto simp: distinct_map inj_on_def)

lemma distinct_map_filter_keys [intro]: "distinct (map key xs) \<Longrightarrow> distinct (map key (filter p xs))"
  by (rule distinct_map_filter)

text \<open>Stable insertion sort by a comparison \<open>le\<close>, the order of a result set.\<close>

fun ins_by :: "('a \<Rightarrow> 'a \<Rightarrow> bool) \<Rightarrow> 'a \<Rightarrow> 'a list \<Rightarrow> 'a list" where
  "ins_by le x [] = [x]"
| "ins_by le x (y # ys) = (if le x y then x # y # ys else y # ins_by le x ys)"

definition sort_by :: "('a \<Rightarrow> 'a \<Rightarrow> bool) \<Rightarrow> 'a list \<Rightarrow> 'a list" where
  "sort_by le xs = foldr (ins_by le) xs []"

lemma sort_by_simps [simp]:
  "sort_by le [] = []"
  "sort_by le (x # xs) = ins_by le x (sort_by le xs)"
  by (simp_all add: sort_by_def)

lemma set_ins_by [simp]: "set (ins_by le x xs) = insert x (set xs)"
  by (induction xs) auto

lemma set_sort_by [simp]: "set (sort_by le xs) = set xs"
  by (induction xs) auto

lemma length_ins_by [simp]: "length (ins_by le x xs) = Suc (length xs)"
  by (induction xs) auto

lemma length_sort_by [simp]: "length (sort_by le xs) = length xs"
  by (induction xs) auto

lemma distinct_map_ins_by [simp]:
  "distinct (map key (ins_by le x xs)) = distinct (map key (x # xs))"
  by (induction xs) auto

lemma distinct_map_sort_by [simp]: "distinct (map key (sort_by le xs)) = distinct (map key xs)"
  by (induction xs) auto

lemma sorted_wrt_ins_by:
  assumes "\<And>a b. le a b \<or> le b a" and "\<And>a b c. le a b \<Longrightarrow> le b c \<Longrightarrow> le a c"
    and "sorted_wrt le xs"
  shows "sorted_wrt le (ins_by le x xs)"
  using assms(3)
proof (induction xs)
  case Nil
  then show ?case by simp
next
  case (Cons y ys)
  then show ?case using assms(1)[of x y] by (auto intro: assms(2))
qed

lemma sorted_wrt_sort_by:
  assumes "\<And>a b. le a b \<or> le b a" and "\<And>a b c. le a b \<Longrightarrow> le b c \<Longrightarrow> le a c"
  shows "sorted_wrt le (sort_by le xs)"
proof (induction xs)
  case Nil
  then show ?case by simp
next
  case (Cons x xs)
  then show ?case using sorted_wrt_ins_by[where le = le, OF assms] by simp
qed

end
