(* ===== verification/Calendar.thy ===== *)
theory Calendar
  imports Main
begin

text \<open>
  The proleptic Gregorian calendar behind Go's \<open>time\<close> package: a day is an integer, day 0 being
  1970-01-01, and \<open>days_from_civil\<close> / \<open>civil_from_days\<close> convert between a day number and its
  year, month and day. Years are counted from March, so that the leap day is the last day of a
  year and the day of the year determines the month by one division. The two theorems at the end
  say that the conversions are inverse to each other on every valid date and on every day.
\<close>

section \<open>Days before a year\<close>

definition year_days :: "int \<Rightarrow> int" where
  "year_days y = 365 * y + y div 4 - y div 100 + y div 400"

lemma div_bounds: 
  fixes k y :: int
  assumes "0 < k" shows "k * (y div k) \<le> y \<and> y < k * (y div k) + k"
proof -
  have "y = k * (y div k) + y mod k" by simp
  moreover have "0 \<le> y mod k" "y mod k < k" using assms by simp_all
  ultimately show ?thesis by linarith
qed

lemma year_days_bounds: "146097 * y - 699 \<le> 400 * year_days y \<and> 400 * year_days y \<le> 146097 * y + 396"
proof -
  have "(0::int) < 4" "(0::int) < 100" "(0::int) < 400" by simp_all
  note b = this[THEN div_bounds, of y]
  obtain a b c where "a = y div 4" "b = y div 100" "c = y div 400" by blast
  with b show ?thesis unfolding year_days_def by auto
qed

text \<open>The Gregorian leap-year rule.\<close>

definition leap :: "int \<Rightarrow> bool" where
  "leap y \<longleftrightarrow> y mod 4 = 0 \<and> (y mod 100 \<noteq> 0 \<or> y mod 400 = 0)"

lemma div_step: 
  fixes k y :: int
  assumes "0 < k"
  shows "(y + 1) div k = y div k + (if (y + 1) mod k = 0 then 1 else 0)"
proof (cases "(y + 1) mod k = 0")
  case True
  then obtain q where q: "y + 1 = k * q" by (auto simp: mod_eq_0_iff_dvd)
  then have "y = k * (q - 1) + (k - 1)" by (simp add: algebra_simps)
  then have "y div k = q - 1" using assms by (intro int_div_pos_eq[where r = "k - 1"]) auto
  with True q assms show ?thesis by simp
next
  case False
  define q r where "q = (y + 1) div k" and "r = (y + 1) mod k"
  have "y + 1 = k * q + r" by (simp add: q_def r_def)
  moreover have "0 < r" "r < k" using False assms by (simp add: r_def order_less_le, simp add: r_def)
  ultimately have "y div k = q" using assms by (intro int_div_pos_eq[where r = "r - 1"]) auto
  with False show ?thesis by (simp add: q_def)
qed
  
lemma mod_4_100: "(y::int) mod 100 = 0 \<Longrightarrow> y mod 4 = 0" by presburger
lemma mod_100_400: "(y::int) mod 400 = 0 \<Longrightarrow> y mod 100 = 0" by presburger

lemma year_days_Suc: "year_days (y + 1) = year_days y + (if leap (y + 1) then 366 else 365)"
proof -
  have *: "(y + 1) div 4 = y div 4 + (if (y + 1) mod 4 = 0 then 1 else 0)" 
     "(y + 1) div 100 = y div 100 + (if (y + 1) mod 100 = 0 then 1 else 0)" 
     "(y + 1) div 400 = y div 400 + (if (y + 1) mod 400 = 0 then 1 else 0)"
    by (simp_all only: div_step) 
  obtain z where z: "z = y + 1" by blast
  show ?thesis unfolding year_days_def leap_def * 
    unfolding z[symmetric] using mod_4_100[of z] mod_100_400[of z] z
    by (cases "z mod 4 = 0"; cases "z mod 100 = 0"; cases "z mod 400 = 0") simp_all
qed

definition year_of_days :: "int \<Rightarrow> int" where
  "year_of_days n =
     (let g = (400 * n) div 146097
      in if n < year_days g then g - 1 else if year_days (g + 1) \<le> n then g + 1 else g)"

lemma year_of_days_correct:
  "year_days (year_of_days n) \<le> n \<and> n < year_days (year_of_days n + 1)"
proof -
  obtain g where g_def: "g = (400 * n) div 146097" by blast
  have g: "146097 * g \<le> 400 * n" "400 * n < 146097 * g + 146097"
    using div_bounds[of 146097 "400 * n"] unfolding g_def by simp_all
  have "year_days (g - 1) \<le> n" 
  proof -
    have "400 * year_days (g - 1) \<le> 146097 * (g - 1) + 396" using year_days_bounds by blast
    also have "\<dots> \<le> 400 * n" using g by simp
    finally show ?thesis by simp
  qed
  moreover have "n < year_days (g + 2)" 
  proof -
    have "400 * n < 146097 * (g + 2) - 699" using g by simp
    also have "\<dots> \<le> 400 * year_days (g + 2)" using year_days_bounds by blast
    finally show ?thesis by simp
  qed
  ultimately show ?thesis
    unfolding year_of_days_def g_def[symmetric] Let_def by (auto simp: add.commute)
qed

section \<open>Dates and day numbers\<close>

definition days_from_civil :: "int \<Rightarrow> int \<Rightarrow> int \<Rightarrow> int" where
  "days_from_civil y m d =
     (let y' = (if m \<le> 2 then y - 1 else y); mp = (m + 9) mod 12
      in year_days y' + (153 * mp + 2) div 5 + d - 1 - 719468)"

definition civil_from_days :: "int \<Rightarrow> int \<times> int \<times> int" where
  "civil_from_days n =
     (let k = n + 719468; y' = year_of_days k; doy = k - year_days y';
          mp = (5 * doy + 2) div 153; d = doy - (153 * mp + 2) div 5 + 1;
          m = (if mp < 10 then mp + 3 else mp - 9)
      in (if m \<le> 2 then y' + 1 else y', m, d))"

definition days_in :: "int \<Rightarrow> int \<Rightarrow> int" where
  "days_in y m = (if m = 2 then (if leap y then 29 else 28)
     else if m \<in> {4, 6, 9, 11} then 30 else 31)"

definition valid_date :: "int \<Rightarrow> int \<Rightarrow> int \<Rightarrow> bool" where
  "valid_date y m d \<longleftrightarrow> 1 \<le> m \<and> m \<le> 12 \<and> 1 \<le> d \<and> d \<le> days_in y m"

lemma year_days_mono: "a < b \<Longrightarrow> year_days a < year_days b"
proof (induction b rule: int_gr_induct)
  case base
  show ?case by (simp add: year_days_Suc)
next
  case (step b)
  then show ?case by (simp add: year_days_Suc split: if_splits)
qed

lemma year_of_days_unique:
  assumes "year_days y \<le> n" "n < year_days (y + 1)" shows "year_of_days n = y"
proof (rule ccontr)
  assume "year_of_days n \<noteq> y"
  then consider "year_of_days n + 1 \<le> y" | "y + 1 \<le> year_of_days n" by linarith
  then show False
    using assms year_of_days_correct[of n] year_days_mono
    by cases (smt (verit) year_days_mono)+
qed

lemma months_cases: "1 \<le> m \<Longrightarrow> m \<le> 12 \<Longrightarrow> m = 1 \<or> m = 2 \<or> m = 3 \<or> m = 4 \<or> m = 5 \<or> m = 6 \<or>
    m = 7 \<or> m = 8 \<or> m = 9 \<or> m = 10 \<or> m = 11 \<or> m = (12::int)"
  by presburger

lemma doy_inverse:
  assumes "1 \<le> d" "d \<le> days_in y m" "1 \<le> m" "m \<le> 12"
  defines "mp \<equiv> (m + 9) mod 12"
  defines "doy \<equiv> (153 * mp + 2) div 5 + d - 1"
  shows "(5 * doy + 2) div 153 = mp \<and> 0 \<le> doy \<and> doy < (if leap (if m \<le> 2 then y else y + 1) then 366 else 365)"
proof -
  have m: "m = 1 \<or> m = 2 \<or> m = 3 \<or> m = 4 \<or> m = 5 \<or> m = 6 \<or>
    m = 7 \<or> m = 8 \<or> m = 9 \<or> m = 10 \<or> m = 11 \<or> m = (12::int)" using assms(3,4) by (rule months_cases)
  show ?thesis using m assms(1,2) unfolding mp_def doy_def days_in_def
    by (elim disjE) (auto split: if_splits)
qed

lemma civil_from_days_from_civil:
  assumes "valid_date y m d"
  shows "civil_from_days (days_from_civil y m d) = (y, m, d)"
proof -
  define mp where "mp = (m + 9) mod 12"
  define doy where "doy = (153 * mp + 2) div 5 + d - 1"
  define y' where "y' = (if m \<le> 2 then y - 1 else y)"
  have inv: "(5 * doy + 2) div 153 = mp" "0 \<le> doy" "doy < (if leap (y' + 1) then 366 else 365)"
    using doy_inverse[of d y m] assms unfolding valid_date_def mp_def[symmetric] doy_def[symmetric] y'_def 
    by (simp_all split: if_splits)
  have k: "days_from_civil y m d + 719468 = year_days y' + doy"
    by (simp add: days_from_civil_def Let_def mp_def doy_def y'_def)
  have "year_of_days (year_days y' + doy) = y'"
    using inv by (intro year_of_days_unique) (auto simp: year_days_Suc split: if_splits)
  moreover have "doy - (153 * mp + 2) div 5 + 1 = d" by (simp add: doy_def)
  ultimately have "civil_from_days (days_from_civil y m d) =
     (let m = (if mp < 10 then mp + 3 else mp - 9) in (if m \<le> 2 then y' + 1 else y', m, d))"
    unfolding civil_from_days_def k Let_def by (simp add: inv)
  moreover have "(if mp < 10 then mp + 3 else mp - 9) = m"
    using assms months_cases[of m] unfolding valid_date_def mp_def by auto
  ultimately show ?thesis by (simp add: Let_def y'_def)
qed

lemma doy_forward:
  fixes doy mp d m y y' :: int
  assumes "0 \<le> doy" and "doy < (if leap (y' + 1) then 366 else 365)"
    and "mp = (5 * doy + 2) div 153" and "d = doy - (153 * mp + 2) div 5 + 1"
    and "m = (if mp < 10 then mp + 3 else mp - 9)" and "y = (if m \<le> 2 then y' + 1 else y')"
  shows "valid_date y m d \<and> (m + 9) mod 12 = mp \<and> (if m \<le> 2 then y - 1 else y) = y'"
proof -
  have b: "153 * mp \<le> 5 * doy + 2" "5 * doy + 2 < 153 * mp + 153"
    using div_bounds[of 153 "5 * doy + 2"] assms(3) by simp_all
  have le: "doy < 366" using assms(2) by (simp split: if_splits)
  have "0 \<le> mp" "mp \<le> 11" using b le assms(1) by linarith+
  then have "mp = 0 \<or> mp = 1 \<or> mp = 2 \<or> mp = 3 \<or> mp = 4 \<or> mp = 5 \<or> mp = 6 \<or> mp = 7 \<or> mp = 8 \<or>
      mp = 9 \<or> mp = 10 \<or> mp = 11" by presburger
  then show ?thesis using b assms(1,2,4,5,6)
    unfolding valid_date_def days_in_def by (elim disjE) (auto split: if_splits)
qed

lemma civil_from_days_valid:
  assumes "civil_from_days n = (y, m, d)" 
  shows "valid_date y m d \<and> days_from_civil y m d = n"
proof -
  define k y' where "k = n + 719468" and "y' = year_of_days k"
  define doy mp where "doy = k - year_days y'" and "mp = (5 * doy + 2) div 153"
  have eqs: "d = doy - (153 * mp + 2) div 5 + 1" "m = (if mp < 10 then mp + 3 else mp - 9)"
     "y = (if m \<le> 2 then y' + 1 else y')"
    using assms unfolding civil_from_days_def Let_def k_def[symmetric] y'_def[symmetric]
      doy_def[symmetric] mp_def[symmetric] by auto
  have "0 \<le> doy" "doy < (if leap (y' + 1) then 366 else 365)"
    using year_of_days_correct[of k] by (simp_all add: doy_def y'_def year_days_Suc)
  from doy_forward[OF this mp_def eqs]
  have *: "valid_date y m d" "(m + 9) mod 12 = mp" "(if m \<le> 2 then y - 1 else y) = y'" by simp_all
  have "days_from_civil y m d = year_days y' + (153 * mp + 2) div 5 + d - 1 - 719468"
    unfolding days_from_civil_def Let_def * ..
  with * show ?thesis by (simp add: eqs(1) doy_def k_def)
qed
end
