(* ===== verification/GoTime.thy ===== *)
theory GoTime
  imports Prelude Calendar
begin

text \<open>
  What the program uses of Go's \<open>time\<close> package. An instant (\<open>time.Time\<close> without its location) is an
  integer number of nanoseconds since the Unix epoch and a \<open>time.Duration\<close> an integer number of
  nanoseconds. A \<open>*time.Location\<close> is the offset in force before its first transition and the
  transitions in ascending order, each with the offset (seconds east of UTC) it starts; the rule
  that a time zone file gives for the years after its last transition is unrolled into further
  transitions. \<open>loc_lookup\<close> and \<open>local_unix\<close> follow \<open>Location.lookup\<close> and the last part of
  \<open>time.Date\<close>, including the second look-up near a transition.
\<close>

section \<open>Instants, durations and locations\<close>

type_synonym time = int
type_synonym duration = int

abbreviation nanosecond :: int where "nanosecond \<equiv> 1"
abbreviation millisecond :: int where "millisecond \<equiv> 1000000"
abbreviation second :: int where "second \<equiv> 1000000000"
abbreviation minute :: int where "minute \<equiv> 60000000000"
abbreviation hour :: int where "hour \<equiv> 3600000000000"
abbreviation day :: int where "day \<equiv> 86400000000000"

text \<open>\<open>Time.Sub\<close> saturates at the bounds of a \<open>Duration\<close>.\<close>

definition time_sub :: "time \<Rightarrow> time \<Rightarrow> duration" where
  "time_sub a b = max (- (2 ^ 63)) (min max_int64 (a - b))"

lemma time_sub_less [simp]:
  "- (2 ^ 63) < d \<Longrightarrow> d \<le> max_int64 \<Longrightarrow> time_sub a b < d \<longleftrightarrow> a - b < d"
  unfolding time_sub_def by linarith

lemma time_sub_exact: "\<bar>a - b\<bar> \<le> max_int64 \<Longrightarrow> time_sub a b = a - b"
  by (simp add: time_sub_def max_int64_def)

record location =
  loc_zone0 :: int
  loc_tx :: "(int \<times> int) list"

definition utc_loc :: location where
  "utc_loc = \<lparr>loc_zone0 = 0, loc_tx = []\<rparr>"

definition alpha :: int where "alpha = - (2 ^ 63)"
definition omega :: int where "omega = 2 ^ 63 - 1"

fun lookup_tx :: "int \<Rightarrow> int \<Rightarrow> (int \<times> int) list \<Rightarrow> int \<Rightarrow> int \<times> int \<times> int" where
  "lookup_tx off start [] sec = (off, start, omega)"
| "lookup_tx off start ((w, o') # tx) sec =
     (if sec < w then (off, start, w) else lookup_tx o' w tx sec)"

definition loc_lookup :: "location \<Rightarrow> int \<Rightarrow> int \<times> int \<times> int" where
  "loc_lookup l sec = lookup_tx (loc_zone0 l) alpha (loc_tx l) sec"

definition zone_offset :: "location \<Rightarrow> time \<Rightarrow> int" where
  "zone_offset l t = fst (loc_lookup l (t div second))"

text \<open>
  \<open>wall l t\<close> is the reading of the clock on the wall at instant \<open>t\<close>, written as the instant at
  which a clock in UTC shows the same; \<open>t.In(l)\<close> has that date and clock.
\<close>

definition wall :: "location \<Rightarrow> time \<Rightarrow> time" where
  "wall l t = t + zone_offset l t * second"

definition wall_day :: "time \<Rightarrow> int" where
  "wall_day w = w div day"

definition wall_clock :: "time \<Rightarrow> int \<times> int \<times> int" where
  "wall_clock w = (let s = w mod day div second in (s div 3600, s mod 3600 div 60, s mod 60))"

definition date_in :: "location \<Rightarrow> time \<Rightarrow> int" where
  "date_in l t = wall_day (wall l t)"

text \<open>The end of \<open>time.Date\<close>: the Unix second of a wall-clock second in a location.\<close>

definition local_unix :: "location \<Rightarrow> int \<Rightarrow> int" where
  "local_unix l unix =
     (case loc_lookup l unix of (off, start, end) \<Rightarrow>
        if off = 0 then unix
        else let utc = unix - off
             in if utc < start \<or> end \<le> utc then unix - fst (loc_lookup l utc) else utc)"

definition time_date :: "int \<Rightarrow> int \<Rightarrow> int \<Rightarrow> int \<Rightarrow> int \<Rightarrow> int \<Rightarrow> int \<Rightarrow> location \<Rightarrow> time" where
  "time_date y m d h mi s ns l =
     (let y' = y + (m - 1) div 12; m' = (m - 1) mod 12 + 1;
          unix = days_from_civil y' m' d * 86400 + h * 3600 + mi * 60 + s + ns div second
      in local_unix l unix * second + ns mod second)"

text \<open>Midnight of a day in a location: \<open>time.Date(y, m, d, 0, 0, 0, 0, l)\<close>.\<close>

definition midnight :: "location \<Rightarrow> int \<Rightarrow> time" where
  "midnight l n = local_unix l (n * 86400) * second"

text \<open>\<open>Time.AddDate\<close> on \<open>t.In(l)\<close>.\<close>

definition add_date :: "location \<Rightarrow> time \<Rightarrow> int \<Rightarrow> int \<Rightarrow> int \<Rightarrow> time" where
  "add_date l t ys ms ds =
     (case civil_from_days (date_in l t) of (y, m, d) \<Rightarrow>
        case wall_clock (wall l t) of (h, mi, s) \<Rightarrow>
          time_date (y + ys) (m + ms) (d + ds) h mi s (t mod second) l)"

text \<open>\<open>time.Sunday\<close> is 0; day 0 was a Thursday.\<close>

definition weekday :: "int \<Rightarrow> int" where
  "weekday n = (n + 4) mod 7"

lemma zone_offset_utc [simp]: "zone_offset utc_loc t = 0"
  by (simp add: zone_offset_def loc_lookup_def utc_loc_def)

lemma wall_utc [simp]: "wall utc_loc t = t"
  by (simp add: wall_def)

lemma local_unix_utc [simp]: "local_unix utc_loc n = n"
  by (simp add: local_unix_def loc_lookup_def utc_loc_def)

lemma midnight_utc [simp]: "midnight utc_loc n = n * day"
  by (simp add: midnight_def)

lemma days_from_civil_day: "days_from_civil y m d = days_from_civil y m 1 + (d - 1)"
  by (simp add: days_from_civil_def Let_def)

lemma time_date_midnight:
  assumes "civil_from_days n = (y, m, d)"
  shows "time_date y m d 0 0 0 0 l = midnight l n"
proof -
  have v: "valid_date y m d" and n: "days_from_civil y m d = n"
    using civil_from_days_valid[OF assms] by simp_all
  then have "(m - 1) div 12 = 0" and "(m - 1) mod 12 = m - 1"
    by (simp_all add: valid_date_def)
  then show ?thesis by (simp add: time_date_def midnight_def Let_def n)
qed

section \<open>Zone periods\<close>

text \<open>
  The transitions ascend. \<open>loc_lookup\<close> then returns the period a second belongs to, and the offset
  is the same throughout the period.
\<close>

fun tx_ascending :: "int \<Rightarrow> (int \<times> int) list \<Rightarrow> bool" where
  "tx_ascending start [] = (start < omega)"
| "tx_ascending start ((w, off) # tx) = (start < w \<and> tx_ascending w tx)"

definition loc_ok :: "location \<Rightarrow> bool" where
  "loc_ok l \<longleftrightarrow> tx_ascending alpha (loc_tx l)"

lemma lookup_tx_period:
  assumes "tx_ascending start tx" and "start \<le> sec" and "sec < omega"
    and "lookup_tx off start tx sec = (off', a, b)"
  shows "a \<le> sec \<and> sec < b \<and> start \<le> a \<and> b \<le> omega
     \<and> (\<forall>s. a \<le> s \<longrightarrow> s < b \<longrightarrow> lookup_tx off start tx s = (off', a, b))"
  using assms
proof (induction tx arbitrary: off start)
  case Nil
  then show ?case by auto
next
  case (Cons p tx)
  obtain w o2 where p: "p = (w, o2)" by (cases p)
  have w: "start < w" and asc: "tx_ascending w tx" using Cons.prems(1) by (simp_all add: p)
  have wo: "w \<le> omega" using asc by (induction w tx rule: tx_ascending.induct) auto
  show ?case
  proof (cases "sec < w")
    case True
    then show ?thesis using Cons.prems wo by (auto simp: p)
  next
    case False
    then have "lookup_tx o2 w tx sec = (off', a, b)" using Cons.prems(4) by (simp add: p)
    from Cons.IH[OF asc _ Cons.prems(3) this] False
    have "a \<le> sec \<and> sec < b \<and> w \<le> a \<and> b \<le> omega
       \<and> (\<forall>s. a \<le> s \<longrightarrow> s < b \<longrightarrow> lookup_tx o2 w tx s = (off', a, b))" by simp
    then show ?thesis using w by (auto simp: p)
  qed
qed

lemma loc_lookup_period:
  assumes "loc_ok l" and "alpha \<le> sec" and "sec < omega" and "loc_lookup l sec = (off, a, b)"
  shows "a \<le> sec" and "sec < b" and "\<And>s. a \<le> s \<Longrightarrow> s < b \<Longrightarrow> loc_lookup l s = (off, a, b)"
  using lookup_tx_period[of alpha "loc_tx l" sec "loc_zone0 l" off a b] assms
  by (auto simp: loc_ok_def loc_lookup_def)

end
