(* ===== verification/DateText.thy ===== *)
theory DateText
  imports GoTime
begin

text \<open>
  The textual forms of dates and clock times: what \<open>Time.Format\<close> and \<open>time.Parse\<close> do for the
  layouts \<open>2006-01-02\<close> and \<open>2006-01-02T15:04:05\<close> that the program uses. A date is a day number
  (see \<open>Calendar\<close>). Parsing rejects a date that the calendar does not have; for the second layout
  Go accepts a one-digit hour and a fraction of a second after the seconds. The theorems say that
  parsing inverts formatting for the years 0 to 9999 and that the order of formatted dates is the
  order of the days.
\<close>

section \<open>Decimal numbers\<close>

definition is_digit :: "char \<Rightarrow> bool" where
  "is_digit c \<longleftrightarrow> 48 \<le> (of_char c :: nat) \<and> (of_char c :: nat) \<le> 57"

definition digit_val :: "char \<Rightarrow> int" where
  "digit_val c = int (of_char c) - 48"

definition digit_char :: "int \<Rightarrow> char" where
  "digit_char d = char_of (48 + nat d)"

fun nat_digits :: "nat \<Rightarrow> string" where
  "nat_digits n = (if n < 10 then [digit_char (int n)]
     else nat_digits (n div 10) @ [digit_char (int (n mod 10))])"

declare nat_digits.simps [simp del]

text \<open>\<open>appendInt(b, x, width)\<close> of the \<open>time\<close> package: the sign, then at least \<open>width\<close> digits.\<close>

definition append_int :: "int \<Rightarrow> nat \<Rightarrow> string" where
  "append_int x width =
     (let ds = nat_digits (nat \<bar>x\<bar>)
      in (if x < 0 then ''-'' else []) @ replicate (width - length ds) (CHR ''0'') @ ds)"

lemma of_char_digit_char:
  assumes "0 \<le> d" and "d \<le> 9"
  shows "(of_char (digit_char d) :: nat) = 48 + nat d"
proof -
  have "48 + nat d < 256" using assms by simp
  then show ?thesis by (simp add: digit_char_def)
qed

lemma digit_char_laws [simp]:
  assumes "0 \<le> d" and "d \<le> 9"
  shows "is_digit (digit_char d)" and "digit_val (digit_char d) = d"
  using assms by (simp_all add: is_digit_def digit_val_def of_char_digit_char)

lemma digit_char_zero: "digit_char 0 = CHR ''0''"
  by code_simp

lemma digit_char_inj: "0 \<le> a \<Longrightarrow> a \<le> 9 \<Longrightarrow> 0 \<le> b \<Longrightarrow> b \<le> 9 \<Longrightarrow> digit_char a = digit_char b \<longleftrightarrow> a = b"
  by (metis digit_char_laws(2))

lemma nat_digits_step: "10 \<le> n \<Longrightarrow> nat_digits n = nat_digits (n div 10) @ [digit_char (int (n mod 10))]"
  by (subst nat_digits.simps) simp

lemma nat_digits_one: "n < 10 \<Longrightarrow> nat_digits n = [digit_char (int n)]"
  by (subst nat_digits.simps) simp

lemma nat_digits_all: "list_all is_digit (nat_digits n)"
proof (induction n rule: nat_digits.induct)
  case (1 n)
  then show ?case by (cases "n < 10") (simp_all add: nat_digits_one nat_digits_step)
qed

text \<open>The number a string of digits stands for.\<close>

fun dec_value :: "string \<Rightarrow> nat \<Rightarrow> nat" where
  "dec_value [] acc = acc"
| "dec_value (c # cs) acc = dec_value cs (10 * acc + nat (digit_val c))"

lemma dec_value_append: "dec_value (xs @ ys) acc = dec_value ys (dec_value xs acc)"
  by (induction xs arbitrary: acc) auto

lemma dec_value_nat_digits: "dec_value (nat_digits n) 0 = n"
proof (induction n rule: nat_digits.induct)
  case (1 n)
  show ?case
  proof (cases "n < 10")
    case True
    then show ?thesis by (simp add: nat_digits_one)
  next
    case False
    then have "dec_value (nat_digits n) 0 = 10 * (n div 10) + nat (digit_val (digit_char (int (n mod 10))))"
      using 1 by (simp add: nat_digits_step dec_value_append)
    then show ?thesis by simp
  qed
qed

text \<open>Padding with zeros and then dropping to \<open>width\<close> digits is division with remainder.\<close>

definition pad_digits :: "nat \<Rightarrow> nat \<Rightarrow> string" where
  "pad_digits width n = replicate (width - length (nat_digits n)) (CHR ''0'') @ nat_digits n"

lemma pad_digits_step:
  assumes "0 < w" and "n < 10 ^ Suc w"
  shows "pad_digits (Suc w) n = pad_digits w (n div 10) @ [digit_char (int (n mod 10))]"
proof (cases "n < 10")
  case True
  then have "n div 10 = 0" by simp
  then show ?thesis using True assms(1)
    by (cases w) (simp_all add: pad_digits_def nat_digits_one digit_char_zero replicate_append_same)
next
  case False
  then show ?thesis by (simp add: pad_digits_def nat_digits_step)
qed

lemma pad_digits_1: "n < 10 \<Longrightarrow> pad_digits 1 n = [digit_char (int n)]"
  by (simp add: pad_digits_def nat_digits_one)

lemma append_int_pad: "0 \<le> x \<Longrightarrow> append_int x w = pad_digits w (nat x)"
  by (simp add: append_int_def pad_digits_def Let_def)

lemma append_int_2:
  assumes "0 \<le> x" and "x < 100"
  shows "append_int x 2 = [digit_char (x div 10), digit_char (x mod 10)]"
proof -
  define n where "n = nat x"
  have n: "n < 100" and x: "x = int n" using assms by (simp_all add: n_def)
  have "pad_digits (Suc 1) n = pad_digits 1 (n div 10) @ [digit_char (int (n mod 10))]"
    using n by (intro pad_digits_step) simp_all
  moreover have "pad_digits 1 (n div 10) = [digit_char (int (n div 10))]"
    using n by (intro pad_digits_1) simp
  moreover have "append_int x 2 = pad_digits (Suc 1) n"
    using assms by (simp only: append_int_pad n_def Suc_1)
  ultimately show ?thesis by (simp add: x zdiv_int zmod_int)
qed

lemma append_int_4:
  assumes "0 \<le> x" and "x < 10000"
  shows "append_int x 4 = append_int (x div 100) 2 @ append_int (x mod 100) 2"
proof -
  define n where "n = nat x"
  have n: "n < 10000" and x: "x = int n" using assms by (simp_all add: n_def)
  have "append_int x 4 = pad_digits (Suc (Suc (Suc 1))) n"
    using assms by (simp only: append_int_pad n_def) (simp add: numeral_eq_Suc)
  also have "\<dots> = pad_digits (Suc (Suc 1)) (n div 10) @ [digit_char (int (n mod 10))]"
    using n by (intro pad_digits_step) simp_all
  also have "pad_digits (Suc (Suc 1)) (n div 10)
      = pad_digits (Suc 1) (n div 10 div 10) @ [digit_char (int (n div 10 mod 10))]"
    using n by (intro pad_digits_step) simp_all
  also have "pad_digits (Suc 1) (n div 10 div 10) = append_int (x div 100) 2"
    using assms by (simp only: append_int_pad Suc_1)
      (simp add: x nat_div_distrib flip: div_mult2_eq)
  finally have "append_int x 4 = append_int (x div 100) 2
      @ [digit_char (int (n div 10 mod 10)), digit_char (int (n mod 10))]" by simp
  moreover have "append_int (x mod 100) 2
      = [digit_char (x mod 100 div 10), digit_char (x mod 100 mod 10)]"
    by (rule append_int_2) simp_all
  moreover have "x mod 100 div 10 = int (n div 10 mod 10)"
  proof -
    have "x mod 100 = int (n mod 100)" by (simp add: x zmod_int)
    also have "n mod 100 = 10 * (n div 10 mod 10) + n mod 10" using mod_mult2_eq[of n 10 10] by simp
    finally show ?thesis by (simp del: of_nat_mod of_nat_div)
  qed
  moreover have "x mod 100 mod 10 = int (n mod 10)" by (simp add: x zmod_int mod_mod_cancel)
  ultimately show ?thesis by simp
qed

section \<open>Dates\<close>

definition format_ymd :: "int \<Rightarrow> int \<Rightarrow> int \<Rightarrow> string" where
  "format_ymd y m d = append_int y 4 @ ''-'' @ append_int m 2 @ ''-'' @ append_int d 2"

definition format_date :: "int \<Rightarrow> string" where
  "format_date n = (case civil_from_days n of (y, m, d) \<Rightarrow> format_ymd y m d)"

definition num2 :: "char \<Rightarrow> char \<Rightarrow> int" where
  "num2 a b = 10 * digit_val a + digit_val b"

fun parse_date :: "string \<Rightarrow> int option" where
  "parse_date [y1, y2, y3, y4, s1, m1, m2, s2, d1, d2] =
     (let y = 100 * num2 y1 y2 + num2 y3 y4; m = num2 m1 m2; d = num2 d1 d2
      in if list_all is_digit [y1, y2, y3, y4, m1, m2, d1, d2]
            \<and> s1 = CHR ''-'' \<and> s2 = CHR ''-'' \<and> valid_date y m d
         then Some (days_from_civil y m d) else None)"
| "parse_date _ = None"

definition in_years :: "int \<Rightarrow> bool" where
  "in_years n \<longleftrightarrow> (case civil_from_days n of (y, m, d) \<Rightarrow> 0 \<le> y \<and> y \<le> 9999)"

lemma num2_digits [simp]:
  assumes "0 \<le> x" and "x < 100"
  shows "is_digit (digit_char (x div 10))" and "is_digit (digit_char (x mod 10))"
    and "num2 (digit_char (x div 10)) (digit_char (x mod 10)) = x"
proof -
  have "0 \<le> x div 10" "x div 10 \<le> 9" "0 \<le> x mod 10" "x mod 10 \<le> 9" using assms by simp_all
  then show "is_digit (digit_char (x div 10))" "is_digit (digit_char (x mod 10))"
    "num2 (digit_char (x div 10)) (digit_char (x mod 10)) = x" by (simp_all add: num2_def)
qed

lemma digits_num2:
  assumes "is_digit a" and "is_digit b"
  shows "0 \<le> num2 a b" and "num2 a b < 100" and "append_int (num2 a b) 2 = [a, b]"
proof -
  have inv: "digit_char (digit_val c) = c \<and> 0 \<le> digit_val c \<and> digit_val c \<le> 9" if "is_digit c" for c
    using that by (auto simp: is_digit_def digit_val_def digit_char_def nat_diff_distrib')
  show r: "0 \<le> num2 a b" "num2 a b < 100"
    using inv[OF assms(1)] inv[OF assms(2)] by (simp_all add: num2_def)
  have "num2 a b div 10 = digit_val a" "num2 a b mod 10 = digit_val b"
    using inv[OF assms(1)] inv[OF assms(2)] by (simp_all add: num2_def)
  with r inv assms show "append_int (num2 a b) 2 = [a, b]" by (simp add: append_int_2)
qed

lemma valid_date_range: "valid_date y m d \<Longrightarrow> 1 \<le> m \<and> m \<le> 12 \<and> 1 \<le> d \<and> d \<le> 31"
  by (auto simp: valid_date_def days_in_def split: if_splits)

lemma parse_format_ymd:
  assumes "0 \<le> y" and "y \<le> 9999" and "valid_date y m d"
  shows "parse_date (format_ymd y m d) = Some (days_from_civil y m d)"
proof -
  define a b where "a = y div 100" and "b = y mod 100"
  have ab: "0 \<le> a" "a < 100" "0 \<le> b" "b < 100" "100 * a + b = y"
    using assms(1,2) by (simp_all add: a_def b_def)
  have fy: "append_int y 4 = append_int a 2 @ append_int b 2"
    using assms(1,2) unfolding a_def b_def by (intro append_int_4) simp_all
  show ?thesis
    using assms(3) valid_date_range[OF assms(3)] ab
    by (simp add: format_ymd_def fy append_int_2 Let_def)
qed

lemma parse_format_date [simp]: "in_years n \<Longrightarrow> parse_date (format_date n) = Some n"
  using civil_from_days_valid[of n]
  by (auto simp: in_years_def format_date_def parse_format_ymd split: prod.splits)

lemma parse_date_Some:
  assumes "parse_date s = Some n"
  shows "in_years n \<and> format_date n = s"
proof -
  from assms obtain y1 y2 y3 y4 m1 m2 d1 d2 where
    s: "s = [y1, y2, y3, y4, CHR ''-'', m1, m2, CHR ''-'', d1, d2]"
    and dig: "list_all is_digit [y1, y2, y3, y4, m1, m2, d1, d2]"
    and v: "valid_date (100 * num2 y1 y2 + num2 y3 y4) (num2 m1 m2) (num2 d1 d2)"
    and n: "n = days_from_civil (100 * num2 y1 y2 + num2 y3 y4) (num2 m1 m2) (num2 d1 d2)"
    by (auto elim!: parse_date.elims simp: Let_def split: if_splits)
  let ?y = "100 * num2 y1 y2 + num2 y3 y4"
  note r = digits_num2[of y1 y2] digits_num2[of y3 y4] digits_num2[of m1 m2] digits_num2[of d1 d2]
  have y: "0 \<le> ?y" "?y \<le> 9999" using dig r by auto
  have c: "civil_from_days n = (?y, num2 m1 m2, num2 d1 d2)"
    unfolding n by (rule civil_from_days_from_civil[OF v])
  have "append_int ?y 4 = append_int (num2 y1 y2) 2 @ append_int (num2 y3 y4) 2"
    using y dig r by (subst append_int_4) auto
  then have "format_date n = s"
    using dig r by (simp add: format_date_def c format_ymd_def s)
  with c y show ?thesis by (simp add: in_years_def)
qed

section \<open>Clock times and local date-times\<close>

definition format_clock :: "int \<Rightarrow> int \<Rightarrow> int \<Rightarrow> string" where
  "format_clock h mi s = append_int h 2 @ '':'' @ append_int mi 2 @ '':'' @ append_int s 2"

definition format_local :: "time \<Rightarrow> string" where
  "format_local w = format_date (wall_day w) @ ''T'' @
     (case wall_clock w of (h, mi, s) \<Rightarrow> format_clock h mi s)"

fun fraction_ok :: "string \<Rightarrow> bool" where
  "fraction_ok [] = True"
| "fraction_ok (c # ds) = ((c = CHR ''.'' \<or> c = CHR '','') \<and> ds \<noteq> [] \<and> list_all is_digit ds)"

fun parse_minsec :: "string \<Rightarrow> (int \<times> int) option" where
  "parse_minsec (c1 # m1 # m2 # c2 # s1 # s2 # fr) =
     (if c1 = CHR '':'' \<and> c2 = CHR '':'' \<and> list_all is_digit [m1, m2, s1, s2]
         \<and> num2 m1 m2 < 60 \<and> num2 s1 s2 < 60 \<and> fraction_ok fr
      then Some (num2 m1 m2, num2 s1 s2) else None)"
| "parse_minsec _ = None"

fun parse_clock :: "string \<Rightarrow> (int \<times> int \<times> int) option" where
  "parse_clock (h1 # h2 # rest) =
     (if \<not> is_digit h1 then None
      else if is_digit h2
      then (if num2 h1 h2 < 24 then map_option (Pair (num2 h1 h2)) (parse_minsec rest) else None)
      else map_option (Pair (digit_val h1)) (parse_minsec (h2 # rest)))"
| "parse_clock _ = None"

fun parse_local :: "string \<Rightarrow> time option" where
  "parse_local (y1 # y2 # y3 # y4 # s1 # m1 # m2 # s2 # d1 # d2 # t # rest) =
     (if t = CHR ''T''
      then (case parse_date [y1, y2, y3, y4, s1, m1, m2, s2, d1, d2] of
              None \<Rightarrow> None
            | Some n \<Rightarrow> map_option (\<lambda>(h, mi, s). n * day + h * hour + mi * minute + s * second)
                          (parse_clock rest))
      else None)"
| "parse_local _ = None"

lemma format_date_length_10:
  assumes "in_years n"
  shows "\<exists>y1 y2 y3 y4 s1 m1 m2 s2 d1 d2. format_date n = [y1, y2, y3, y4, s1, m1, m2, s2, d1, d2]"
  using parse_format_date[OF assms] by (cases "format_date n" rule: parse_date.cases) auto

lemma wall_clock_range:
  assumes "wall_clock w = (h, mi, s)"
  shows "0 \<le> h \<and> h < 24 \<and> 0 \<le> mi \<and> mi < 60 \<and> 0 \<le> s \<and> s < 60
     \<and> w mod day = h * hour + mi * minute + s * second + w mod second"
proof -
  define k where "k = w mod day div second"
  have k: "0 \<le> k" "k < 86400"
    using pos_mod_bound[of day w] by (simp_all add: k_def div_less_iff_less_mult)
  have hms: "h = k div 3600" "mi = k mod 3600 div 60" "s = k mod 60"
    using assms by (simp_all add: wall_clock_def Let_def k_def)
  have "k = k div 3600 * 3600 + k mod 3600 div 60 * 60 + k mod 3600 mod 60"
    by (metis add.assoc div_mult_mod_eq)
  then have "k = h * 3600 + mi * 60 + s" by (simp add: hms mod_mod_cancel)
  moreover have "w mod day = k * second + w mod day mod second" by (simp add: k_def)
  moreover have "w mod day mod second = w mod second" by (simp add: mod_mod_cancel)
  moreover have "0 \<le> h" "0 \<le> mi" "0 \<le> s" "s < 60"
    using k by (simp_all add: hms pos_imp_zdiv_nonneg_iff)
  moreover have "h < 24" "mi < 60" using k by (simp_all add: hms div_less_iff_less_mult)
  ultimately show ?thesis by simp
qed

lemma parse_format_clock:
  assumes "0 \<le> h" "h < 24" "0 \<le> mi" "mi < 60" "0 \<le> s" "s < 60"
  shows "parse_clock (format_clock h mi s) = Some (h, mi, s)"
  using assms by (simp add: format_clock_def append_int_2)

lemma parse_format_local:
  assumes "in_years (wall_day w)"
  shows "parse_local (format_local w) = Some (w - w mod second)"
proof -
  obtain h mi s where c: "wall_clock w = (h, mi, s)" by (cases "wall_clock w") auto
  note r = wall_clock_range[OF c]
  obtain y1 y2 y3 y4 s1 m1 m2 s2 d1 d2
    where f: "format_date (wall_day w) = [y1, y2, y3, y4, s1, m1, m2, s2, d1, d2]"
    using format_date_length_10[OF assms] by blast
  have pd: "parse_date [y1, y2, y3, y4, s1, m1, m2, s2, d1, d2] = Some (wall_day w)"
    using parse_format_date[OF assms] by (simp only: f)
  have "parse_local (format_local w) = Some (wall_day w * day + h * hour + mi * minute + s * second)"
    using r pd by (simp add: format_local_def c f parse_format_clock del: parse_date.simps)
  moreover have "w = wall_day w * day + w mod day" by (simp add: wall_day_def)
  ultimately show ?thesis using r by simp
qed

section \<open>Formatting is injective\<close>

lemma dec_value_zeros: "dec_value (replicate k (CHR ''0'') @ ds) 0 = dec_value ds 0"
proof -
  have "digit_val (CHR ''0'') = 0" by code_simp
  then have "dec_value (replicate k (CHR ''0'')) 0 = 0" by (induction k) simp_all
  then show ?thesis by (simp add: dec_value_append)
qed

lemma nat_digits_head: "\<exists>c cs. nat_digits n = c # cs \<and> is_digit c"
proof (induction n rule: nat_digits.induct)
  case (1 n)
  then show ?case by (cases "n < 10") (auto simp: nat_digits_one nat_digits_step)
qed

lemma append_int_inj:
  assumes "append_int a w = append_int b w"
  shows "a = b"
proof -
  define pad where "pad n = replicate (w - length (nat_digits n)) (CHR ''0'') @ nat_digits n" for n
  have val: "dec_value (pad n) 0 = n" for n
    by (simp add: pad_def dec_value_zeros dec_value_nat_digits)
  have minus: "pad n \<noteq> CHR ''-'' # xs" for n xs
  proof -
    have "\<not> is_digit (CHR ''-'')" "is_digit (CHR ''0'')" by code_simp+
    moreover obtain c cs where "nat_digits n = c # cs" "is_digit c" using nat_digits_head by blast
    ultimately show ?thesis by (cases "w - length (nat_digits n)") (auto simp: pad_def)
  qed
  have "append_int x w = (if x < 0 then CHR ''-'' # pad (nat \<bar>x\<bar>) else pad (nat \<bar>x\<bar>))" for x
    by (simp add: append_int_def Let_def pad_def)
  then have "nat \<bar>a\<bar> = nat \<bar>b\<bar> \<and> (a < 0 \<longleftrightarrow> b < 0)"
    using assms val minus by (metis list.inject)
  then show ?thesis by auto
qed

lemma format_ymd_inj:
  assumes "valid_date y m d" and "valid_date y' m' d'" and "format_ymd y m d = format_ymd y' m' d'"
  shows "y = y' \<and> m = m' \<and> d = d'"
proof -
  have len: "length (append_int x 2) = 2" if "0 \<le> x" "x < 100" for x
    using that by (simp add: append_int_2)
  note r = valid_date_range[OF assms(1)] valid_date_range[OF assms(2)]
  have "append_int y 4 @ (''-'' @ append_int m 2 @ ''-'' @ append_int d 2)
      = append_int y' 4 @ (''-'' @ append_int m' 2 @ ''-'' @ append_int d' 2)"
    using assms(3) by (simp add: format_ymd_def)
  then have "append_int y 4 = append_int y' 4 \<and> ''-'' @ append_int m 2 @ ''-'' @ append_int d 2 = ''-'' @ append_int m' 2 @ ''-'' @ append_int d' 2"
    by (subst (asm) append_eq_append_conv) (use r len in auto)
  moreover from this have "append_int m 2 @ (''-'' @ append_int d 2) = append_int m' 2 @ (''-'' @ append_int d' 2)" by simp
  then have "append_int m 2 = append_int m' 2 \<and> ''-'' @ append_int d 2 = ''-'' @ append_int d' 2"
    by (subst (asm) append_eq_append_conv) (use r len in auto)
  ultimately show ?thesis using append_int_inj by blast
qed

lemma format_date_inj: "format_date a = format_date b \<longleftrightarrow> a = b"
proof
  assume eq: "format_date a = format_date b"
  obtain y m d y' m' d' where c: "civil_from_days a = (y, m, d)" "civil_from_days b = (y', m', d')"
    by (metis prod_cases3)
  with eq have "format_ymd y m d = format_ymd y' m' d'" by (simp add: format_date_def)
  with format_ymd_inj have "y = y' \<and> m = m' \<and> d = d'"
    using civil_from_days_valid[OF c(1)] civil_from_days_valid[OF c(2)] by blast
  then show "a = b" using civil_from_days_valid[OF c(1)] civil_from_days_valid[OF c(2)] by simp
qed simp

lemma format_local_inj: "format_local a = format_local b \<longleftrightarrow> wall_day a = wall_day b \<and> wall_clock a = wall_clock b"
proof
  assume eq: "format_local a = format_local b"
  obtain h mi s h' mi' s' where c: "wall_clock a = (h, mi, s)" "wall_clock b = (h', mi', s')"
    by (metis prod_cases3)
  have r: "0 \<le> h" "h < 24" "0 \<le> mi" "mi < 60" "0 \<le> s" "s < 60" "0 \<le> h'" "h' < 24" "0 \<le> mi'" "mi' < 60" "0 \<le> s'" "s' < 60"
    using wall_clock_range[OF c(1)] wall_clock_range[OF c(2)] by blast+
  have p: "parse_clock (format_clock h mi s) = Some (h, mi, s)" "parse_clock (format_clock h' mi' s') = Some (h', mi', s')"
    using r by (simp_all add: parse_format_clock)
  have len: "length (format_clock x y z) = 8" if "0 \<le> x" "x < 100" "0 \<le> y" "y < 100" "0 \<le> z" "z < 100" for x y z
    using that by (simp add: format_clock_def append_int_2)
  have "length (format_clock h mi s) = length (format_clock h' mi' s')" using r by (simp add: len)
  then have "format_date (wall_day a) = format_date (wall_day b) \<and> ''T'' @ format_clock h mi s = ''T'' @ format_clock h' mi' s'"
    using eq by (intro iffD1[OF append_eq_append_conv]) (auto simp: format_local_def c)
  then have "format_date (wall_day a) = format_date (wall_day b) \<and> format_clock h mi s = format_clock h' mi' s'" by simp
  moreover from this have "(h, mi, s) = (h', mi', s')"
    using p by (metis option.inject)
  ultimately show "wall_day a = wall_day b \<and> wall_clock a = wall_clock b"
    using c by (simp add: format_date_inj)
qed (simp add: format_local_def)

end
