(* ===== verification/Types.thy ===== *)
theory Types
  imports DateText
begin

text \<open>
  The data of the program: the domain types of \<open>internal/service/types.go\<close>, the error values of
  \<open>internal/service/service.go\<close>, the rows of \<open>internal/repo/models.go\<close> (with the columns that the
  hand-written SQL adds), and the event payloads of \<open>internal/events/events.go\<close>. A Go pointer or
  \<open>sql.Null*\<close> value is an option, a pointer to a pointer (a patch field that may be absent, null
  or set) an option of an option. Times are instants; the domain code normalises them to UTC. A
  \<open>DATE\<close> column is a day number. The text of a JSON column is kept as the value that was
  marshalled, since unmarshalling it into the same type gives that value back.
\<close>

section \<open>Errors\<close>

text \<open>
  The exported errors of the service package, and the failures of what it calls: a database
  failure, MySQL's duplicate-key error (1062), a JSON error, a failing identifier source, an
  unknown time zone.
\<close>

datatype err =
    ErrNotFound | ErrInvalidSchedule | ErrNotRecurring | ErrRevisionConflict
  | ErrIdempotencyConflict | ErrInvalidReminder | ErrReminderLimit | ErrDuplicateReminder
  | ErrAccountDeleted | ErrExtractBusy | ErrExtractUserRateLimited
  | DBError | MySQLDuplicate | JSONError | UUIDError | ZoneError

section \<open>Domain types\<close>

record RecurrenceRule =
  rr_Frequency :: string
  rr_Interval :: int
  rr_Count :: "int option"
  rr_Until :: "string option"
  rr_Weekdays :: "string list"
  rr_Exdates :: "string list"

record Reminder =
  rem_ID :: uuid
  rem_ScheduleID :: uuid
  rem_MinutesBefore :: int
  rem_Channel :: string
  rem_CreatedAt :: time

record ReminderInput =
  ri_MinutesBefore :: int
  ri_Channel :: string

record Schedule =
  s_ID :: uuid
  s_UserID :: uuid
  s_Title :: string
  s_Description :: "string option"
  s_Location :: "string option"
  s_StartAt :: time
  s_EndAt :: "time option"
  s_AllDay :: bool
  s_Timezone :: string
  s_StartDate :: "string option"
  s_EndDate :: "string option"
  s_Status :: string
  s_Source :: string
  s_ExtractionID :: "uuid option"
  s_CreatedAt :: time
  s_UpdatedAt :: time
  s_Revision :: int
  s_Reminders :: "Reminder list"
  s_SeriesID :: "uuid option"
  s_OccurrenceIndex :: "int option"
  s_Recurrence :: "RecurrenceRule option"

record SchedulePatch =
  p_ExpectedRevision :: "int option"
  p_Scope :: string
  p_StartFold :: string
  p_EndFold :: string
  p_Title :: "string option"
  p_Description :: "string option option"
  p_Location :: "string option option"
  p_StartAt :: "time option"
  p_EndAt :: "time option option"
  p_AllDay :: "bool option"
  p_Timezone :: "string option"
  p_StartDate :: "string option option"
  p_EndDate :: "string option option"
  p_Status :: "string option"

record ScheduleFields =
  f_Title :: string
  f_Description :: "string option"
  f_Location :: "string option"
  f_StartAt :: time
  f_EndAt :: "time option"
  f_AllDay :: bool
  f_Timezone :: string
  f_StartDate :: "string option"
  f_EndDate :: "string option"
  f_Status :: string

record ScheduleCursor =
  cur_StartAt :: time
  cur_ID :: uuid

record CreateScheduleInput =
  in_IdempotencyKey :: string
  in_Title :: string
  in_Description :: "string option"
  in_Location :: "string option"
  in_StartAt :: time
  in_EndAt :: "time option"
  in_AllDay :: bool
  in_Timezone :: string
  in_StartDate :: "string option"
  in_EndDate :: "string option"
  in_Status :: string
  in_Source :: string
  in_ExtractionID :: "uuid option"
  in_Reminders :: "ReminderInput list"
  in_Recurrence :: "RecurrenceRule option"

record ScheduleOccurrence =
  occ_StartAt :: time
  occ_EndAt :: "time option"
  occ_AllDay :: bool
  occ_StartDate :: "string option"
  occ_EndDate :: "string option"
  occ_LocalStart :: time

section \<open>Events\<close>

definition SubjectScheduleCreated :: string where
  "SubjectScheduleCreated = ''app.schedules.created.v1''"
definition SubjectScheduleUpdated :: string where
  "SubjectScheduleUpdated = ''app.schedules.updated.v1''"
definition SubjectScheduleDeleted :: string where
  "SubjectScheduleDeleted = ''app.schedules.deleted.v1''"

record ReminderSnapshot =
  rs_MinutesBefore :: int
  rs_Channel :: string

record ScheduleEvent =
  ev_ScheduleID :: string
  ev_UserID :: string
  ev_Title :: string
  ev_StartAt :: time
  ev_EndAt :: "time option"
  ev_AllDay :: bool
  ev_Timezone :: string
  ev_StartDate :: "string option"
  ev_EndDate :: "string option"
  ev_Source :: string
  ev_Status :: string
  ev_Revision :: int
  ev_Reminders :: "ReminderSnapshot list"
  ev_OccurredAt :: time

record ScheduleDeletedEvent =
  dev_ScheduleID :: string
  dev_UserID :: string
  dev_OccurredAt :: time
  dev_Revision :: int

datatype payload = PScheduleEvent ScheduleEvent | PDeletedEvent ScheduleDeletedEvent

fun payload_user :: "payload \<Rightarrow> string" where
  "payload_user (PScheduleEvent ev) = ev_UserID ev"
| "payload_user (PDeletedEvent ev) = dev_UserID ev"

fun payload_schedule :: "payload \<Rightarrow> string" where
  "payload_schedule (PScheduleEvent ev) = ev_ScheduleID ev"
| "payload_schedule (PDeletedEvent ev) = dev_ScheduleID ev"

fun payload_revision :: "payload \<Rightarrow> int" where
  "payload_revision (PScheduleEvent ev) = ev_Revision ev"
| "payload_revision (PDeletedEvent ev) = dev_Revision ev"

section \<open>Rows\<close>

record schedule_row =
  sr_ID :: uuid
  sr_UserID :: uuid
  sr_Title :: string
  sr_Description :: "string option"
  sr_Location :: "string option"
  sr_StartAt :: time
  sr_EndAt :: "time option"
  sr_AllDay :: bool
  sr_Status :: string
  sr_Source :: string
  sr_ExtractionID :: "uuid option"
  sr_CreatedAt :: time
  sr_UpdatedAt :: time
  sr_Revision :: int
  sr_Timezone :: string
  sr_StartDate :: "int option"
  sr_EndDate :: "int option"

record reminder_row =
  rmr_ID :: uuid
  rmr_ScheduleID :: uuid
  rmr_MinutesBefore :: int
  rmr_Channel :: string
  rmr_CreatedAt :: time

record series_row =
  ser_SeriesID :: uuid
  ser_UserID :: uuid
  ser_Recurrence :: RecurrenceRule

record occurrence_row =
  ocr_ScheduleID :: uuid
  ocr_SeriesID :: uuid
  ocr_Index :: int
  ocr_LocalStart :: time
  ocr_LocalDate :: int

record outbox_row =
  ob_ID :: uuid
  ob_Subject :: string
  ob_ScheduleID :: uuid
  ob_OccurredAt :: time
  ob_Payload :: payload
  ob_Headers :: "(string \<times> string) list"
  ob_Attempts :: int
  ob_AvailableAt :: time
  ob_LockedUntil :: "time option"
  ob_LockedBy :: "uuid option"
  ob_LastError :: "string option"
  ob_PublishedAt :: "time option"
  ob_CreatedAt :: time

text \<open>What the \<open>response_json\<close> columns hold.\<close>

datatype response = RSchedule Schedule | RReminder Reminder | RCount int

record create_request_row =
  cr_UserID :: uuid
  cr_Key :: string
  cr_Hash :: hash
  cr_Response :: "response option"
  cr_ExpiresAt :: time

record mutation_request_row =
  mr_UserID :: uuid
  mr_Operation :: string
  mr_Key :: string
  mr_ScheduleID :: uuid
  mr_Hash :: hash
  mr_Response :: "response option"
  mr_ExpiresAt :: time

record admission_row =
  ad_ID :: uuid
  ad_UserID :: uuid
  ad_StartedAt :: time
  ad_FinishedAt :: "time option"

record extraction_row =
  ex_ID :: uuid
  ex_UserID :: uuid
  ex_Model :: string
  ex_InputChars :: int
  ex_RawText :: "string option"
  ex_ResultJson :: "string option"
  ex_Status :: string
  ex_LatencyMs :: "int option"
  ex_CreatedAt :: time

section \<open>JSON\<close>

text \<open>
  \<open>json.Marshal\<close> fails on a time whose year is outside 0 to 9999 and on nothing else that the
  program marshals.
\<close>

definition json_time_ok :: "time \<Rightarrow> bool" where
  "json_time_ok t \<longleftrightarrow> in_years (t div day)"

definition json_Reminder_ok :: "Reminder \<Rightarrow> bool" where
  "json_Reminder_ok r \<longleftrightarrow> json_time_ok (rem_CreatedAt r)"

definition json_Schedule_ok :: "Schedule \<Rightarrow> bool" where
  "json_Schedule_ok s \<longleftrightarrow> json_time_ok (s_StartAt s) \<and> pred_option json_time_ok (s_EndAt s)
     \<and> json_time_ok (s_CreatedAt s) \<and> json_time_ok (s_UpdatedAt s)
     \<and> list_all json_Reminder_ok (s_Reminders s)"

fun json_payload_ok :: "payload \<Rightarrow> bool" where
  "json_payload_ok (PScheduleEvent ev) = (json_time_ok (ev_StartAt ev)
     \<and> pred_option json_time_ok (ev_EndAt ev) \<and> json_time_ok (ev_OccurredAt ev))"
| "json_payload_ok (PDeletedEvent ev) = json_time_ok (dev_OccurredAt ev)"

end
