(* ===== verification/Text.thy ===== *)
theory Text
  imports Prelude
begin

text \<open>
  What the program uses of Go's \<open>unicode/utf8\<close> and \<open>strings\<close> packages. A string is a list of bytes;
  \<open>runes\<close> cuts it into the encodings of its characters, a byte that starts no valid encoding being one
  of its own, as a \<open>range\<close> loop and \<open>utf8.RuneCountInString\<close> do. \<open>TrimSpace\<close> removes the characters that
  \<open>unicode.IsSpace\<close> accepts, \<open>ReplaceAll\<close> replaces the occurrences of a non-empty text from the left.
\<close>

section \<open>UTF-8\<close>

definition byte :: "char \<Rightarrow> nat" where
  "byte c = of_char c"

definition byte_in :: "nat \<Rightarrow> nat \<Rightarrow> char \<Rightarrow> bool" where
  "byte_in lo hi c \<longleftrightarrow> lo \<le> byte c \<and> byte c \<le> hi"

definition lead_width :: "nat \<Rightarrow> nat" where
  "lead_width x = (if x < 194 then 1 else if x < 224 then 2 else if x < 240 then 3 else if x < 245 then 4 else 1)"

text \<open>The bounds of the second byte depend on the first; the later ones are continuation bytes.\<close>

definition second_ok :: "nat \<Rightarrow> char \<Rightarrow> bool" where
  "second_ok x = byte_in (if x = 224 then 160 else if x = 240 then 144 else 128)
     (if x = 237 then 159 else if x = 244 then 143 else 191)"

definition rune_width :: "string \<Rightarrow> nat" where
  "rune_width s = (case s of
     [] \<Rightarrow> 0
   | a # rest \<Rightarrow>
       (let n = lead_width (byte a)
        in if n = 1 then 1
           else if length rest < n - 1 then 1
           else if second_ok (byte a) (hd rest) \<and> list_all (byte_in 128 191) (take (n - 2) (tl rest)) then n
           else 1))"

lemma rune_width_pos: "s \<noteq> [] \<Longrightarrow> 0 < rune_width s \<and> rune_width s \<le> length s"
  by (auto simp: rune_width_def lead_width_def Let_def Suc_le_eq split: list.splits)

function runes :: "string \<Rightarrow> string list" where
  "runes [] = []"
| "runes (c # cs) = take (rune_width (c # cs)) (c # cs) # runes (drop (rune_width (c # cs)) (c # cs))"
  by pat_completeness auto
termination
  by (relation "measure length") (use rune_width_pos in auto)

declare runes.simps(2) [simp del]

definition RuneCountInString :: "string \<Rightarrow> nat" where
  "RuneCountInString s = length (runes s)"

lemma runes_Cons: "s \<noteq> [] \<Longrightarrow> runes s = take (rune_width s) s # runes (drop (rune_width s) s)"
  by (cases s) (simp_all add: runes.simps(2))

lemma concat_runes [simp]: "concat (runes s) = s"
  by (induction s rule: runes.induct) (simp_all add: runes.simps(2))

lemma runes_nonempty: "r \<in> set (runes s) \<Longrightarrow> r \<noteq> []"
proof (induction s rule: runes.induct)
  case (2 c cs)
  then show ?case using rune_width_pos[of "c # cs"] by (auto simp: runes.simps(2))
qed simp

lemma RuneCountInString_le: "RuneCountInString s \<le> length s"
proof (induction s rule: runes.induct)
  case (2 c cs)
  then show ?case
    using rune_width_pos[of "c # cs"] by (simp add: RuneCountInString_def runes.simps(2)) linarith
qed (simp add: RuneCountInString_def)

lemma rune_width_ascii: "byte c < 128 \<Longrightarrow> rune_width (c # cs) = 1"
  by (simp add: rune_width_def lead_width_def)

lemma runes_ascii: "byte c < 128 \<Longrightarrow> runes (c # cs) = [c] # runes cs"
  by (simp add: runes.simps(2) rune_width_ascii)

text \<open>A string is valid UTF-8 when no byte stands alone unless it is an ASCII character.\<close>

definition valid_rune :: "string \<Rightarrow> bool" where
  "valid_rune r \<longleftrightarrow> 1 < length r \<or> byte (hd r) < 128"

definition valid_utf8 :: "string \<Rightarrow> bool" where
  "valid_utf8 s \<longleftrightarrow> list_all valid_rune (runes s)"

text \<open>\<open>string(r)\<close> of a decoded character: an invalid byte has become the replacement character.\<close>

definition rune_text :: "string \<Rightarrow> string" where
  "rune_text r = (if valid_rune r then r else map char_of [239, 191, 189 :: nat])"

lemma rune_text_valid: "valid_utf8 s \<Longrightarrow> concat (map rune_text (runes s)) = s"
proof -
  assume "valid_utf8 s"
  then have "map rune_text (runes s) = runes s"
    by (intro map_idI) (auto simp: valid_utf8_def list_all_iff rune_text_def)
  then show ?thesis by simp
qed

lemma rune_width_le_4: "rune_width s \<le> 4"
  by (auto simp: rune_width_def lead_width_def Let_def split: list.split)

lemma runes_short: "r \<in> set (runes s) \<Longrightarrow> length r \<le> 4"
proof (induction s rule: runes.induct)
  case (2 c cs)
  then show ?case using rune_width_le_4[of "c # cs"] by (auto simp: runes.simps(2))
qed simp

lemma rune_text_short: "r \<in> set (runes s) \<Longrightarrow> 0 < length (rune_text r) \<and> length (rune_text r) \<le> 4"
  using runes_short runes_nonempty by (auto simp: rune_text_def)

section \<open>Spaces\<close>

definition space_codes :: "nat list list" where
  "space_codes = [[9], [10], [11], [12], [13], [32], [194, 133], [194, 160], [225, 154, 128], [226, 128, 128], [226, 128, 129],
     [226, 128, 130], [226, 128, 131], [226, 128, 132], [226, 128, 133], [226, 128, 134], [226, 128, 135], [226, 128, 136],
     [226, 128, 137], [226, 128, 138], [226, 128, 168], [226, 128, 169], [226, 128, 175], [226, 129, 159], [227, 128, 128]]"

definition is_space :: "string \<Rightarrow> bool" where
  "is_space r \<longleftrightarrow> map byte r \<in> set space_codes"

definition trim_runes :: "string list \<Rightarrow> string list" where
  "trim_runes rs = rev (dropWhile is_space (rev (dropWhile is_space rs)))"

definition TrimSpace :: "string \<Rightarrow> string" where
  "TrimSpace s = concat (trim_runes (runes s))"

lemma trim_runes_sub: "\<exists>a b. rs = a @ trim_runes rs @ b \<and> list_all is_space a \<and> list_all is_space b"
proof -
  let ?a = "takeWhile is_space rs" and ?m = "dropWhile is_space rs"
  let ?b = "rev (takeWhile is_space (rev ?m))"
  have "?m = trim_runes rs @ ?b"
    unfolding trim_runes_def by (metis rev_append rev_rev_ident takeWhile_dropWhile_id)
  then have "rs = ?a @ trim_runes rs @ ?b" by (metis takeWhile_dropWhile_id)
  moreover have "list_all is_space ?a" "list_all is_space ?b" by (auto simp: list_all_iff dest: set_takeWhileD)
  ultimately show ?thesis by blast
qed

text \<open>Cutting characters off either end leaves the others as they were, so trimming twice is trimming once.\<close>

lemma rune_width_take: "rune_width s \<le> m \<Longrightarrow> rune_width (take m s) = rune_width s"
proof (cases s)
  case (Cons a rest)
  assume m: "rune_width s \<le> m"
  then obtain k where k: "m = Suc k" using rune_width_pos[of s] Cons by (cases m) auto
  consider "lead_width (byte a) = 1" | "lead_width (byte a) \<in> {2, 3, 4}" 
    by (cases "byte a < 194"; cases "byte a < 224"; cases "byte a < 240"; cases "byte a < 245") (auto simp: lead_width_def)
  then show ?thesis
  proof cases
    case 1
    then show ?thesis by (simp add: Cons k rune_width_def)
  next
    case 2
    have hd: "hd (take k rest) = hd rest" "take j (tl (take k rest)) = take (min j (k - 1)) (tl rest)" if "0 < k" for j
      using that by (cases k; cases rest; simp)+
    show ?thesis
      using m 2 unfolding Cons k
      by (auto simp: rune_width_def Let_def hd min_def Suc_le_eq not_less split: if_splits)
  qed
qed simp

lemma runes_take_runes: "runes (concat (take k (runes s))) = take k (runes s)"
proof (induction k arbitrary: s)
  case (Suc k)
  show ?case
  proof (cases "s = []")
    case False
    let ?n = "rune_width s" and ?t = "concat (take k (runes (drop (rune_width s) s)))"
    have split: "s = take ?n s @ ?t @ concat (drop k (runes (drop ?n s)))"
      by (metis append_take_drop_id concat_append concat_runes)
    have "take ?n s @ ?t = take (length (take ?n s @ ?t)) s" by (metis append.assoc append_eq_conv_conj split)
    moreover have "?n \<le> length (take ?n s @ ?t)" using rune_width_pos[OF False] by simp
    ultimately have w: "rune_width (take ?n s @ ?t) = ?n" by (metis rune_width_take)
    have "?n = length (take ?n s)" using rune_width_pos[OF False] by simp
    then have "runes (take ?n s @ ?t) = take ?n s # runes ?t"
      using False rune_width_pos[OF False] by (subst runes_Cons) (auto simp: w)
    with False Suc.IH[of "drop ?n s"] show ?thesis by (simp add: runes_Cons[of s])
  qed simp
qed simp

lemma runes_drop_runes: "runes (concat (drop k (runes s))) = drop k (runes s)"
proof (induction k arbitrary: s)
  case (Suc k)
  then show ?case by (cases "s = []") (simp_all add: runes_Cons[of s])
qed simp

lemma runes_TrimSpace: "runes (TrimSpace s) = trim_runes (runes s)"
proof -
  let ?rs = "runes s"
  have "trim_runes ?rs = take (length (dropWhile is_space (rev (dropWhile is_space ?rs)))) (dropWhile is_space ?rs)"
    unfolding trim_runes_def
    by (metis append_eq_conv_conj length_rev rev_append rev_rev_ident takeWhile_dropWhile_id)
  moreover have "dropWhile is_space ?rs = drop (length (takeWhile is_space ?rs)) ?rs" by (rule dropWhile_eq_drop)
  ultimately show ?thesis unfolding TrimSpace_def by (metis runes_drop_runes runes_take_runes)
qed

lemma dropWhile_idem: "dropWhile p (dropWhile p xs) = dropWhile p xs"
  by (induction xs) auto

lemma trim_runes_idem: "trim_runes (trim_runes rs) = trim_runes rs"
proof -
  obtain a b where split: "dropWhile is_space rs = trim_runes rs @ b" "list_all is_space b"
    unfolding trim_runes_def
    by (metis list_all_iff rev_append rev_rev_ident set_rev set_takeWhileD takeWhile_dropWhile_id)
  have front: "dropWhile is_space (trim_runes rs) = trim_runes rs"
  proof (cases "trim_runes rs")
    case (Cons x xs)
    then have "\<not> is_space x" using split(1) by (metis append_Cons dropWhile_eq_Cons_conv)
    with Cons show ?thesis by simp
  qed simp
  have "dropWhile is_space (rev (trim_runes rs)) = rev (trim_runes rs)"
    by (simp add: trim_runes_def dropWhile_idem)
  with front show ?thesis by (subst trim_runes_def) simp
qed

lemma TrimSpace_idem: "TrimSpace (TrimSpace s) = TrimSpace s"
  using trim_runes_idem[of "runes s"] runes_TrimSpace[of s] by (simp add: TrimSpace_def)

section \<open>Replacing\<close>

function ReplaceAll :: "string \<Rightarrow> string \<Rightarrow> string \<Rightarrow> string" where
  "ReplaceAll old new [] = []"
| "ReplaceAll old new (c # cs) =
     (if old \<noteq> [] \<and> take (length old) (c # cs) = old then new @ ReplaceAll old new (drop (length old) (c # cs))
      else c # ReplaceAll old new cs)"
  by pat_completeness auto
termination
  by (relation "measure (\<lambda>(_, _, s). length s)") auto

lemma ReplaceAll_char: "ReplaceAll [x] new s = concat (map (\<lambda>c. if c = x then new else [c]) s)"
  by (induction s) auto

end
