(* ===== verification/Tokens.thy ===== *)
theory Tokens
  imports Types Text
begin

text \<open>
  The tokens the HTTP layer hands out and reads back (\<open>internal/api/schedules.go\<close>): the entity tag of a
  schedule (\<open>writeScheduleJSON\<close>, \<open>parseIfMatch\<close>), the page cursor (\<open>encodeScheduleCursor\<close>,
  \<open>decodeScheduleCursor\<close>, \<open>listFilterHash\<close>) and the idempotency key, with what they use of
  \<open>strconv\<close> and \<open>encoding/base64\<close>. The JSON form of the cursor and the textual form of a UUID are
  parameters.
\<close>

section \<open>Decimal numbers\<close>

text \<open>\<open>strconv.ParseInt(s, 10, bits)\<close>; \<open>None\<close> is a syntax or a range error.\<close>

definition ParseInt :: "nat \<Rightarrow> string \<Rightarrow> int option" where
  "ParseInt bits s =
     (let neg = (s \<noteq> [] \<and> hd s = CHR ''-'');
          ds = (if s \<noteq> [] \<and> (hd s = CHR ''-'' \<or> hd s = CHR ''+'') then tl s else s);
          v = (if neg then - int (dec_value ds 0) else int (dec_value ds 0))
      in if ds = [] \<or> \<not> list_all is_digit ds then None
         else if - (2 ^ (bits - 1)) \<le> v \<and> v < 2 ^ (bits - 1) then Some v else None)"

definition FormatInt :: "int \<Rightarrow> string" where
  "FormatInt n = (if n < 0 then CHR ''-'' # nat_digits (nat (- n)) else nat_digits (nat n))"

section \<open>Entity tags\<close>

definition etag :: "int \<Rightarrow> string" where
  "etag revision = [CHR 0x22] @ FormatInt revision @ [CHR 0x22]"

definition parseIfMatch :: "string \<Rightarrow> int option" where
  "parseIfMatch v =
     (if length v < 3 \<or> hd v \<noteq> CHR 0x22 \<or> last v \<noteq> CHR 0x22 then None
      else case ParseInt 64 (butlast (tl v)) of
          None \<Rightarrow> None
        | Some revision \<Rightarrow> if 0 < revision then Some revision else None)"

section \<open>Base64\<close>

definition base64_alphabet :: string where
  "base64_alphabet = ''ABCDEFGHIJKLMNOPQRSTUVWXYZabcdefghijklmnopqrstuvwxyz0123456789-_''"

definition digit64 :: "nat \<Rightarrow> char" where
  "digit64 k = base64_alphabet ! k"

definition value64 :: "char \<Rightarrow> nat option" where
  "value64 c = map_of (zip base64_alphabet [0..<64]) c"

fun EncodeToString :: "string \<Rightarrow> string" where
  "EncodeToString (a # b # c # rest) =
     [digit64 (byte a div 4), digit64 (byte a mod 4 * 16 + byte b div 16), digit64 (byte b mod 16 * 4 + byte c div 64), digit64 (byte c mod 64)]
     @ EncodeToString rest"
| "EncodeToString [a, b] = [digit64 (byte a div 4), digit64 (byte a mod 4 * 16 + byte b div 16), digit64 (byte b mod 16 * 4)]"
| "EncodeToString [a] = [digit64 (byte a div 4), digit64 (byte a mod 4 * 16)]"
| "EncodeToString [] = []"

definition join64 :: "nat \<Rightarrow> nat \<Rightarrow> nat \<Rightarrow> nat \<Rightarrow> string" where
  "join64 p q r s = map char_of [p * 4 + q div 16, q mod 16 * 16 + r div 4, r mod 4 * 64 + s]"

text \<open>The decoder ignores line breaks; a single character at the end is an error.\<close>

fun decode_groups :: "nat list \<Rightarrow> string option" where
  "decode_groups (p # q # r # s # rest) = map_option (\<lambda>t. join64 p q r s @ t) (decode_groups rest)"
| "decode_groups [p, q, r] = Some (take 2 (join64 p q r 0))"
| "decode_groups [p, q] = Some (take 1 (join64 p q 0 0))"
| "decode_groups [p] = None"
| "decode_groups [] = Some []"

definition DecodeString :: "string \<Rightarrow> string option" where
  "DecodeString s =
     (let vs = map value64 (filter (\<lambda>c. c \<noteq> CHR 0x0A \<and> c \<noteq> CHR 0x0D) s)
      in if None \<in> set vs then None else decode_groups (map the vs))"

section \<open>Cursors\<close>

record scheduleCursorToken =
  ct_StartAt :: time
  ct_ID :: string
  ct_FilterHash :: string

text \<open>The parameters: \<open>json.Marshal\<close> and \<open>json.Unmarshal\<close> for the token, \<open>UUID.String\<close> and \<open>uuid.Parse\<close>.\<close>

record token_codec =
  tc_marshal :: "scheduleCursorToken \<Rightarrow> string"
  tc_unmarshal :: "string \<Rightarrow> scheduleCursorToken option"
  tc_string :: "uuid \<Rightarrow> string"
  tc_parse :: "string \<Rightarrow> uuid option"

definition zero_time :: time where
  "zero_time = days_from_civil 1 1 1 * day"

definition encodeScheduleCursor :: "token_codec \<Rightarrow> time \<Rightarrow> uuid \<Rightarrow> string \<Rightarrow> string" where
  "encodeScheduleCursor codec startAt ident filterHash =
     EncodeToString (tc_marshal codec \<lparr>ct_StartAt = startAt, ct_ID = tc_string codec ident, ct_FilterHash = filterHash\<rparr>)"

definition decodeScheduleCursor :: "token_codec \<Rightarrow> string \<Rightarrow> string \<Rightarrow> ScheduleCursor option" where
  "decodeScheduleCursor codec val filterHash =
     (case DecodeString val of
        None \<Rightarrow> None
      | Some data \<Rightarrow>
          (case tc_unmarshal codec data of
             None \<Rightarrow> None
           | Some token \<Rightarrow>
               if ct_FilterHash token \<noteq> filterHash \<or> ct_StartAt token = zero_time then None
               else (case tc_parse codec (ct_ID token) of
                   None \<Rightarrow> None
                 | Some ident \<Rightarrow> Some \<lparr>cur_StartAt = ct_StartAt token, cur_ID = ident\<rparr>)))"

definition idempotencyKey :: "string \<Rightarrow> string \<times> bool" where
  "idempotencyKey key = (key, length key \<le> 128 \<and> TrimSpace key = key \<and> \<not> (\<exists>c \<in> set key. c \<in> {CHR 0x0D, CHR 0x0A, CHR 0x09}))"

section \<open>Entity tags come back\<close>

lemma ParseInt_FormatInt:
  assumes "- (2 ^ (bits - 1)) \<le> n" and "n < 2 ^ (bits - 1)"
  shows "ParseInt bits (FormatInt n) = Some n"
proof -
  obtain c cs where head: "nat_digits (nat \<bar>n\<bar>) = c # cs" "is_digit c" using nat_digits_head by blast
  have c: "c \<noteq> CHR ''-''" "c \<noteq> CHR ''+''"
  proof -
    have "\<not> is_digit (CHR ''-'')" "\<not> is_digit (CHR ''+'')" by code_simp+
    with head(2) show "c \<noteq> CHR ''-''" "c \<noteq> CHR ''+''" by auto
  qed
  have val: "dec_value (nat_digits (nat \<bar>n\<bar>)) 0 = nat \<bar>n\<bar>" by (rule dec_value_nat_digits)
  show ?thesis
    using assms c head nat_digits_all[of "nat \<bar>n\<bar>"] val
    by (cases "n < 0") (auto simp: ParseInt_def FormatInt_def Let_def)
qed

lemma parseIfMatch_etag: "0 < n \<Longrightarrow> n \<le> max_int64 \<Longrightarrow> parseIfMatch (etag n) = Some n"
proof -
  assume n: "0 < n" "n \<le> max_int64"
  then have "ParseInt 64 (FormatInt n) = Some n" by (intro ParseInt_FormatInt) (simp_all add: max_int64_def)
  moreover have "FormatInt n \<noteq> []" using n nat_digits_head[of "nat n"] by (auto simp: FormatInt_def)
  then have "\<not> length (etag n) < 3" by (cases "FormatInt n") (auto simp: etag_def)
  ultimately show ?thesis using n(1) by (simp add: parseIfMatch_def etag_def butlast_append)
qed

text \<open>
  The revision in the entity tag of a response is the revision that is read back from it, and
  a header is accepted only for a positive revision of 64 bits.\<close>

theorem parseIfMatch_roundtrip:
  "(0 < n \<longrightarrow> n \<le> max_int64 \<longrightarrow> parseIfMatch (etag n) = Some n)
   \<and> (parseIfMatch v = Some r \<longrightarrow> 0 < r \<and> r \<le> max_int64)"
  using parseIfMatch_etag
  by (auto simp: parseIfMatch_def ParseInt_def Let_def max_int64_def split: if_splits option.splits)

lemma parseIfMatch_roundtrip_witness: "parseIfMatch (etag 7) = Some 7 \<and> (0::int) < 7 \<and> (7::int) \<le> max_int64"
  using parseIfMatch_roundtrip[of 7 "etag 7" 7] by (simp add: max_int64_def)

section \<open>Cursors come back\<close>

lemma value64_digit64: "k < 64 \<Longrightarrow> value64 (digit64 k) = Some k"
proof -
  have "list_all (\<lambda>k. value64 (digit64 k) = Some k) [0..<64]" by code_simp
  then show "k < 64 \<Longrightarrow> ?thesis" by (simp add: list_all_iff)
qed

lemma digit64_no_break: "k < 64 \<Longrightarrow> digit64 k \<noteq> CHR 0x0A \<and> digit64 k \<noteq> CHR 0x0D"
proof -
  have "list_all (\<lambda>k. digit64 k \<noteq> CHR 0x0A \<and> digit64 k \<noteq> CHR 0x0D) [0..<64]" by code_simp
  then show "k < 64 \<Longrightarrow> ?thesis" by (simp add: list_all_iff)
qed

lemma byte_less [simp]: "byte c < 256"
  by (simp add: byte_def)

fun sextets :: "string \<Rightarrow> nat list" where
  "sextets (a # b # c # rest) = [byte a div 4, byte a mod 4 * 16 + byte b div 16, byte b mod 16 * 4 + byte c div 64, byte c mod 64] @ sextets rest"
| "sextets [a, b] = [byte a div 4, byte a mod 4 * 16 + byte b div 16, byte b mod 16 * 4]"
| "sextets [a] = [byte a div 4, byte a mod 4 * 16]"
| "sextets [] = []"

lemma EncodeToString_sextets: "EncodeToString s = map digit64 (sextets s)"
  by (induction s rule: sextets.induct) simp_all

lemma split_bound: "a < 4 \<Longrightarrow> b < 16 \<Longrightarrow> a * 16 + b < (64::nat)" "a < 16 \<Longrightarrow> b < 4 \<Longrightarrow> a * 4 + b < (64::nat)"
  by simp_all

lemma sextets_less: "k \<in> set (sextets s) \<Longrightarrow> k < 64"
proof (induction s rule: sextets.induct)
  case (1 a b c rest)
  have "byte a div 4 < 64" "byte b div 16 < 16" "byte c div 64 < 4" using byte_less[of a] byte_less[of b] byte_less[of c] by linarith+
  then show ?case using 1 by (auto intro: split_bound)
next
  case (2 a b)
  have "byte a div 4 < 64" "byte b div 16 < 16" "byte b mod 16 < 16" using byte_less[of a] byte_less[of b] by linarith+
  then show ?case using 2 by (auto intro: split_bound)
next
  case (3 a)
  have "byte a div 4 < 64" "byte a mod 4 < 4" using byte_less[of a] by linarith+
  then show ?case using 3 by auto
qed simp

lemma char_of_byte [simp]: "char_of (byte c) = c"
  by (simp add: byte_def)

lemma decode_sextets: "decode_groups (sextets s) = Some s"
proof (induction s rule: sextets.induct)
  case (1 a b c rest)
  have "byte b div 16 < 16" "byte c div 64 < 4" using byte_less[of b] byte_less[of c] by linarith+
  then have "join64 (byte a div 4) (byte a mod 4 * 16 + byte b div 16) (byte b mod 16 * 4 + byte c div 64) (byte c mod 64) = [a, b, c]"
    by (simp add: join64_def)
  then show ?case using 1 by simp
next
  case (2 a b)
  have "byte b div 16 < 16" using byte_less[of b] by linarith
  then show ?case by (simp add: join64_def)
next
  case (3 a)
  then show ?case by (simp add: join64_def)
qed simp

lemma DecodeString_EncodeToString: "DecodeString (EncodeToString s) = Some s"
proof -
  have "filter (\<lambda>c. c \<noteq> CHR 0x0A \<and> c \<noteq> CHR 0x0D) (map digit64 (sextets s)) = map digit64 (sextets s)"
    by (auto simp: filter_id_conv dest!: sextets_less digit64_no_break)
  moreover have "map value64 (map digit64 (sextets s)) = map Some (sextets s)"
    by (auto dest!: sextets_less value64_digit64)
  ultimately show ?thesis by (auto simp: DecodeString_def EncodeToString_sextets decode_sextets comp_def Let_def simp del: map_map)
      (simp add: comp_def decode_sextets)
qed

text \<open>The laws of the parameters: what was marshalled is read back, and a UUID parses from its text.\<close>

definition codec_ok :: "token_codec \<Rightarrow> bool" where
  "codec_ok codec \<longleftrightarrow> (\<forall>t. tc_unmarshal codec (tc_marshal codec t) = Some t) \<and> (\<forall>i. tc_parse codec (tc_string codec i) = Some i)"

lemma decode_encode_cursor:
  "codec_ok codec \<Longrightarrow> startAt \<noteq> zero_time \<Longrightarrow>
   decodeScheduleCursor codec (encodeScheduleCursor codec startAt ident h) h = Some \<lparr>cur_StartAt = startAt, cur_ID = ident\<rparr>"
  by (simp add: decodeScheduleCursor_def encodeScheduleCursor_def DecodeString_EncodeToString codec_ok_def)

text \<open>
  C31: A cursor that the service handed out comes back as the position it was made from, and it is
  rejected when the filter of the request has changed.\<close>

theorem cursor_roundtrip:
  assumes "codec_ok codec" and "startAt \<noteq> zero_time"
  shows "decodeScheduleCursor codec (encodeScheduleCursor codec startAt ident h) h' =
    (if h' = h then Some \<lparr>cur_StartAt = startAt, cur_ID = ident\<rparr> else None)"
  using assms by (simp add: decodeScheduleCursor_def encodeScheduleCursor_def DecodeString_EncodeToString codec_ok_def)

text \<open>A codec with the laws: the three parts, in a form that can be taken apart.\<close>

definition sample_codec :: token_codec where
  "sample_codec = \<lparr>
     tc_marshal = (\<lambda>t. (if ct_StartAt t < 0 then ''-'' else ''+'') @ replicate (nat \<bar>ct_StartAt t\<bar>) (CHR ''x'') @ ''|''
        @ replicate (length (ct_ID t)) (CHR ''y'') @ ''|'' @ ct_ID t @ ct_FilterHash t),
     tc_unmarshal = (\<lambda>s. let a = takeWhile (\<lambda>c. c = CHR ''x'') (tl s); s1 = tl (dropWhile (\<lambda>c. c = CHR ''x'') (tl s));
        n = length (takeWhile (\<lambda>c. c = CHR ''y'') s1); s2 = tl (dropWhile (\<lambda>c. c = CHR ''y'') s1)
        in Some \<lparr>ct_StartAt = (if hd s = CHR ''-'' then - int (length a) else int (length a)), ct_ID = take n s2, ct_FilterHash = drop n s2\<rparr>),
     tc_string = (\<lambda>i. nat_digits (unat i)), tc_parse = (\<lambda>s. Some (word_of_nat (dec_value s 0)))\<rparr>"

lemma span_replicate:
  "takeWhile (\<lambda>c. c = x) (replicate n x @ y # ys) = replicate n x" if "x \<noteq> y"
  using that by (induction n) auto

lemma rest_replicate:
  "dropWhile (\<lambda>c. c = x) (replicate n x @ y # ys) = y # ys" if "x \<noteq> y"
  using that by (induction n) auto

lemma sample_codec_ok: "codec_ok sample_codec"
proof -
  have "tc_parse sample_codec (tc_string sample_codec i) = Some i" for i
    by (simp add: sample_codec_def dec_value_nat_digits)
  moreover have "tc_unmarshal sample_codec (tc_marshal sample_codec t) = Some t" for t
    by (cases t) (auto simp: sample_codec_def Let_def span_replicate rest_replicate)
  ultimately show ?thesis by (simp add: codec_ok_def)
qed

lemma cursor_roundtrip_witness:
  "decodeScheduleCursor sample_codec (encodeScheduleCursor sample_codec 5 7 ''ab'') ''ab'' = Some \<lparr>cur_StartAt = 5, cur_ID = 7\<rparr>"
proof -
  have "(5::time) \<noteq> zero_time" by code_simp
  from cursor_roundtrip[OF sample_codec_ok this] show ?thesis by simp
qed

end
