(* ===== verification/Json.thy ===== *)
theory Json
  imports Tokens
begin

text \<open>
  What the program uses of \<open>encoding/json\<close> when it decodes: a JSON value as the syntax parser
  delivers it (strings unescaped, numbers as their literals), and decoding it into strings, booleans,
  integers, times, pointers, slices and structs. A decoder takes the value the target holds before:
  \<open>null\<close> leaves a non-pointer target alone. A member is matched to the field whose name it equals up
  to case, members that match no field are ignored, and members of the same name are decoded one
  after the other. \<open>None\<close> is a decoding error.

  Times are texts in the format of RFC 3339: \<open>time.Parse\<close> accepts a few texts that
  \<open>time.Time.UnmarshalJSON\<close> refuses.
\<close>

section \<open>Values\<close>

datatype json = JNull | JBool bool | JNumber string | JString string | JArray "json list"
  | JObject "(string \<times> json) list"

text \<open>What a decoder finds in a body: nothing, a text that is no JSON, or a first value.\<close>

datatype body = NoBody | BadJSON | JSONBody json

fun body_json :: "body \<Rightarrow> json option" where
  "body_json (JSONBody j) = Some j"
| "body_json _ = None"

section \<open>Times\<close>

definition nanos_of :: "string \<Rightarrow> int" where
  "nanos_of ds = (let k = take 9 ds in int (dec_value k 0) * 10 ^ (9 - length k))"

text \<open>The nanoseconds of a fraction, whether it starts with a comma, and the text after it.\<close>

fun parse_fraction :: "string \<Rightarrow> int \<times> bool \<times> string" where
  "parse_fraction (c # d # rest) =
     (if (c = CHR ''.'' \<or> c = CHR '','') \<and> is_digit d
      then (nanos_of (takeWhile is_digit (d # rest)), c = CHR '','', dropWhile is_digit (d # rest))
      else (0, False, c # d # rest))"
| "parse_fraction s = (0, False, s)"

text \<open>An offset from UTC in seconds; the strict form limits it to less than a day.\<close>

fun parse_offset :: "bool \<Rightarrow> string \<Rightarrow> int option" where
  "parse_offset strict [c] = (if c = CHR ''Z'' then Some 0 else None)"
| "parse_offset strict [sg, h1, h2, c, m1, m2] =
     (if (sg = CHR ''+'' \<or> sg = CHR ''-'') \<and> c = CHR '':'' \<and> list_all is_digit [h1, h2, m1, m2]
         \<and> (if strict then num2 h1 h2 < 24 \<and> num2 m1 m2 < 60 else num2 h1 h2 \<le> 24 \<and> num2 m1 m2 \<le> 60)
      then Some ((if sg = CHR ''-'' then -1 else 1) * (num2 h1 h2 * 60 + num2 m1 m2) * 60)
      else None)"
| "parse_offset strict _ = None"

text \<open>Minutes, seconds, fraction and offset: the time after the full hour and the offset.\<close>

fun parse_hour_tail :: "bool \<Rightarrow> string \<Rightarrow> (time \<times> int) option" where
  "parse_hour_tail strict (c1 # m1 # m2 # c2 # s1 # s2 # rest) =
     (if c1 = CHR '':'' \<and> c2 = CHR '':'' \<and> list_all is_digit [m1, m2, s1, s2] \<and> num2 m1 m2 < 60 \<and> num2 s1 s2 < 60
      then (case parse_fraction rest of (ns, comma, rest') \<Rightarrow>
        if strict \<and> comma then None
        else map_option (Pair (num2 m1 m2 * minute + num2 s1 s2 * second + ns)) (parse_offset strict rest'))
      else None)"
| "parse_hour_tail strict _ = None"

fun parse_day_tail :: "bool \<Rightarrow> string \<Rightarrow> (time \<times> int) option" where
  "parse_day_tail strict (h1 # h2 # rest) =
     (if \<not> is_digit h1 then None
      else if is_digit h2
      then (if num2 h1 h2 < 24 then map_option (\<lambda>(t, off). (num2 h1 h2 * hour + t, off)) (parse_hour_tail strict rest) else None)
      else if strict then None
      else map_option (\<lambda>(t, off). (digit_val h1 * hour + t, off)) (parse_hour_tail strict (h2 # rest)))"
| "parse_day_tail strict _ = None"

text \<open>The wall-clock reading that is written and its offset.\<close>

fun parse_rfc3339 :: "bool \<Rightarrow> string \<Rightarrow> (time \<times> int) option" where
  "parse_rfc3339 strict (y1 # y2 # y3 # y4 # s1 # m1 # m2 # s2 # d1 # d2 # t # rest) =
     (if t = CHR ''T''
      then (case parse_date [y1, y2, y3, y4, s1, m1, m2, s2, d1, d2] of
              None \<Rightarrow> None
            | Some n \<Rightarrow> map_option (\<lambda>(c, off). (n * day + c, off)) (parse_day_tail strict rest))
      else None)"
| "parse_rfc3339 strict _ = None"

definition instant_of :: "time \<times> int \<Rightarrow> time" where
  "instant_of p = fst p - snd p * second"

definition time_Parse :: "string \<Rightarrow> time option" where
  "time_Parse s = map_option instant_of (parse_rfc3339 False s)"

definition format_rfc3339 :: "time \<Rightarrow> string" where
  "format_rfc3339 t = format_local t @ ''Z''"

text \<open>The fraction of \<open>RFC3339Nano\<close> loses its trailing zeros.\<close>

definition format_fraction :: "int \<Rightarrow> string" where
  "format_fraction ns =
     (if ns = 0 then [] else CHR ''.'' # rev (dropWhile (\<lambda>c. c = CHR ''0'') (rev (append_int ns 9))))"

definition format_rfc3339nano :: "time \<Rightarrow> string" where
  "format_rfc3339nano t = format_local t @ format_fraction (t mod second) @ ''Z''"

section \<open>Decoders\<close>

type_synonym 'a decoder = "'a \<Rightarrow> json \<Rightarrow> 'a option"

definition into_string :: "string decoder" where
  "into_string cur j = (case j of JNull \<Rightarrow> Some cur | JString s \<Rightarrow> Some s | _ \<Rightarrow> None)"

definition into_bool :: "bool decoder" where
  "into_bool cur j = (case j of JNull \<Rightarrow> Some cur | JBool b \<Rightarrow> Some b | _ \<Rightarrow> None)"

definition into_int :: "nat \<Rightarrow> int decoder" where
  "into_int bits cur j = (case j of JNull \<Rightarrow> Some cur | JNumber s \<Rightarrow> ParseInt bits s | _ \<Rightarrow> None)"

definition into_time :: "time decoder" where
  "into_time cur j = (case j of JNull \<Rightarrow> Some cur | JString s \<Rightarrow> map_option instant_of (parse_rfc3339 True s) | _ \<Rightarrow> None)"

text \<open>A pointer is set to nil by \<open>null\<close>; else its target, or a new zero value, is decoded into.\<close>

definition into_pointer :: "'a \<Rightarrow> 'a decoder \<Rightarrow> 'a option decoder" where
  "into_pointer zero dec cur j =
     (if j = JNull then Some None
      else map_option Some (dec (case cur of None \<Rightarrow> zero | Some v \<Rightarrow> v) j))"

fun decode_all :: "(json \<Rightarrow> 'a option) \<Rightarrow> json list \<Rightarrow> 'a list option" where
  "decode_all dec [] = Some []"
| "decode_all dec (j # js) =
     (case dec j of None \<Rightarrow> None | Some x \<Rightarrow> map_option (Cons x) (decode_all dec js))"

text \<open>A slice: \<open>null\<close> makes it nil, which has no elements.\<close>

definition into_slice :: "'a \<Rightarrow> 'a decoder \<Rightarrow> 'a list decoder" where
  "into_slice zero dec cur j = (case j of JNull \<Rightarrow> Some [] | JArray js \<Rightarrow> decode_all (dec zero) js | _ \<Rightarrow> None)"

text \<open>
  Member names are compared up to case; the Kelvin sign and the long s are the only other characters
  that fold to an ASCII letter.
\<close>

definition lower_char :: "char \<Rightarrow> char" where
  "lower_char c = (if 65 \<le> byte c \<and> byte c \<le> 90 then char_of (byte c + 32) else c)"

fun fold_key :: "string \<Rightarrow> string" where
  "fold_key (a # b # c # rest) =
     (if a = CHR 0xE2 \<and> b = CHR 0x84 \<and> c = CHR 0xAA then CHR ''k'' # fold_key rest
      else if a = CHR 0xC5 \<and> b = CHR 0xBF then CHR ''s'' # fold_key (c # rest)
      else lower_char a # fold_key (b # c # rest))"
| "fold_key [a, b] = (if a = CHR 0xC5 \<and> b = CHR 0xBF then ''s'' else [lower_char a, lower_char b])"
| "fold_key [a] = [lower_char a]"
| "fold_key [] = []"

type_synonym 'a fields = "(string \<times> 'a decoder) list"

fun decode_members :: "'a fields \<Rightarrow> 'a \<Rightarrow> (string \<times> json) list \<Rightarrow> 'a option" where
  "decode_members flds cur [] = Some cur"
| "decode_members flds cur ((name, j) # ms) =
     (case find (\<lambda>fd. fst fd = fold_key name) flds of
        None \<Rightarrow> decode_members flds cur ms
      | Some fd \<Rightarrow> (case snd fd cur j of None \<Rightarrow> None | Some cur' \<Rightarrow> decode_members flds cur' ms))"

definition into_struct :: "'a fields \<Rightarrow> 'a decoder" where
  "into_struct flds cur j = (case j of JNull \<Rightarrow> Some cur | JObject ms \<Rightarrow> decode_members flds cur ms | _ \<Rightarrow> None)"

text \<open>A field of a struct, with the way to read and to replace it.\<close>

definition json_member :: "string \<Rightarrow> ('r \<Rightarrow> 'a) \<Rightarrow> ('a \<Rightarrow> 'r \<Rightarrow> 'r) \<Rightarrow> 'a decoder \<Rightarrow> string \<times> 'r decoder" where
  "json_member name get put dec = (name, \<lambda>cur j. map_option (\<lambda>v. put v cur) (dec (get cur) j))"

text \<open>A map: the last member of a name counts.\<close>

definition raw_member :: "(string \<times> json) list \<Rightarrow> string \<Rightarrow> json option" where
  "raw_member ms name = map_of (rev ms) name"

definition into_raw_map :: "json \<Rightarrow> (string \<times> json) list option" where
  "into_raw_map j = (case j of JNull \<Rightarrow> Some [] | JObject ms \<Rightarrow> Some ms | _ \<Rightarrow> None)"

end
