(* ===== verification/LocalTime.thy ===== *)
theory LocalTime
  imports DateText
begin

text \<open>
  Local times: \<open>internal/api/localtime.go\<close> (\<open>resolveLocalDateTime\<close>, \<open>dateAtTimezoneMidnight\<close>) and
  the variant of the service layer in \<open>internal/service/schedules.go\<close> (\<open>resolveServiceWall\<close>,
  \<open>wallClockService\<close>, \<open>mustLoadLocation\<close>). Both probe the offsets in force around the wall-clock
  reading and keep the instants that show it. The theorems say when these are all the instants that
  show it: when no period of the zone is shorter than 18 hours and no offset exceeds a day.
  The time zone database is the parameter \<open>load\<close>.
\<close>

section \<open>Definitions\<close>

datatype time_error = ParseFailed | UnknownZone | errInvalidTimeFields | errNonexistentLocalTime
  | errAmbiguousLocalTime | FoldNotAllowed

definition probe_deltas :: "duration list" where
  "probe_deltas = [-48 * hour, -24 * hour, -6 * hour, 0, 6 * hour, 24 * hour, 48 * hour]"

definition probe_offsets :: "location \<Rightarrow> time \<Rightarrow> int list" where
  "probe_offsets zone w = remdups (map (\<lambda>delta. zone_offset zone (w + delta)) probe_deltas)"

definition shows_wall :: "location \<Rightarrow> time \<Rightarrow> time \<Rightarrow> bool" where
  "shows_wall zone w candidate \<longleftrightarrow> wall_day (wall zone candidate) = wall_day w
     \<and> wall_clock (wall zone candidate) = wall_clock w"

definition local_candidates :: "location \<Rightarrow> time \<Rightarrow> time list" where
  "local_candidates zone w =
     sort (filter (shows_wall zone w) (map (\<lambda>offset. w - offset * second) (probe_offsets zone w)))"

definition choose_candidate :: "string \<Rightarrow> time list \<Rightarrow> time_error + time" where
  "choose_candidate fld candidates =
     (case candidates of
        [] \<Rightarrow> Inl errNonexistentLocalTime
      | [t] \<Rightarrow> if fld \<noteq> [] then Inl FoldNotAllowed else Inr t
      | t # _ \<Rightarrow> if fld = ''earlier'' then Inr t
                 else if fld = ''later'' then Inr (last candidates)
                 else Inl errAmbiguousLocalTime)"

definition resolveLocalDateTime :: "(string \<Rightarrow> location option) \<Rightarrow> string \<Rightarrow> string \<Rightarrow> string \<Rightarrow> time_error + time" where
  "resolveLocalDateTime load value timezone fld =
     (case parse_local value of
        None \<Rightarrow> Inl ParseFailed
      | Some w \<Rightarrow>
          (case load timezone of
             None \<Rightarrow> Inl UnknownZone
           | Some zone \<Rightarrow> choose_candidate fld (local_candidates zone w)))"

definition dateAtTimezoneMidnight :: "(string \<Rightarrow> location option) \<Rightarrow> string \<Rightarrow> string \<Rightarrow> time_error + time" where
  "dateAtTimezoneMidnight load value timezone =
     (case parse_date value of
        None \<Rightarrow> Inl ParseFailed
      | Some n \<Rightarrow>
          (case load timezone of None \<Rightarrow> Inl UnknownZone | Some zone \<Rightarrow> Inr (midnight zone n)))"

text \<open>\<open>wallClockService(t.In(zone))\<close> is the wall-clock reading itself.\<close>

definition wallClockService :: "location \<Rightarrow> time \<Rightarrow> time" where
  "wallClockService zone t = wall zone t"

definition mustLoadLocation :: "(string \<Rightarrow> location option) \<Rightarrow> string \<Rightarrow> location" where
  "mustLoadLocation load name = (case load name of None \<Rightarrow> utc_loc | Some zone \<Rightarrow> zone)"

text \<open>\<open>None\<close> is any of the errors; the callers replace them all by \<open>ErrInvalidSchedule\<close>.\<close>

definition resolveServiceWall :: "(string \<Rightarrow> location option) \<Rightarrow> time \<Rightarrow> string \<Rightarrow> string \<Rightarrow> time option" where
  "resolveServiceWall load w timezone fld =
     (case load timezone of
        None \<Rightarrow> None
      | Some zone \<Rightarrow>
          (let candidates = map (\<lambda>offset. w - zone_offset zone (w + offset) * second) probe_deltas;
               unique = sort (remdups (filter (\<lambda>c. format_local (wall zone c) = format_local w) candidates))
           in case unique of
                [] \<Rightarrow> None
              | [t] \<Rightarrow> Some t
              | t # _ \<Rightarrow> if fld = ''earlier'' then Some t
                         else if fld = ''later'' then Some (last unique)
                         else None))"

section \<open>Regular zones\<close>

text \<open>
  \<open>zone_regular\<close>: every period between two transitions lasts at least 18 hours and every offset is
  at most a day.
\<close>

fun tx_spaced :: "int \<Rightarrow> (int \<times> int) list \<Rightarrow> bool" where
  "tx_spaced start [] = (start + 64800 \<le> omega)"
| "tx_spaced start ((w, off) # tx) = (start + 64800 \<le> w \<and> \<bar>off\<bar> \<le> 86400 \<and> tx_spaced w tx)"

definition zone_regular :: "location \<Rightarrow> bool" where
  "zone_regular zone \<longleftrightarrow> \<bar>loc_zone0 zone\<bar> \<le> 86400 \<and> tx_spaced alpha (loc_tx zone)"

lemma tx_spaced_ascending: "tx_spaced start tx \<Longrightarrow> tx_ascending start tx"
  by (induction start tx rule: tx_spaced.induct) auto

lemma zone_regular_ok: "zone_regular zone \<Longrightarrow> loc_ok zone"
  by (simp add: zone_regular_def loc_ok_def tx_spaced_ascending)

lemma lookup_tx_spaced:
  assumes "tx_spaced start tx" and "\<bar>off\<bar> \<le> 86400" and "lookup_tx off start tx sec = (off', a, b)"
  shows "\<bar>off'\<bar> \<le> 86400 \<and> a + 64800 \<le> b"
  using assms
proof (induction tx arbitrary: off start)
  case Nil
  then show ?case by simp
next
  case (Cons p tx)
  obtain w o2 where p: "p = (w, o2)" by (cases p)
  show ?case
  proof (cases "sec < w")
    case True
    then show ?thesis using Cons.prems by (auto simp: p)
  next
    case False
    then show ?thesis using Cons.IH[of w o2] Cons.prems by (simp add: p)
  qed
qed

lemma lookup_regular:
  assumes "zone_regular zone" and "loc_lookup zone sec = (off, a, b)"
  shows "\<bar>off\<bar> \<le> 86400" and "a + 64800 \<le> b"
  using assms lookup_tx_spaced[of alpha "loc_tx zone" "loc_zone0 zone" sec off a b]
  by (auto simp: zone_regular_def loc_lookup_def)

text \<open>The instants for which the arithmetic of the library stays in range.\<close>

definition in_range :: "time \<Rightarrow> bool" where
  "in_range w \<longleftrightarrow> alpha + 10 ^ 6 \<le> w div second \<and> w div second \<le> omega - 10 ^ 6"

lemma wall_second: "wall zone t div second = t div second + zone_offset zone t" "wall zone t mod second = t mod second"
  by (simp_all add: wall_def)

lemma div_day_second: "(w::int) div day = w div second div 86400" "w mod day div second = w div second mod 86400"
proof -
  show "w div day = w div second div 86400" using zdiv_zmult2_eq[of 86400 w second] by simp
  have "w mod day = w mod (second * 86400)" by simp
  also have "\<dots> = second * (w div second mod 86400) + w mod second" by (rule zmod_zmult2_eq) simp
  finally have "w mod day div second = (second * (w div second mod 86400) + w mod second) div second" by simp
  then show "w mod day div second = w div second mod 86400" by simp
qed

text \<open>Two readings with the same date and clock are in the same second.\<close>

lemma same_day_clock: "wall_day a = wall_day b \<and> wall_clock a = wall_clock b \<longleftrightarrow> a div second = b div second"
proof
  assume "a div second = b div second"
  then show "wall_day a = wall_day b \<and> wall_clock a = wall_clock b"
    by (simp add: wall_day_def wall_clock_def div_day_second)
next
  assume ab: "wall_day a = wall_day b \<and> wall_clock a = wall_clock b"
  define s where "s = a div second mod 86400"
  define r where "r = b div second mod 86400"
  have "s div 3600 = r div 3600 \<and> s mod 3600 div 60 = r mod 3600 div 60 \<and> s mod 60 = r mod 60"
    using ab by (simp add: wall_clock_def Let_def div_day_second s_def r_def)
  moreover have "x = x div 3600 * 3600 + (x mod 3600 div 60 * 60 + x mod 60)" for x :: int
  proof -
    have "x mod 3600 mod 60 = x mod 60" by (rule mod_mod_cancel) simp
    then show ?thesis using div_mult_mod_eq[of x 3600] div_mult_mod_eq[of "x mod 3600" 60] by linarith
  qed
  ultimately have "s = r" by (metis (no_types))
  moreover have "a div second div 86400 = b div second div 86400"
    using ab by (simp add: wall_day_def div_day_second)
  ultimately show "a div second = b div second"
    unfolding s_def r_def by (metis div_mult_mod_eq)
qed

lemma shows_wall_iff: "shows_wall zone w c \<longleftrightarrow> wall zone c div second = w div second"
  unfolding shows_wall_def by (rule same_day_clock)

section \<open>The candidates are the instants that show the reading\<close>

lemma probe_hits_period:
  fixes a b T W :: int
  assumes "a \<le> T" and "T < b" and "a + 64800 \<le> b" and "\<bar>T - W\<bar> \<le> 86400"
  shows "\<exists>k \<in> {-86400, -21600, 0, 21600, 86400}. a \<le> W + k \<and> W + k < b"
proof (rule ccontr)
  assume "\<not> ?thesis"
  then have "W - 86400 < a \<or> b \<le> W - 86400" "W - 21600 < a \<or> b \<le> W - 21600" "W < a \<or> b \<le> W"
    "W + 21600 < a \<or> b \<le> W + 21600" "W + 86400 < a \<or> b \<le> W + 86400" by auto
  then show False using assms by linarith
qed

lemma in_range_shift: "in_range w \<Longrightarrow> w div second = T + off \<Longrightarrow> \<bar>off\<bar> \<le> 86400 \<Longrightarrow> alpha \<le> T \<and> T < omega"
  unfolding in_range_def by (simp only:) (simp add: abs_le_iff)

lemma probe_finds_offset:
  assumes reg: "zone_regular zone" and rng: "in_range w" and t: "wall zone t = w"
  shows "zone_offset zone t \<in> set (probe_offsets zone w)"
proof -
  obtain off a b where p: "loc_lookup zone (t div second) = (off, a, b)" by (metis prod_cases3)
  have off: "zone_offset zone t = off" by (simp add: zone_offset_def p)
  have W: "w div second = t div second + off" using t off wall_second(1)[of zone t] by simp
  have small: "\<bar>off\<bar> \<le> 86400" and long: "a + 64800 \<le> b" using lookup_regular[OF reg p] by auto
  have T: "alpha \<le> t div second" "t div second < omega"
    using in_range_shift[OF rng W small] by auto
  have near: "\<bar>t div second - w div second\<bar> \<le> 86400" using small unfolding W by (simp add: abs_minus_commute)
  note period = loc_lookup_period[OF zone_regular_ok[OF reg] T p]
  obtain k where k: "k \<in> {-86400, -21600, 0, 21600, 86400}" "a \<le> w div second + k" "w div second + k < b"
    using probe_hits_period[OF period(1,2) long, of "w div second"] near by blast
  have "(w + k * second) div second = w div second + k" by simp
  then have "zone_offset zone (w + k * second) = off"
    using period(3)[OF k(2,3)] by (simp add: zone_offset_def add.commute)
  moreover have "k * second \<in> set probe_deltas" using k(1) by (auto simp: probe_deltas_def)
  ultimately show ?thesis by (force simp: probe_offsets_def off)
qed

lemma candidate_shows: "shows_wall zone w (w - off * second) \<longleftrightarrow> wall zone (w - off * second) = w"
proof -
  have "wall zone (w - off * second) mod second = w mod second"
    by (simp add: wall_second(2) mod_diff_eq[symmetric, of w "off * second"])
  then show ?thesis
    unfolding shows_wall_iff by (metis div_mult_mod_eq)
qed

lemma set_local_candidates:
  assumes "zone_regular zone" and "in_range w"
  shows "set (local_candidates zone w) = {t. wall zone t = w}"
proof (intro set_eqI iffI)
  fix t assume "t \<in> set (local_candidates zone w)"
  then show "t \<in> {t. wall zone t = w}" by (auto simp: local_candidates_def candidate_shows)
next
  fix t assume "t \<in> {t. wall zone t = w}"
  then have t: "wall zone t = w" "t = w - zone_offset zone t * second" by (auto simp: wall_def)
  then have "shows_wall zone w (w - zone_offset zone t * second)" by (simp add: shows_wall_def)
  with t probe_finds_offset[OF assms t(1)] show "t \<in> set (local_candidates zone w)"
    by (auto simp: local_candidates_def image_iff)
qed

lemma sorted_local_candidates: "sorted (local_candidates zone w)" "distinct (local_candidates zone w)"
proof -
  have "distinct (map (\<lambda>offset. w - offset * second) (probe_offsets zone w))"
    by (auto simp: distinct_map probe_offsets_def inj_on_def)
  then show "distinct (local_candidates zone w)" by (simp add: local_candidates_def)
qed (simp add: local_candidates_def)

lemma sorted_le_last: "sorted xs \<Longrightarrow> x \<in> set xs \<Longrightarrow> x \<le> last xs"
  by (induction xs) auto

lemma choose_candidate_cases:
  assumes "sorted c" and "distinct c"
  shows "choose_candidate fld c = Inl errNonexistentLocalTime \<longleftrightarrow> set c = {}"
    and "choose_candidate fld c = Inr t \<longleftrightarrow> t \<in> set c \<and>
       (fld = [] \<and> (\<forall>x \<in> set c. x = t) \<or> fld = ''earlier'' \<and> (\<exists>x \<in> set c. t < x) \<and> (\<forall>x \<in> set c. t \<le> x)
        \<or> fld = ''later'' \<and> (\<exists>x \<in> set c. x < t) \<and> (\<forall>x \<in> set c. x \<le> t))"
    and "choose_candidate fld c = Inl errAmbiguousLocalTime \<longleftrightarrow>
       (\<exists>x \<in> set c. \<exists>y \<in> set c. x \<noteq> y) \<and> fld \<noteq> ''earlier'' \<and> fld \<noteq> ''later''"
proof -
  consider "c = []" | x where "c = [x]" | x y ys where "c = x # y # ys" by (metis list.exhaust)
  then have "(choose_candidate fld c = Inl errNonexistentLocalTime \<longleftrightarrow> set c = {})
    \<and> (choose_candidate fld c = Inr t \<longleftrightarrow> t \<in> set c \<and>
       (fld = [] \<and> (\<forall>x \<in> set c. x = t) \<or> fld = ''earlier'' \<and> (\<exists>x \<in> set c. t < x) \<and> (\<forall>x \<in> set c. t \<le> x)
        \<or> fld = ''later'' \<and> (\<exists>x \<in> set c. x < t) \<and> (\<forall>x \<in> set c. x \<le> t)))
    \<and> (choose_candidate fld c = Inl errAmbiguousLocalTime \<longleftrightarrow>
       (\<exists>x \<in> set c. \<exists>y \<in> set c. x \<noteq> y) \<and> fld \<noteq> ''earlier'' \<and> fld \<noteq> ''later'')"
  proof cases
    case (3 x y ys)
    have first: "\<forall>z \<in> set c. x \<le> z" "x < y" using assms 3 by auto
    have lst: "last c \<in> set c" "\<forall>z \<in> set c. z \<le> last c" "x < last c"
    proof -
      show "last c \<in> set c" using 3 by simp
      show *: "\<forall>z \<in> set c. z \<le> last c"
        using assms(1) by (auto intro: sorted_le_last)
      show "x < last c" using first(2) * 3 by force
    qed
    have two: "\<not> (\<forall>z \<in> set c. z = t)" "\<exists>z \<in> set c. x < z" "\<exists>z \<in> set c. z < last c" "\<exists>z \<in> set c. \<exists>y \<in> set c. z \<noteq> y"
      using first lst 3 by auto
    have le: "t \<in> set c \<and> (\<exists>z \<in> set c. t < z) \<and> (\<forall>z \<in> set c. t \<le> z) \<longleftrightarrow> x = t"
      using first two(2) 3 by (metis list.set_intros(1) order_antisym)
    have ge: "t \<in> set c \<and> (\<exists>z \<in> set c. z < t) \<and> (\<forall>z \<in> set c. z \<le> t) \<longleftrightarrow> last c = t"
      using lst two(3) by (metis order_antisym)
    have c: "choose_candidate fld c = (if fld = ''earlier'' then Inr x else if fld = ''later'' then Inr (last c)
                 else Inl errAmbiguousLocalTime)" using 3 by (simp add: choose_candidate_def)
    show ?thesis unfolding c using le ge two lst(1) by auto
  qed (auto simp: choose_candidate_def)
  then show "choose_candidate fld c = Inl errNonexistentLocalTime \<longleftrightarrow> set c = {}"
    and "choose_candidate fld c = Inr t \<longleftrightarrow> t \<in> set c \<and>
       (fld = [] \<and> (\<forall>x \<in> set c. x = t) \<or> fld = ''earlier'' \<and> (\<exists>x \<in> set c. t < x) \<and> (\<forall>x \<in> set c. t \<le> x)
        \<or> fld = ''later'' \<and> (\<exists>x \<in> set c. x < t) \<and> (\<forall>x \<in> set c. x \<le> t))"
    and "choose_candidate fld c = Inl errAmbiguousLocalTime \<longleftrightarrow>
       (\<exists>x \<in> set c. \<exists>y \<in> set c. x \<noteq> y) \<and> fld \<noteq> ''earlier'' \<and> fld \<noteq> ''later''"
    by blast+
qed

section \<open>Parsed readings are in range\<close>

lemma year_days_range: "0 \<le> y \<Longrightarrow> y \<le> 9999 \<Longrightarrow> - 10 \<le> year_days y \<and> year_days y \<le> 4000000"
  using year_days_bounds[of y] by linarith

lemma in_years_range:
  assumes "in_years n"
  shows "- 800000 \<le> n \<and> n \<le> 4000000"
proof -
  obtain y m d where c: "civil_from_days n = (y, m, d)" by (metis prod_cases3)
  have y: "0 \<le> y" "y \<le> 9999" using assms by (simp_all add: in_years_def c)
  have v: "valid_date y m d" "days_from_civil y m d = n" using civil_from_days_valid[OF c] by auto
  define mp where "mp = (m + 9) mod 12"
  define y' where "y' = (if m \<le> 2 then y - 1 else y)"
  have "0 \<le> mp" "mp < 12" by (simp_all add: mp_def)
  then have mp: "0 \<le> (153 * mp + 2) div 5" "(153 * mp + 2) div 5 \<le> 400" by linarith+
  have y': "- 500 \<le> year_days y'" "year_days y' \<le> 4000000"
    using y year_days_bounds[of y'] unfolding y'_def by (auto split: if_splits)
  have "n = year_days y' + (153 * mp + 2) div 5 + d - 1 - 719468"
    using v(2) by (simp add: days_from_civil_def Let_def mp_def y'_def)
  moreover have "1 \<le> d" "d \<le> 31" using valid_date_range[OF v(1)] by auto
  ultimately show ?thesis using mp y' by linarith
qed

lemma Some_eq_map_option: "Some y = map_option f x \<longleftrightarrow> (\<exists>z. x = Some z \<and> f z = y)"
  by (cases x) auto

lemma parse_clock_range:
  assumes "parse_clock s = Some (h, mi, sc)"
  shows "0 \<le> h \<and> h < 24 \<and> 0 \<le> mi \<and> mi < 60 \<and> 0 \<le> sc \<and> sc < 60"
proof -
  have ms: "0 \<le> a \<and> a < 60 \<and> 0 \<le> b \<and> b < 60" if "parse_minsec r = Some (a, b)" for r a b
    using that by (auto elim!: parse_minsec.elims split: if_splits simp: num2_def is_digit_def digit_val_def)
  show ?thesis using assms
    by (auto elim!: parse_clock.elims split: if_splits dest!: ms simp: Some_eq_map_option num2_def is_digit_def digit_val_def)
qed

lemma parse_local_range:
  assumes "parse_local s = Some w"
  shows "in_range w \<and> w mod second = 0"
proof -
  from assms obtain ds rest n h mi sc where n: "parse_date ds = Some n" and c: "parse_clock rest = Some (h, mi, sc)"
    and w: "w = n * day + h * hour + mi * minute + sc * second"
    by (auto elim!: parse_local.elims split: if_splits option.splits simp: Some_eq_map_option simp del: parse_date.simps)
  have ws: "w = (n * 86400 + h * 3600 + mi * 60 + sc) * second" by (simp add: w)
  have "w div second = n * 86400 + h * 3600 + mi * 60 + sc" "w mod second = 0" unfolding ws by simp_all
  moreover have "- 800000 \<le> n \<and> n \<le> 4000000" using in_years_range parse_date_Some[OF n] by auto
  ultimately show ?thesis using parse_clock_range[OF c] by (auto simp: in_range_def alpha_def omega_def)
qed

section \<open>The resolvers\<close>

lemma resolveLocalDateTime_eq:
  "parse_local value = Some w \<Longrightarrow> load timezone = Some zone \<Longrightarrow>
     resolveLocalDateTime load value timezone fld = choose_candidate fld (local_candidates zone w)"
  by (simp add: resolveLocalDateTime_def)

text \<open>
  C28: In a zone whose periods last at least 18 hours, \<open>resolveLocalDateTime\<close> reports a nonexistent
  local time exactly when no instant shows the reading; it returns an instant exactly when that
  instant shows the reading and is the only one (no fold given), the first one (\<open>earlier\<close>) or the
  last one (\<open>later\<close>) of several; and it reports an ambiguous local time exactly when several
  instants show the reading and the fold is neither.\<close>

theorem resolveLocalDateTime_spec:
  assumes "parse_local value = Some w" and "load timezone = Some zone" and "zone_regular zone"
  shows "(resolveLocalDateTime load value timezone fld = Inl errNonexistentLocalTime \<longleftrightarrow> \<not> (\<exists>x. wall zone x = w))
    \<and> (resolveLocalDateTime load value timezone fld = Inr t \<longleftrightarrow> wall zone t = w \<and>
         (fld = [] \<and> (\<forall>x. wall zone x = w \<longrightarrow> x = t)
          \<or> fld = ''earlier'' \<and> (\<exists>x. wall zone x = w \<and> t < x) \<and> (\<forall>x. wall zone x = w \<longrightarrow> t \<le> x)
          \<or> fld = ''later'' \<and> (\<exists>x. wall zone x = w \<and> x < t) \<and> (\<forall>x. wall zone x = w \<longrightarrow> x \<le> t)))
    \<and> (resolveLocalDateTime load value timezone fld = Inl errAmbiguousLocalTime \<longleftrightarrow>
         (\<exists>x y. wall zone x = w \<and> wall zone y = w \<and> x \<noteq> y) \<and> fld \<noteq> ''earlier'' \<and> fld \<noteq> ''later'')"
proof -
  have rng: "in_range w" using parse_local_range[OF assms(1)] by simp
  show ?thesis
    unfolding resolveLocalDateTime_eq[of "value" w load timezone zone, OF assms(1,2)]
    using choose_candidate_cases(1)[OF sorted_local_candidates, of fld zone w]
      choose_candidate_cases(2)[OF sorted_local_candidates, of fld zone w t]
      choose_candidate_cases(3)[OF sorted_local_candidates, of fld zone w]
    unfolding set_local_candidates[OF assms(3) rng] by auto
qed

text \<open>The last Sunday of October 2026 in Berlin: 02:30 is shown twice.\<close>

definition berlin :: location where
  "berlin = \<lparr>loc_zone0 = 7200, loc_tx = [(1792890000, 3600)]\<rparr>"

lemma resolveLocalDateTime_spec_witness:
  "(resolveLocalDateTime (\<lambda>_. Some berlin) ''2026-10-25T02:30:00'' ''Europe/Berlin'' ''earlier'' = Inr 1792888200000000000 \<longleftrightarrow>
      wall berlin 1792888200000000000 = 1792895400000000000
      \<and> (\<exists>x. wall berlin x = 1792895400000000000 \<and> 1792888200000000000 < x)
      \<and> (\<forall>x. wall berlin x = 1792895400000000000 \<longrightarrow> 1792888200000000000 \<le> x))
    \<and> resolveLocalDateTime (\<lambda>_. Some berlin) ''2026-10-25T02:30:00'' ''Europe/Berlin'' ''earlier'' = Inr 1792888200000000000"
proof -
  have p: "parse_local ''2026-10-25T02:30:00'' = Some 1792895400000000000" by code_simp
  have r: "zone_regular berlin" by code_simp
  have e: "resolveLocalDateTime (\<lambda>_. Some berlin) ''2026-10-25T02:30:00'' ''Europe/Berlin'' ''earlier'' = Inr 1792888200000000000"
    by code_simp
  show ?thesis
    using resolveLocalDateTime_spec[of _ _ "\<lambda>_. Some berlin" "''Europe/Berlin''", OF p refl r, of "''earlier''" 1792888200000000000] e
    by simp
qed

lemma service_candidates:
  "sort (remdups (filter (\<lambda>c. format_local (wall zone c) = format_local w)
     (map (\<lambda>offset. w - zone_offset zone (w + offset) * second) probe_deltas))) = local_candidates zone w"
proof (rule sorted_distinct_set_unique)
  show "set (sort (remdups (filter (\<lambda>c. format_local (wall zone c) = format_local w)
     (map (\<lambda>offset. w - zone_offset zone (w + offset) * second) probe_deltas)))) = set (local_candidates zone w)"
    by (auto simp: local_candidates_def probe_offsets_def shows_wall_def format_local_inj)
qed (simp_all add: sorted_local_candidates)

text \<open>
  C29: The resolver of the service layer agrees with the one of the HTTP layer on every reading
  of whole seconds: it returns what \<open>resolveLocalDateTime\<close> returns for the formatted reading,
  except that it ignores a fold given for an unambiguous reading.\<close>

theorem resolveServiceWall_agrees:
  assumes "in_years (wall_day w)" and "w mod second = 0"
  shows "resolveServiceWall load w timezone fld =
    (case resolveLocalDateTime load (format_local w) timezone fld of
       Inr t \<Rightarrow> Some t
     | Inl e \<Rightarrow> if e = FoldNotAllowed
               then (case resolveLocalDateTime load (format_local w) timezone [] of Inl _ \<Rightarrow> None | Inr t \<Rightarrow> Some t)
               else None)"
proof -
  have p: "parse_local (format_local w) = Some w" using parse_format_local[OF assms(1)] assms(2) by simp
  have choose: "(case c of [] \<Rightarrow> None | [t] \<Rightarrow> Some t
      | t # _ \<Rightarrow> if fld = ''earlier'' then Some t else if fld = ''later'' then Some (last c) else None) =
    (case choose_candidate fld c of Inr t \<Rightarrow> Some t
     | Inl e \<Rightarrow> if e = FoldNotAllowed then (case choose_candidate [] c of Inl _ \<Rightarrow> None | Inr t \<Rightarrow> Some t) else None)"
    for c :: "time list"
    by (auto simp: choose_candidate_def split: list.split)
  show ?thesis
  proof (cases "load timezone")
    case None
    then show ?thesis by (simp add: resolveServiceWall_def resolveLocalDateTime_def p)
  next
    case (Some zone)
    then show ?thesis
      unfolding resolveLocalDateTime_eq[of _ w load timezone zone, OF p Some]
      unfolding resolveServiceWall_def Some option.case Let_def service_candidates choose by simp
  qed
qed

lemma resolveServiceWall_agrees_witness:
  "resolveServiceWall (\<lambda>_. Some berlin) 1792895400000000000 ''Europe/Berlin'' ''later'' = Some 1792891800000000000"
proof -
  have "in_years (wall_day 1792895400000000000)" "(1792895400000000000::int) mod second = 0" by code_simp+
  note eq = resolveServiceWall_agrees[OF this, of "\<lambda>_. Some berlin" "''Europe/Berlin''" "''later''"]
  have "resolveLocalDateTime (\<lambda>_. Some berlin) (format_local 1792895400000000000) ''Europe/Berlin'' ''later'' = Inr 1792891800000000000"
    by code_simp
  then show ?thesis unfolding eq by simp
qed

end
