(* ===== verification/Recurrence.thy ===== *)
theory Recurrence
  imports Types LocalTime
begin

text \<open>
  Expanding a recurrence rule (\<open>internal/api/recurrence.go\<close>: \<open>generateOccurrences\<close>,
  \<open>recurrenceMatches\<close>, \<open>dayDelta\<close>, \<open>monthDelta\<close>, \<open>wallClock\<close>, \<open>resolveRecurringLocal\<close>). The candidates
  are midnights in the zone of the series, found day by day or month by month within a year of the
  start; each becomes an occurrence with the wall-clock times of the first one. The main theorem says
  that the occurrences fall on exactly the dates a declarative reading of the rule gives.
\<close>

section \<open>Definitions\<close>

record recurrenceOccurrence =
  ro_Index :: int
  ro_StartAt :: time
  ro_EndAt :: "time option"
  ro_AllDay :: bool
  ro_StartDate :: "string option"
  ro_EndDate :: "string option"
  ro_LocalStart :: time

record recurrenceSkipped =
  rs_LocalDate :: string
  rs_Reason :: string

datatype recurrence_error = RecurrenceError string | OccurrenceError string string time_error

definition require :: "bool \<Rightarrow> string \<Rightarrow> recurrence_error + 'a \<Rightarrow> recurrence_error + 'a" where
  "require b message rest = (if b then rest else Inl (RecurrenceError message))"

text \<open>Go's remainder has the sign of the dividend.\<close>

definition go_rem :: "int \<Rightarrow> int \<Rightarrow> int" where
  "go_rem a b = a - b * trunc_div a b"

definition civil_in :: "location \<Rightarrow> time \<Rightarrow> int \<times> int \<times> int" where
  "civil_in zone t = civil_from_days (date_in zone t)"

definition dayDelta :: "location \<Rightarrow> time \<Rightarrow> time \<Rightarrow> int" where
  "dayDelta zone a b = trunc_div (time_sub (date_in zone b * day) (date_in zone a * day)) day"

definition monthDelta :: "location \<Rightarrow> time \<Rightarrow> time \<Rightarrow> int" where
  "monthDelta zone a b = (case (civil_in zone a, civil_in zone b) of
     ((ya, ma, _), (yb, mb, _)) \<Rightarrow> (yb - ya) * 12 + (mb - ma))"

definition wallClock :: "location \<Rightarrow> time \<Rightarrow> time" where
  "wallClock zone t = wall zone t"

definition week_start :: "location \<Rightarrow> time \<Rightarrow> time" where
  "week_start zone t = add_date zone t 0 0 (- ((weekday (date_in zone t) + 6) mod 7))"

definition recurrenceMatches :: "location \<Rightarrow> time \<Rightarrow> time \<Rightarrow> RecurrenceRule \<Rightarrow> int list \<Rightarrow> bool" where
  "recurrenceMatches zone anchor candidate rule weekdays =
     (if rr_Frequency rule = ''DAILY'' then go_rem (dayDelta zone anchor candidate) (rr_Interval rule) = 0
      else if rr_Frequency rule = ''WEEKLY''
      then go_rem (trunc_div (dayDelta zone (week_start zone anchor) (week_start zone candidate)) 7) (rr_Interval rule) = 0
         \<and> weekday (date_in zone candidate) \<in> set weekdays
      else if rr_Frequency rule = ''MONTHLY'' then go_rem (monthDelta zone anchor candidate) (rr_Interval rule) = 0
      else False)"

definition resolveRecurringLocal :: "(string \<Rightarrow> location option) \<Rightarrow> string \<Rightarrow> string \<Rightarrow> string \<Rightarrow> time_error + time" where
  "resolveRecurringLocal load val timezone fld =
     (case resolveLocalDateTime load val timezone [] of
        Inl er \<Rightarrow> if er = errAmbiguousLocalTime then resolveLocalDateTime load val timezone fld else Inl er
      | Inr t \<Rightarrow> Inr t)"

definition weekday_code :: "string \<Rightarrow> int option" where
  "weekday_code code = map_of [(''SU'', 0), (''MO'', 1), (''TU'', 2), (''WE'', 3), (''TH'', 4), (''FR'', 5), (''SA'', 6)] code"

fun weekday_set :: "string list \<Rightarrow> int list \<Rightarrow> int list option" where
  "weekday_set [] seen = Some seen"
| "weekday_set (w # ws) seen =
     (case weekday_code w of
        None \<Rightarrow> None
      | Some v \<Rightarrow> if v \<in> set seen then None else weekday_set ws (seen @ [v]))"

text \<open>The checks before the first use of the zone.\<close>

definition rule_weekdays :: "location \<Rightarrow> time \<Rightarrow> RecurrenceRule \<Rightarrow> recurrence_error + int list" where
  "rule_weekdays zone startAt rule =
     require ((rr_Frequency rule = ''DAILY'' \<or> rr_Frequency rule = ''WEEKLY'' \<or> rr_Frequency rule = ''MONTHLY'')
         \<and> 1 \<le> rr_Interval rule \<and> rr_Interval rule \<le> 30) ''frequency or interval is invalid''
     (require ((rr_Count rule = None) \<noteq> (rr_Until rule = None)) ''exactly one of count or until is required''
     (require (case rr_Count rule of None \<Rightarrow> True | Some c \<Rightarrow> 1 \<le> c \<and> c \<le> 100) ''count must be between 1 and 100''
     (require (length (rr_Exdates rule) \<le> 100) ''exdates must contain at most 100 dates''
     (case weekday_set (rr_Weekdays rule) [] of
        None \<Rightarrow> Inl (RecurrenceError ''weekdays must be unique MO..SU codes'')
      | Some weekdays \<Rightarrow>
          require (rr_Frequency rule = ''WEEKLY'' \<or> weekdays = []) ''weekdays are only valid for weekly recurrence''
          (Inr (if rr_Frequency rule = ''WEEKLY'' \<and> weekdays = [] then [weekday (date_in zone startAt)] else weekdays))))))"

definition anchor_date :: "location \<Rightarrow> time \<Rightarrow> bool \<Rightarrow> string option \<Rightarrow> string option \<Rightarrow> recurrence_error + time" where
  "anchor_date zone startAt allDay startDate endDate =
     (if allDay
      then case (startDate, endDate) of
          (Some s, Some _) \<Rightarrow>
            (case parse_date s of
               None \<Rightarrow> Inl (RecurrenceError ''invalid start_date'')
             | Some n \<Rightarrow> Inr (midnight zone (date_in zone (midnight zone n))))
        | _ \<Rightarrow> Inl (RecurrenceError ''all-day recurrence requires start_date and end_date'')
      else Inr (midnight zone (date_in zone startAt)))"

definition until_date :: "location \<Rightarrow> RecurrenceRule \<Rightarrow> time \<Rightarrow> recurrence_error + time option" where
  "until_date zone rule anchor = (case rr_Until rule of
     None \<Rightarrow> Inr None
   | Some s \<Rightarrow>
       (case parse_date s of
          None \<Rightarrow> Inl (RecurrenceError ''until must be an ISO local date'')
        | Some n \<Rightarrow>
            require (\<not> (midnight zone n < anchor \<or> add_date zone anchor 1 0 0 < midnight zone n))
              ''until must be within one year of the series start'' (Inr (Some (midnight zone n)))))"

definition exdates_ok :: "string list \<Rightarrow> bool" where
  "exdates_ok exdates = list_all (\<lambda>v. case parse_date v of None \<Rightarrow> False | Some n \<Rightarrow> format_date n = v) exdates"

definition all_day_span :: "string option \<Rightarrow> string option \<Rightarrow> recurrence_error + int" where
  "all_day_span startDate endDate = (case (startDate, endDate) of
     (Some s, Some e) \<Rightarrow>
       (case (parse_date s, parse_date e) of
          (Some a, Some b) \<Rightarrow>
            require (a < b \<and> time_sub (b * day) (a * day) \<le> 366 * 24 * hour) ''invalid all-day date range''
              (Inr (trunc_div (time_sub (b * day) (a * day)) day))
        | _ \<Rightarrow> Inl (RecurrenceError ''invalid all-day date range''))
   | _ \<Rightarrow> Inl (RecurrenceError ''invalid all-day date range''))"

definition past :: "time option \<Rightarrow> time \<Rightarrow> bool" where
  "past until t = (case until of None \<Rightarrow> False | Some u \<Rightarrow> u < t)"

definition day_candidates :: "location \<Rightarrow> time \<Rightarrow> time option \<Rightarrow> RecurrenceRule \<Rightarrow> int list \<Rightarrow> time list" where
  "day_candidates zone anchor until rule weekdays =
     filter (\<lambda>c. recurrenceMatches zone anchor c rule weekdays)
       (takeWhile (\<lambda>c. \<not> (add_date zone anchor 1 0 0 < c \<or> past until c))
         (map (\<lambda>offset. add_date zone anchor 0 0 offset) [0..366]))"

definition month_start :: "location \<Rightarrow> time \<Rightarrow> int \<Rightarrow> time" where
  "month_start zone anchor offset = (case civil_in zone anchor of (y, m, _) \<Rightarrow> time_date y (m + offset) 1 0 0 0 0 zone)"

definition month_starts :: "location \<Rightarrow> time \<Rightarrow> time option \<Rightarrow> int \<Rightarrow> time list" where
  "month_starts zone anchor until interval =
     takeWhile (\<lambda>monthStart. \<not> (add_date zone anchor 1 0 0 < monthStart \<or> past until monthStart))
       (map (month_start zone anchor) (filter (\<lambda>offset. offset mod interval = 0) [0..12]))"

definition last_day :: "location \<Rightarrow> time \<Rightarrow> int" where
  "last_day zone monthStart = (case civil_in zone monthStart of (y, m, _) \<Rightarrow>
     (case civil_in zone (time_date y (m + 1) 0 0 0 0 0 zone) of (_, _, d) \<Rightarrow> d))"

definition month_skipped :: "location \<Rightarrow> time \<Rightarrow> time \<Rightarrow> recurrenceSkipped list" where
  "month_skipped zone anchor monthStart = (case (civil_in zone anchor, civil_in zone monthStart) of
     ((_, _, d), (y, m, _)) \<Rightarrow>
       if last_day zone monthStart < d
       then [\<lparr>rs_LocalDate = format_date (date_in zone (time_date y m (last_day zone monthStart) 0 0 0 0 zone)),
              rs_Reason = ''day_of_month_missing''\<rparr>]
       else [])"

definition month_candidates :: "location \<Rightarrow> time \<Rightarrow> time option \<Rightarrow> time \<Rightarrow> time list" where
  "month_candidates zone anchor until monthStart = (case (civil_in zone anchor, civil_in zone monthStart) of
     ((_, _, d), (y, m, _)) \<Rightarrow>
       if last_day zone monthStart < d then []
       else let candidate = time_date y m d 0 0 0 0 zone
            in if \<not> candidate < anchor \<and> \<not> past until candidate then [candidate] else [])"

definition all_candidates :: "location \<Rightarrow> time \<Rightarrow> time option \<Rightarrow> RecurrenceRule \<Rightarrow> int list \<Rightarrow> time list \<times> recurrenceSkipped list" where
  "all_candidates zone anchor until rule weekdays =
     (if rr_Frequency rule = ''MONTHLY''
      then let starts = month_starts zone anchor until (rr_Interval rule)
           in (concat (map (month_candidates zone anchor until) starts), concat (map (month_skipped zone anchor) starts))
      else (day_candidates zone anchor until rule weekdays, []))"

definition all_day_occurrence :: "(string \<Rightarrow> location option) \<Rightarrow> string \<Rightarrow> location \<Rightarrow> int \<Rightarrow> nat \<Rightarrow> time \<Rightarrow> recurrence_error + recurrenceOccurrence" where
  "all_day_occurrence load timezone zone span index candidate =
     (let startValue = format_date (date_in zone candidate);
          endDateValue = format_date (date_in zone (add_date zone candidate 0 0 span))
      in case (dateAtTimezoneMidnight load startValue timezone, dateAtTimezoneMidnight load endDateValue timezone) of
           (Inr startInstant, Inr endInstant) \<Rightarrow>
             Inr \<lparr>ro_Index = int index, ro_StartAt = startInstant, ro_EndAt = Some endInstant, ro_AllDay = True,
                  ro_StartDate = Some startValue, ro_EndDate = Some endDateValue, ro_LocalStart = wallClock zone candidate\<rparr>
         | _ \<Rightarrow> Inl (RecurrenceError ''invalid all-day occurrence boundary''))"

definition timed_occurrence :: "(string \<Rightarrow> location option) \<Rightarrow> string \<Rightarrow> location \<Rightarrow> int \<times> int \<times> int \<Rightarrow> duration option \<Rightarrow> string \<Rightarrow> string
    \<Rightarrow> nat \<Rightarrow> time \<Rightarrow> recurrence_error + recurrenceOccurrence" where
  "timed_occurrence load timezone zone clock wallDuration startFold endFold index candidate =
     (let date = format_date (date_in zone candidate);
          (h, mi, s) = clock
      in case resolveRecurringLocal load (date @ ''T'' @ format_clock h mi s) timezone startFold of
           Inl er \<Rightarrow> Inl (OccurrenceError date ''start'' er)
         | Inr resolvedStart \<Rightarrow>
             (let localStartWall = wallClock zone candidate + (h * hour + mi * minute + s * second);
                  occ = \<lparr>ro_Index = int index, ro_StartAt = resolvedStart, ro_EndAt = None, ro_AllDay = False,
                    ro_StartDate = None, ro_EndDate = None, ro_LocalStart = localStartWall\<rparr>
              in case wallDuration of
                   None \<Rightarrow> Inr occ
                 | Some d \<Rightarrow>
                     (case resolveRecurringLocal load (format_local (localStartWall + d)) timezone endFold of
                        Inl er \<Rightarrow> Inl (OccurrenceError date ''end'' er)
                      | Inr resolvedEnd \<Rightarrow>
                          require (resolvedStart < resolvedEnd) ''recurrence end must follow start''
                            (Inr (occ\<lparr>ro_EndAt := Some resolvedEnd\<rparr>)))))"

text \<open>The loop over the candidates; it stops when the count is reached.\<close>

fun materialize :: "(nat \<Rightarrow> time \<Rightarrow> recurrence_error + recurrenceOccurrence) \<Rightarrow> (time \<Rightarrow> bool) \<Rightarrow> int option
    \<Rightarrow> time list \<Rightarrow> recurrenceOccurrence list \<Rightarrow> recurrence_error + recurrenceOccurrence list" where
  "materialize build excluded count [] occurrences = Inr occurrences"
| "materialize build excluded count (c # cs) occurrences =
     (if excluded c then materialize build excluded count cs occurrences
      else case build (length occurrences) c of
          Inl er \<Rightarrow> Inl er
        | Inr occ \<Rightarrow>
            if (case count of None \<Rightarrow> False | Some n \<Rightarrow> n \<le> int (length (occurrences @ [occ])))
            then Inr (occurrences @ [occ])
            else materialize build excluded count cs (occurrences @ [occ]))"

definition report_skipped :: "bool \<Rightarrow> recurrenceOccurrence list \<Rightarrow> recurrenceSkipped list \<Rightarrow> recurrenceSkipped list" where
  "report_skipped allDay occurrences skipped =
     (let final = last occurrences;
          lastDate = (if allDay then case ro_StartDate final of Some d \<Rightarrow> d | None \<Rightarrow> format_date (wall_day (ro_LocalStart final))
            else format_date (wall_day (ro_LocalStart final)))
      in sort_by (\<lambda>a b. str_le (rs_LocalDate a) (rs_LocalDate b)) (filter (\<lambda>item. str_le (rs_LocalDate item) lastDate) skipped))"

definition expand :: "(nat \<Rightarrow> time \<Rightarrow> recurrence_error + recurrenceOccurrence) \<Rightarrow> location \<Rightarrow> bool \<Rightarrow> RecurrenceRule
    \<Rightarrow> time list \<times> recurrenceSkipped list \<Rightarrow> recurrence_error + recurrenceOccurrence list \<times> recurrenceSkipped list" where
  "expand build zone allDay rule cs =
     (case materialize build (\<lambda>c. format_date (date_in zone c) \<in> set (rr_Exdates rule)) (rr_Count rule) (fst cs) [] of
        Inl er \<Rightarrow> Inl er
      | Inr occurrences \<Rightarrow>
          require (occurrences \<noteq> [] \<and> length occurrences \<le> 100)
            ''recurrence must produce between 1 and 100 occurrences; set count or shorten until''
            (Inr (occurrences, report_skipped allDay occurrences (snd cs))))"

definition generateOccurrences :: "(string \<Rightarrow> location option) \<Rightarrow> time \<Rightarrow> time option \<Rightarrow> bool \<Rightarrow> string option \<Rightarrow> string option \<Rightarrow> string
    \<Rightarrow> RecurrenceRule \<Rightarrow> string \<Rightarrow> string \<Rightarrow> recurrence_error + recurrenceOccurrence list \<times> recurrenceSkipped list" where
  "generateOccurrences load startAt endAt allDay startDate endDate timezone rule startFold endFold =
     (case load timezone of
        None \<Rightarrow> Inl (RecurrenceError ''timezone must be an IANA timezone'')
      | Some zone \<Rightarrow>
     (case rule_weekdays zone startAt rule of
        Inl er \<Rightarrow> Inl er
      | Inr weekdays \<Rightarrow>
     (case anchor_date zone startAt allDay startDate endDate of
        Inl er \<Rightarrow> Inl er
      | Inr anchor \<Rightarrow>
     (case until_date zone rule anchor of
        Inl er \<Rightarrow> Inl er
      | Inr until \<Rightarrow>
     require (exdates_ok (rr_Exdates rule)) ''exdates must be ISO local dates''
     (case (if allDay then all_day_span startDate endDate else Inr 0) of
        Inl er \<Rightarrow> Inl er
      | Inr span \<Rightarrow>
     (let wallDuration = map_option (\<lambda>t. time_sub (wallClock zone t) (wallClock zone startAt)) endAt
      in require (case wallDuration of None \<Rightarrow> True | Some d \<Rightarrow> \<not> d < millisecond) ''end_at must follow start_at in local time''
     (expand (if allDay then all_day_occurrence load timezone zone span
              else timed_occurrence load timezone zone (wall_clock (wall zone startAt)) wallDuration startFold endFold)
        zone allDay rule (all_candidates zone anchor until rule weekdays))))))))"

section \<open>Months\<close>

text \<open>Months are counted from month 0, January of year 0; \<open>month_first\<close> is the first day of a month.\<close>

definition month_index :: "int \<Rightarrow> int" where
  "month_index n = (case civil_from_days n of (y, m, _) \<Rightarrow> 12 * y + (m - 1))"

definition month_day :: "int \<Rightarrow> int" where
  "month_day n = (case civil_from_days n of (_, _, d) \<Rightarrow> d)"

definition month_first :: "int \<Rightarrow> int" where
  "month_first i = days_from_civil (i div 12) (i mod 12 + 1) 1"

definition month_length :: "int \<Rightarrow> int" where
  "month_length i = days_in (i div 12) (i mod 12 + 1)"

lemma month_split:
  fixes y m :: int
  assumes "1 \<le> m" and "m \<le> 12"
  shows "(12 * y + (m - 1)) div 12 = y" and "(12 * y + (m - 1)) mod 12 = m - 1"
  using assms by (simp_all add: div_pos_pos_trivial mod_pos_pos_trivial)

lemma days_in_bounds: "28 \<le> days_in y m" "days_in y m \<le> 31"
  by (auto simp: days_in_def)

lemma next_month:
  assumes "1 \<le> m" and "m \<le> 12"
  shows "days_from_civil y m 1 + days_in y m = (if m = 12 then days_from_civil (y + 1) 1 1 else days_from_civil y (m + 1) 1)"
proof -
  have leap: "year_days y = year_days (y - 1) + (if leap y then 366 else 365)" using year_days_Suc[of "y - 1"] by simp
  show ?thesis
    using months_cases[OF assms] leap by (elim disjE) (simp_all add: days_from_civil_def days_in_def Let_def)
qed

lemma month_length_bounds: "28 \<le> month_length i" "1 \<le> month_length i" "month_length i \<le> 31"
  using days_in_bounds[of "i div 12" "i mod 12 + 1"] by (simp_all add: month_length_def)

lemma month_first_Suc: "month_first (i + 1) = month_first i + month_length i"
proof -
  define y m where "y = i div 12" and "m = i mod 12 + 1"
  have m: "1 \<le> m" "m \<le> 12" by (simp_all add: m_def)
  have i: "i = 12 * y + (m - 1)" by (simp add: y_def m_def)
  have "i + 1 = (if m = 12 then 12 * (y + 1) + (1 - 1) else 12 * y + ((m + 1) - 1))" by (simp add: i)
  then have "month_first (i + 1) = (if m = 12 then days_from_civil (y + 1) 1 1 else days_from_civil y (m + 1) 1)"
    using m month_split[of 1 "y + 1"] month_split[of "m + 1" y] unfolding month_first_def by (auto split: if_splits)
  with next_month[OF m, of y] show ?thesis unfolding month_first_def month_length_def y_def m_def by simp
qed

lemma month_first_mono: "i < j \<Longrightarrow> month_first i + month_length i \<le> month_first j"
proof (induction j rule: int_gr_induct)
  case base
  show ?case by (simp add: month_first_Suc)
next
  case (step j)
  then show ?case using month_length_bounds(1)[of j] by (simp add: month_first_Suc)
qed

lemma month_day_range: "1 \<le> month_day n" "month_day n \<le> month_length (month_index n)"
  and month_day_sum: "n = month_first (month_index n) + month_day n - 1"
proof -
  obtain y m d where c: "civil_from_days n = (y, m, d)" by (metis prod_cases3)
  have v: "valid_date y m d" "days_from_civil y m d = n" using civil_from_days_valid[OF c] by auto
  then have m: "1 \<le> m" "m \<le> 12" by (auto simp: valid_date_def)
  have i: "month_index n = 12 * y + (m - 1)" "month_day n = d" by (simp_all add: month_index_def month_day_def c)
  show "1 \<le> month_day n" "month_day n \<le> month_length (month_index n)"
    using v(1) by (simp_all add: i month_length_def month_split[OF m] valid_date_def)
  show "n = month_first (month_index n) + month_day n - 1"
    unfolding i month_first_def month_split[OF m] using v(2) days_from_civil_day[of y m d] by simp
qed

lemma month_of_day:
  assumes "1 \<le> d" and "d \<le> month_length i"
  shows "month_index (month_first i + d - 1) = i" and "month_day (month_first i + d - 1) = d"
proof -
  define y m where "y = i div 12" and "m = i mod 12 + 1"
  have m: "1 \<le> m" "m \<le> 12" by (simp_all add: m_def)
  have "valid_date y m d" using assms m by (simp add: valid_date_def month_length_def y_def m_def)
  moreover have "month_first i + d - 1 = days_from_civil y m d"
    using days_from_civil_day[of y m d] by (simp add: month_first_def y_def m_def)
  ultimately have c: "civil_from_days (month_first i + d - 1) = (y, m, d)" using civil_from_days_from_civil by simp
  show "month_index (month_first i + d - 1) = i" "month_day (month_first i + d - 1) = d"
    by (simp_all add: month_index_def month_day_def c) (simp add: y_def m_def)
qed

lemma civil_from_index: "civil_from_days n = (month_index n div 12, month_index n mod 12 + 1, month_day n)"
proof -
  obtain y m d where c: "civil_from_days n = (y, m, d)" by (metis prod_cases3)
  then have m: "1 \<le> m" "m \<le> 12" using civil_from_days_valid[OF c] by (auto simp: valid_date_def)
  have "month_index n = 12 * y + (m - 1)" by (simp add: month_index_def c)
  then have "month_index n div 12 = y" "month_index n mod 12 = m - 1" using month_split[OF m, of y] by simp_all
  then show ?thesis by (simp add: c month_day_def)
qed

text \<open>The day a year later; the 29th of February becomes the first of March.\<close>

definition year_after :: "int \<Rightarrow> int" where
  "year_after n = month_first (month_index n + 12) + month_day n - 1"

section \<open>Dates in a zone\<close>

text \<open>In most zones every day has a midnight, and \<open>time.Date\<close> finds it.\<close>

definition has_midnights :: "location \<Rightarrow> bool" where
  "has_midnights zone \<longleftrightarrow> (\<forall>n. wall zone (midnight zone n) = n * day) \<and> (\<forall>a b. a < b \<longrightarrow> midnight zone a < midnight zone b)"

definition fixed_zone :: "int \<Rightarrow> location" where
  "fixed_zone offset = \<lparr>loc_zone0 = offset, loc_tx = []\<rparr>"

lemma zone_offset_fixed [simp]: "zone_offset (fixed_zone c) t = c"
  by (simp add: zone_offset_def loc_lookup_def fixed_zone_def)

lemma wall_fixed [simp]: "wall (fixed_zone c) t = t + c * second"
  by (simp add: wall_def)

lemma midnight_fixed [simp]: "midnight (fixed_zone c) n = n * day - c * second"
  by (simp add: midnight_def local_unix_def loc_lookup_def fixed_zone_def Let_def algebra_simps)

lemma time_date_first:
  "time_date y m d 0 0 0 0 zone = midnight zone (month_first (12 * y + (m - 1)) + d - 1)"
proof -
  have i: "(12 * y + (m - 1)) div 12 = y + (m - 1) div 12" "(12 * y + (m - 1)) mod 12 = (m - 1) mod 12" by simp_all
  have "days_from_civil (y + (m - 1) div 12) ((m - 1) mod 12 + 1) d = month_first (12 * y + (m - 1)) + d - 1"
    unfolding month_first_def i using days_from_civil_day[of "y + (m - 1) div 12" "(m - 1) mod 12 + 1" d] by simp
  then show ?thesis by (simp add: time_date_def midnight_def Let_def)
qed

locale plain_zone =
  fixes zone :: location
  assumes mid: "has_midnights zone"
begin

lemma date_midnight [simp]: "date_in zone (midnight zone n) = n"
  using mid by (simp add: has_midnights_def date_in_def wall_day_def)

lemma midnight_less [simp]: "midnight zone a < midnight zone b \<longleftrightarrow> a < b"
  using mid unfolding has_midnights_def by (metis linorder_neqE not_less_iff_gr_or_eq)

lemma midnight_inj [simp]: "midnight zone a = midnight zone b \<longleftrightarrow> a = b"
  by (metis date_midnight)

lemma wall_midnight: "wall zone (midnight zone n) = n * day"
  using mid by (simp add: has_midnights_def)

lemma add_date_midnight:
  "add_date zone (midnight zone n) ys 0 ds = midnight zone (month_first (month_index n + 12 * ys) + month_day n + ds - 1)"
proof -
  obtain y m d where c: "civil_from_days n = (y, m, d)" by (metis prod_cases3)
  have clock: "wall_clock (wall zone (midnight zone n)) = (0, 0, 0)" by (simp add: wall_midnight wall_clock_def Let_def)
  have "midnight zone n mod second = 0" by (simp add: midnight_def)
  then have "add_date zone (midnight zone n) ys 0 ds = time_date (y + ys) m (d + ds) 0 0 0 0 zone"
    by (simp add: add_date_def c clock)
  then show ?thesis by (simp add: time_date_first month_index_def month_day_def c algebra_simps)
qed

lemma add_days: "add_date zone (midnight zone n) 0 0 k = midnight zone (n + k)"
  using month_day_sum[of n] by (simp add: add_date_midnight algebra_simps)

lemma add_year: "add_date zone (midnight zone n) 1 0 0 = midnight zone (year_after n)"
  by (simp add: add_date_midnight year_after_def)

lemma civil_midnight:
  "civil_in zone (midnight zone n) = (month_index n div 12, month_index n mod 12 + 1, month_day n)"
  by (simp add: civil_in_def civil_from_index)

lemma month_start_midnight: "month_start zone (midnight zone n) k = midnight zone (month_first (month_index n + k))"
  by (simp add: month_start_def civil_midnight time_date_first algebra_simps)

lemma last_day_midnight: "last_day zone (midnight zone (month_first i)) = month_length i"
proof -
  have i: "month_index (month_first i) = i"
    using month_of_day(1)[of 1 i] month_length_bounds(2)[of i] by simp
  have next_: "12 * (i div 12) + (i mod 12 + 1 + 1 - 1) = i + 1" by simp
  have "time_date (i div 12) (i mod 12 + 1 + 1) 0 0 0 0 0 zone = midnight zone (month_first i + month_length i - 1)"
    unfolding time_date_first next_ by (simp add: month_first_Suc)
  moreover have "month_day (month_first i + month_length i - 1) = month_length i"
    using month_of_day(2)[of "month_length i" i] month_length_bounds(2)[of i] by simp
  ultimately show ?thesis by (simp add: last_day_def civil_midnight i)
qed

end

section \<open>What a rule means\<close>

text \<open>Weeks start on Monday; day \<open>-3\<close> was one.\<close>

definition week :: "int \<Rightarrow> int" where
  "week n = (n + 3) div 7"

definition rule_date :: "RecurrenceRule \<Rightarrow> int list \<Rightarrow> int \<Rightarrow> int \<Rightarrow> bool" where
  "rule_date rule weekdays n0 n \<longleftrightarrow>
     (if rr_Frequency rule = ''DAILY'' then (n - n0) mod rr_Interval rule = 0
      else if rr_Frequency rule = ''WEEKLY'' then (week n - week n0) mod rr_Interval rule = 0 \<and> weekday n \<in> set weekdays
      else month_day n = month_day n0 \<and> (month_index n - month_index n0) mod rr_Interval rule = 0)"

definition series_end :: "int \<Rightarrow> int option \<Rightarrow> int" where
  "series_end n0 until = (case until of None \<Rightarrow> year_after n0 | Some u \<Rightarrow> min (year_after n0) u)"

definition series_dates :: "RecurrenceRule \<Rightarrow> int list \<Rightarrow> int \<Rightarrow> int option \<Rightarrow> int list" where
  "series_dates rule weekdays n0 until = filter (rule_date rule weekdays n0) [n0..series_end n0 until]"

lemma year_after_bounds: "n < year_after n" "year_after n \<le> n + 366"
proof -
  define i where "i = month_index n"
  have i: "(i + 12) div 12 = i div 12 + 1" "(i + 12) mod 12 = i mod 12" by simp_all
  have step: "month_first (i + 12) - month_first i \<in> {365, 366}"
    unfolding month_first_def i
    using year_days_Suc[of "i div 12"] year_days_Suc[of "i div 12 - 1"] by (auto simp: days_from_civil_def Let_def)
  have n: "n = month_first i + month_day n - 1" unfolding i_def by (rule month_day_sum)
  show "n < year_after n" "year_after n \<le> n + 366"
    using step n unfolding year_after_def i_def[symmetric] by auto
qed

lemma series_end_le: "series_end n0 until \<le> n0 + 366" "series_end n0 until \<le> year_after n0"
  using year_after_bounds[of n0] by (auto simp: series_end_def split: option.split)

lemma go_rem_mod: "0 \<le> a \<Longrightarrow> 0 < b \<Longrightarrow> go_rem a b = a mod b"
  by (simp add: go_rem_def trunc_div_def minus_mult_div_eq_mod)

lemma upto_shift: "map (\<lambda>k. c + k) [a..b] = [c + a..c + b :: int]"
proof (induction a b rule: upto.induct)
  case (1 a b)
  then show ?case by (subst (1 2) upto.simps) (simp add: add.assoc)
qed

lemma takeWhile_upto: "takeWhile (\<lambda>n. n \<le> l) [a..b] = [a..min l b]"
proof (induction a b rule: upto.induct)
  case (1 a b)
  show ?case
  proof (cases "a \<le> b \<and> a \<le> l")
    case True
    then show ?thesis using 1 by (subst (1 2) upto.simps) simp
  next
    case False
    then show ?thesis by (subst upto.simps) auto
  qed
qed

lemma takeWhile_downward:
  fixes xs :: "int list"
  assumes "sorted xs" and "\<And>x y. x \<le> y \<Longrightarrow> P y \<Longrightarrow> P x"
  shows "takeWhile P xs = filter P xs"
  using assms(1)
proof (induction xs)
  case (Cons x xs)
  show ?case
  proof (cases "P x")
    case False
    then have "\<forall>y \<in> set xs. \<not> P y" using Cons.prems assms(2) by auto
    then show ?thesis using False by simp
  qed (use Cons in simp)
qed simp

lemma not_past: "\<not> past (map_option f until) t \<longleftrightarrow> (case until of None \<Rightarrow> True | Some u \<Rightarrow> t \<le> f u)"
  by (auto simp: past_def split: option.split)

context plain_zone
begin

lemma midnight_le [simp]: "midnight zone a \<le> midnight zone b \<longleftrightarrow> a \<le> b"
  using midnight_less[of b a] by (simp flip: not_less)

lemma in_series: "\<not> (add_date zone (midnight zone n0) 1 0 0 < midnight zone n \<or> past (map_option (midnight zone) until) (midnight zone n))
    \<longleftrightarrow> n \<le> series_end n0 until"
  unfolding de_Morgan_disj not_past by (auto simp: add_year series_end_def split: option.split)

lemma dayDelta_midnight:
  assumes "\<bar>b - a\<bar> \<le> 10000"
  shows "dayDelta zone (midnight zone a) (midnight zone b) = b - a"
proof -
  have "\<bar>b * day - a * day\<bar> \<le> max_int64" using assms by (simp add: max_int64_def abs_le_iff)
  then have "time_sub (b * day) (a * day) = (b - a) * day" by (simp add: time_sub_exact algebra_simps)
  then show ?thesis using trunc_div_exact[of day "b - a"] by (simp only: dayDelta_def date_midnight)
qed

lemma week_start_midnight: "week_start zone (midnight zone n) = midnight zone (7 * week n - 3)"
proof -
  have "(weekday n + 6) mod 7 = (n + 3) mod 7" unfolding weekday_def by presburger
  moreover have "n - (n + 3) mod 7 = 7 * ((n + 3) div 7) - 3" by presburger
  ultimately show ?thesis by (simp add: week_start_def add_days week_def)
qed

lemma recurrenceMatches_midnight:
  assumes "rr_Frequency rule = ''DAILY'' \<or> rr_Frequency rule = ''WEEKLY''" and "1 \<le> rr_Interval rule" and "n0 \<le> n" and "n \<le> n0 + 366"
  shows "recurrenceMatches zone (midnight zone n0) (midnight zone n) rule weekdays = rule_date rule weekdays n0 n"
proof -
  have d: "dayDelta zone (midnight zone n0) (midnight zone n) = n - n0" using assms(3,4) by (intro dayDelta_midnight) simp
  have w: "week n0 \<le> week n" "week n \<le> week n0 + 53" using assms(3,4) unfolding week_def by presburger+
  then have "dayDelta zone (midnight zone (7 * week n0 - 3)) (midnight zone (7 * week n - 3)) = (week n - week n0) * 7"
    by (subst dayDelta_midnight) simp_all
  then have "trunc_div (dayDelta zone (week_start zone (midnight zone n0)) (week_start zone (midnight zone n))) 7 = week n - week n0"
    using trunc_div_exact[of 7 "week n - week n0"] by (simp only: week_start_midnight)
  with assms d w show ?thesis by (auto simp: recurrenceMatches_def rule_date_def go_rem_mod)
qed

lemma day_candidates_dates:
  assumes "rr_Frequency rule = ''DAILY'' \<or> rr_Frequency rule = ''WEEKLY''" and "1 \<le> rr_Interval rule"
  shows "day_candidates zone (midnight zone n0) (map_option (midnight zone) until) rule weekdays
    = map (midnight zone) (series_dates rule weekdays n0 until)"
proof -
  have shift: "map (\<lambda>k. n0 + k) [0..366] = [n0..n0 + 366]" using upto_shift[of n0 0 366] by simp
  have "map (\<lambda>offset. add_date zone (midnight zone n0) 0 0 offset) [0..366] = map (midnight zone) [n0..n0 + 366]"
    unfolding shift[symmetric] by (simp add: add_days)
  then have "day_candidates zone (midnight zone n0) (map_option (midnight zone) until) rule weekdays
      = filter (\<lambda>c. recurrenceMatches zone (midnight zone n0) c rule weekdays)
          (map (midnight zone) (takeWhile (\<lambda>n. n \<le> series_end n0 until) [n0..n0 + 366]))"
    by (simp add: day_candidates_def takeWhile_map comp_def in_series[unfolded de_Morgan_disj])
  also have "takeWhile (\<lambda>n. n \<le> series_end n0 until) [n0..n0 + 366] = [n0..series_end n0 until]"
    using series_end_le(1)[of n0 until] by (simp add: takeWhile_upto min_absorb1)
  also have "filter (\<lambda>c. recurrenceMatches zone (midnight zone n0) c rule weekdays) (map (midnight zone) [n0..series_end n0 until])
      = map (midnight zone) (filter (rule_date rule weekdays n0) [n0..series_end n0 until])"
    using series_end_le(1)[of n0 until]
    by (auto simp: filter_map comp_def recurrenceMatches_midnight[OF assms] intro!: arg_cong[where f = "map (midnight zone)"] filter_cong)
  finally show ?thesis by (simp add: series_dates_def)
qed

end

text \<open>The same for months.\<close>

definition month_dates :: "int \<Rightarrow> int option \<Rightarrow> int \<Rightarrow> int list" where
  "month_dates n0 until interval =
     map (\<lambda>i. month_first i + month_day n0 - 1)
       (filter (\<lambda>i. month_first i \<le> series_end n0 until \<and> month_day n0 \<le> month_length i
            \<and> month_first i + month_day n0 - 1 \<le> series_end n0 until)
         (map (\<lambda>k. month_index n0 + k) (filter (\<lambda>k. k mod interval = 0) [0..12])))"

lemma month_first_less [simp]: "month_first i < month_first j \<longleftrightarrow> i < j"
proof
  show "i < j \<Longrightarrow> month_first i < month_first j" using month_first_mono[of i j] month_length_bounds(2)[of i] by simp
  show "month_first i < month_first j \<Longrightarrow> i < j"
    using month_first_mono[of j i] month_length_bounds(2)[of j] by (cases i j rule: linorder_cases) auto
qed

lemma month_first_le [simp]: "month_first i \<le> month_first j \<longleftrightarrow> i \<le> j"
  using month_first_less[of j i] by (simp flip: not_less)

lemma month_dates_series:
  assumes freq: "rr_Frequency rule = ''MONTHLY''" and iv: "1 \<le> rr_Interval rule"
  shows "month_dates n0 until (rr_Interval rule) = series_dates rule weekdays n0 until"
proof (rule sorted_distinct_set_unique)
  let ?I = "filter (\<lambda>k. k mod rr_Interval rule = 0) [0..12]"
  let ?S = "series_end n0 until"
  have strict: "sorted_wrt (<) (map (\<lambda>i. month_first i + month_day n0 - 1) (filter P (map (\<lambda>k. month_index n0 + k) ?I)))" for P
    by (auto simp: sorted_wrt_map intro!: sorted_wrt_filter sorted_wrt_mono_rel[OF _ sorted_wrt_upto])
  then show "sorted (month_dates n0 until (rr_Interval rule))" "distinct (month_dates n0 until (rr_Interval rule))"
    unfolding month_dates_def by (auto simp: strict_sorted_iff)
  show "sorted (series_dates rule weekdays n0 until)" "distinct (series_dates rule weekdays n0 until)"
    by (auto simp: series_dates_def sorted_wrt_filter)
  have sum0: "n0 = month_first (month_index n0) + month_day n0 - 1" by (rule month_day_sum)
  show "set (month_dates n0 until (rr_Interval rule)) = set (series_dates rule weekdays n0 until)"
  proof (intro set_eqI iffI)
    fix n assume "n \<in> set (month_dates n0 until (rr_Interval rule))"
    then obtain k where k: "0 \<le> k" "k mod rr_Interval rule = 0" "month_day n0 \<le> month_length (month_index n0 + k)"
      and n: "n = month_first (month_index n0 + k) + month_day n0 - 1" "n \<le> ?S"
      by (auto simp: month_dates_def)
    note nd = month_of_day[OF month_day_range(1) k(3), folded n(1)]
    have "month_first (month_index n0) \<le> month_first (month_index n0 + k)" using k(1) by simp
    then have "n0 \<le> n" using n(1) sum0 by linarith
    then show "n \<in> set (series_dates rule weekdays n0 until)"
      using n(2) nd k(2) freq by (simp add: series_dates_def rule_date_def)
  next
    fix n assume "n \<in> set (series_dates rule weekdays n0 until)"
    then have n: "n0 \<le> n" "n \<le> ?S" "month_day n = month_day n0" "(month_index n - month_index n0) mod rr_Interval rule = 0"
      using freq by (auto simp: series_dates_def rule_date_def)
    define k where "k = month_index n - month_index n0"
    have sum: "n = month_first (month_index n0 + k) + month_day n0 - 1" using month_day_sum[of n] n(3) by (simp add: k_def)
    have "month_first (month_index n0) \<le> month_first (month_index n0 + k)" using n(1) sum sum0 by linarith
    moreover have "month_first (month_index n0 + k) \<le> month_first (month_index n0 + 12)"
      using n(2) series_end_le(2)[of n0 until] sum unfolding year_after_def by linarith
    ultimately have k: "0 \<le> k" "k \<le> 12" by simp_all
    have "month_first (month_index n0 + k) \<le> n" using sum month_day_range(1)[of n0] by linarith
    then have "month_first (month_index n0 + k) \<le> ?S" using n(2) by simp
    moreover have "month_day n0 \<le> month_length (month_index n0 + k)" using month_day_range(2)[of n] n(3) by (simp add: k_def)
    ultimately show "n \<in> set (month_dates n0 until (rr_Interval rule))"
      using k n(2,4) sum unfolding month_dates_def set_map k_def[symmetric]
      by (intro image_eqI[of _ _ "month_index n0 + k"]) auto
  qed
qed

lemma concat_guarded: "concat (map (\<lambda>i. if P i then [f i] else []) xs) = map f (filter P xs)"
  by (induction xs) auto

context plain_zone
begin

lemma month_candidates_midnight:
  assumes "i = month_index n0 + k" and "0 \<le> k" and "k \<le> 12"
  shows "month_candidates zone (midnight zone n0) (map_option (midnight zone) until) (midnight zone (month_first i))
    = (if month_day n0 \<le> month_length i \<and> month_first i + month_day n0 - 1 \<le> series_end n0 until
       then [midnight zone (month_first i + month_day n0 - 1)] else [])"
proof -
  let ?c = "month_first i + month_day n0 - 1"
  have i: "month_index (month_first i) = i" using month_of_day(1)[of 1 i] month_length_bounds(2)[of i] by simp
  have cand: "time_date (i div 12) (i mod 12 + 1) (month_day n0) 0 0 0 0 zone = midnight zone ?c"
    by (simp add: time_date_first)
  have "month_first (month_index n0) \<le> month_first i" "month_first i \<le> month_first (month_index n0 + 12)"
    using assms by simp_all
  then have "n0 \<le> ?c" "?c \<le> year_after n0"
    using month_day_sum[of n0] unfolding year_after_def by linarith+
  then have "\<not> ?c < n0 \<and> \<not> past (map_option (midnight zone) until) (midnight zone ?c) \<longleftrightarrow> ?c \<le> series_end n0 until"
    unfolding not_past by (auto simp: series_end_def split: option.split)
  then show ?thesis
    by (auto simp: month_candidates_def civil_midnight i last_day_midnight cand Let_def)
qed

lemma month_candidates_dates:
  assumes "1 \<le> interval"
  shows "concat (map (month_candidates zone (midnight zone n0) (map_option (midnight zone) until))
      (month_starts zone (midnight zone n0) (map_option (midnight zone) until) interval))
    = map (midnight zone) (month_dates n0 until interval)"
proof -
  let ?U = "map_option (midnight zone) until"
  let ?is = "map (\<lambda>k. month_index n0 + k) (filter (\<lambda>k. k mod interval = 0) [0..12])"
  have srt: "sorted ?is" by (auto simp: sorted_map intro!: sorted_wrt_filter sorted_wrt_mono_rel[OF _ sorted_wrt_upto])
  have "month_starts zone (midnight zone n0) ?U interval
      = map (\<lambda>i. midnight zone (month_first i)) (takeWhile (\<lambda>i. month_first i \<le> series_end n0 until) ?is)"
    by (simp add: month_starts_def month_start_midnight takeWhile_map comp_def in_series[unfolded de_Morgan_disj])
  also have "takeWhile (\<lambda>i. month_first i \<le> series_end n0 until) ?is = filter (\<lambda>i. month_first i \<le> series_end n0 until) ?is"
    using srt by (rule takeWhile_downward) (metis month_first_le order_trans)
  finally have starts: "month_starts zone (midnight zone n0) ?U interval
      = map (\<lambda>i. midnight zone (month_first i)) (filter (\<lambda>i. month_first i \<le> series_end n0 until) ?is)" .
  have each: "map (\<lambda>i. month_candidates zone (midnight zone n0) ?U (midnight zone (month_first i))) (filter (\<lambda>i. month_first i \<le> series_end n0 until) ?is)
      = map (\<lambda>i. if month_day n0 \<le> month_length i \<and> month_first i + month_day n0 - 1 \<le> series_end n0 until
            then [midnight zone (month_first i + month_day n0 - 1)] else []) (filter (\<lambda>i. month_first i \<le> series_end n0 until) ?is)"
    by (rule map_cong[OF refl], rule month_candidates_midnight[where k = "i - month_index n0" for i]) auto
  show ?thesis
    unfolding starts map_map comp_def each concat_guarded by (simp add: comp_def month_dates_def conj_commute conj_assoc)
qed

lemma all_candidates_dates:
  assumes "rr_Frequency rule = ''DAILY'' \<or> rr_Frequency rule = ''WEEKLY'' \<or> rr_Frequency rule = ''MONTHLY''" and "1 \<le> rr_Interval rule"
  shows "fst (all_candidates zone (midnight zone n0) (map_option (midnight zone) until) rule weekdays)
    = map (midnight zone) (series_dates rule weekdays n0 until)"
  using assms day_candidates_dates[of rule n0 until weekdays] month_candidates_dates[of "rr_Interval rule" n0 until]
    month_dates_series[of rule n0 until weekdays]
  by (auto simp: all_candidates_def Let_def)

end

section \<open>Occurrences\<close>

lemma materialize_run:
  assumes "materialize build excluded count cs occs = Inr res" and "\<And>c. count = Some c \<Longrightarrow> int (length occs) < c"
  defines "rest \<equiv> filter (\<lambda>c. \<not> excluded c) cs"
  shows "\<exists>new. res = occs @ new \<and> list_all2 (\<lambda>(i, c) occ. build i c = Inr occ)
    (enumerate (length occs) (case count of None \<Rightarrow> rest | Some c \<Rightarrow> take (nat c - length occs) rest)) new"
  using assms(1,2) unfolding rest_def
proof (induction cs arbitrary: occs)
  case Nil
  then show ?case by (auto split: option.split)
next
  case (Cons c cs)
  show ?case
  proof (cases "excluded c")
    case True
    then show ?thesis using Cons.IH[OF _ Cons.prems(2)] Cons.prems(1) by (cases count) simp_all
  next
    case False
    with Cons.prems(1) obtain occ where b: "build (length occs) c = Inr occ" by (auto split: sum.splits)
    let ?stop = "case count of None \<Rightarrow> False | Some n \<Rightarrow> n \<le> int (length (occs @ [occ]))"
    show ?thesis
    proof (cases ?stop)
      case True
      with Cons.prems obtain n where n: "count = Some n" "n = int (length occs) + 1" by (fastforce split: option.splits)
      then have "nat n - length occs = 1" by simp
      with n False b True Cons.prems(1) show ?thesis by (auto simp: enumerate_simps)
    next
      case go: False
      then have more: "\<And>n. count = Some n \<Longrightarrow> int (length (occs @ [occ])) < n" by auto
      from Cons.prems(1) False b go have "materialize build excluded count cs (occs @ [occ]) = Inr res" by (auto split: option.splits)
      from Cons.IH[OF this more] obtain new where new: "res = (occs @ [occ]) @ new"
        "list_all2 (\<lambda>(i, c) occ. build i c = Inr occ) (enumerate (length (occs @ [occ]))
          (case count of None \<Rightarrow> filter (\<lambda>c. \<not> excluded c) cs | Some n \<Rightarrow> take (nat n - length (occs @ [occ])) (filter (\<lambda>c. \<not> excluded c) cs))) new"
        by blast
      have "nat n - length occs = Suc (nat n - length (occs @ [occ]))" if "count = Some n" for n
        using more[OF that] by simp
      with new False b show ?thesis by (intro exI[of _ "occ # new"]) (cases count, auto)
    qed
  qed
qed

text \<open>A local time text that parses has a year of four digits.\<close>

lemma nat_digits_long: "10 ^ k \<le> n \<Longrightarrow> k < length (nat_digits n)"
proof (induction k arbitrary: n)
  case 0
  then show ?case using nat_digits_head[of n] by auto
next
  case (Suc k)
  have "(10::nat) ^ 1 \<le> 10 ^ Suc k" by (rule power_increasing) simp_all
  from order_trans[OF this Suc.prems] have ten: "10 \<le> n" by simp
  have "10 ^ k \<le> n div 10" using Suc.prems by (simp add: less_eq_div_iff_mult_less_eq)
  then have "k < length (nat_digits (n div 10))" by (rule Suc.IH)
  then show ?case by (subst nat_digits_step[OF ten]) simp
qed

lemma format_date_prefix:
  assumes "parse_date (take 10 (format_date n @ rest)) = Some k"
  shows "in_years n"
proof (rule ccontr)
  assume out: "\<not> in_years n"
  obtain y m d where c: "civil_from_days n = (y, m, d)" by (metis prod_cases3)
  from out have y: "y < 0 \<or> 9999 < y" by (auto simp: in_years_def c)
  obtain tail where str: "format_date n @ rest = append_int y 4 @ tail" by (simp add: format_date_def c format_ymd_def)
  from assms obtain y1 y2 y3 y4 s2 where digits: "take 10 (append_int y 4 @ tail) = y1 # y2 # y3 # y4 # CHR ''-'' # s2" "is_digit y1"
    unfolding str by (auto elim!: parse_date.elims simp: Let_def split: if_splits)
  from y show False
  proof
    assume "y < 0"
    then have "y1 = CHR ''-''" using digits(1) by (simp add: append_int_def Let_def)
    moreover have "\<not> is_digit (CHR ''-'')" by code_simp
    ultimately show False using digits(2) by simp
  next
    assume "9999 < y"
    then have "10 ^ 4 \<le> nat y" by simp
    then have len: "4 < length (nat_digits (nat y))" by (rule nat_digits_long)
    moreover have "append_int y 4 = nat_digits (nat y)" using len \<open>9999 < y\<close> by (simp add: append_int_def Let_def)
    ultimately have "CHR ''-'' = nat_digits (nat y) ! 4"
      using arg_cong[OF digits(1), of "\<lambda>xs. xs ! 4"] by (simp add: nth_append)
    then have "is_digit (CHR ''-'')" using nat_digits_all[of "nat y"] len by (simp add: list_all_length)
    moreover have "\<not> is_digit (CHR ''-'')" by code_simp
    ultimately show False by simp
  qed
qed

lemma parse_local_format:
  assumes "parse_local (format_local w) = Some w'"
  shows "w' = w - w mod second"
proof -
  from assms obtain k where "parse_date (take 10 (format_local w)) = Some k"
    by (auto elim!: parse_local.elims split: if_splits option.splits simp del: parse_date.simps)
  then have "in_years (wall_day w)" unfolding format_local_def by (rule format_date_prefix)
  with assms show ?thesis by (simp add: parse_format_local)
qed

lemma resolve_sound:
  assumes "load timezone = Some zone" and "resolveRecurringLocal load (format_local w) timezone fld = Inr t"
  shows "wall zone t = w - w mod second"
proof -
  from assms(2) obtain f where "resolveLocalDateTime load (format_local w) timezone f = Inr t"
    by (auto simp: resolveRecurringLocal_def split: sum.splits if_splits)
  then obtain w' where w': "parse_local (format_local w) = Some w'" "choose_candidate f (local_candidates zone w') = Inr t"
    by (auto simp: resolveLocalDateTime_def assms(1) split: option.splits)
  then have "t \<in> set (local_candidates zone w')" using choose_candidate_cases(2)[OF sorted_local_candidates] by blast
  then have "wall zone t = w'" by (auto simp: local_candidates_def candidate_shows)
  with parse_local_format[OF w'(1)] show ?thesis by simp
qed

text \<open>What the occurrence with index \<open>i\<close> on date \<open>n\<close> has to be: the dates, or the clock times, of the first one.\<close>

definition occurrence_on :: "location \<Rightarrow> time \<Rightarrow> time option \<Rightarrow> bool \<Rightarrow> int \<Rightarrow> nat \<Rightarrow> int \<Rightarrow> recurrenceOccurrence \<Rightarrow> bool" where
  "occurrence_on zone startAt endAt allDay span i n occ \<longleftrightarrow> ro_Index occ = int i \<and> ro_AllDay occ = allDay
     \<and> wall_day (ro_LocalStart occ) = n
     \<and> (if allDay
        then ro_StartDate occ = Some (format_date n) \<and> ro_EndDate occ = Some (format_date (n + span))
          \<and> ro_StartAt occ = midnight zone n \<and> ro_EndAt occ = Some (midnight zone (n + span))
        else ro_StartDate occ = None \<and> ro_EndDate occ = None
          \<and> wall_day (wall zone (ro_StartAt occ)) = n \<and> wall_clock (wall zone (ro_StartAt occ)) = wall_clock (wall zone startAt)
          \<and> (case endAt of
               None \<Rightarrow> ro_EndAt occ = None
             | Some t \<Rightarrow> \<exists>t'. ro_EndAt occ = Some t' \<and> ro_StartAt occ < t'
                 \<and> wall zone t' div second = (wall zone (ro_StartAt occ) + time_sub (wall zone t) (wall zone startAt)) div second))"

lemma date_clock_reading:
  assumes "wall_clock w = (h, mi, s)" and r_def: "r = n * day + (h * hour + mi * minute + s * second)"
  shows "wall_day r = n" and "wall_clock r = (h, mi, s)" and "r mod second = 0"
    and "format_local r = format_date n @ ''T'' @ format_clock h mi s"
proof -
  note c = wall_clock_range[OF assms(1)]
  have e: "h * hour + mi * minute + s * second = (h * 3600 + mi * 60 + s) * second" by simp
  have lt: "0 \<le> h * 3600 + mi * 60 + s" "h * 3600 + mi * 60 + s < 86400" using c by auto
  have r: "r = n * day + (h * 3600 + mi * 60 + s) * second" by (simp add: r_def)
  have "r div second = n * 86400 + (h * 3600 + mi * 60 + s)" unfolding r by (simp add: add.commute)
  then have sec: "r div second div 86400 = n" "r div second mod 86400 = h * 3600 + mi * 60 + s" using lt by simp_all
  show day: "wall_day r = n" using sec(1) by (simp add: wall_day_def div_day_second)
  have split: "h * 3600 + mi * 60 + s = h * 3600 + (mi * 60 + s)" "h * 3600 + mi * 60 + s = (h * 60 + mi) * 60 + s" by simp_all
  have "(h * 3600 + mi * 60 + s) div 3600 = h" "(h * 3600 + mi * 60 + s) mod 3600 = mi * 60 + s"
    unfolding split(1) using c by simp_all
  moreover have "(mi * 60 + s) div 60 = mi" using c by simp
  moreover have "(h * 3600 + mi * 60 + s) mod 60 = s"
    unfolding split(2) using c mod_mult_self3[of "h * 60 + mi" 60 s] by simp
  ultimately have "(h * 3600 + mi * 60 + s) div 3600 = h" "(h * 3600 + mi * 60 + s) mod 3600 div 60 = mi" "(h * 3600 + mi * 60 + s) mod 60 = s"
    by simp_all
  then show clock: "wall_clock r = (h, mi, s)" by (simp add: wall_clock_def Let_def div_day_second sec(2))
  show "r mod second = 0" unfolding r by simp
  show "format_local r = format_date n @ ''T'' @ format_clock h mi s" by (simp add: format_local_def day clock)
qed

context plain_zone
begin

lemma all_day_occurrence_on:
  assumes "load timezone = Some zone" and "all_day_occurrence load timezone zone span i (midnight zone n) = Inr occ"
  shows "occurrence_on zone startAt endAt True span i n occ"
proof -
  have parsed: "x = midnight zone k" if run: "dateAtTimezoneMidnight load (format_date k) timezone = Inr x" for k x
  proof -
    from run obtain m where m: "parse_date (format_date k) = Some m" "x = midnight zone m"
      by (auto simp: dateAtTimezoneMidnight_def assms(1) split: option.splits)
    from parse_date_Some[OF m(1)] show ?thesis by (simp add: m(2) format_date_inj)
  qed
  show ?thesis
    using assms(2) by (auto simp: all_day_occurrence_def occurrence_on_def add_days wallClock_def wall_midnight wall_day_def Let_def
      split: sum.splits dest!: parsed)
qed

lemma timed_occurrence_on:
  assumes "load timezone = Some zone"
    and "timed_occurrence load timezone zone (wall_clock (wall zone startAt)) (map_option (\<lambda>t. time_sub (wallClock zone t) (wallClock zone startAt)) endAt) sf ef
      i (midnight zone n) = Inr occ"
  shows "occurrence_on zone startAt endAt False span i n occ"
proof -
  obtain h mi s where clock: "wall_clock (wall zone startAt) = (h, mi, s)" by (metis prod_cases3)
  define r where "r = n * day + (h * hour + mi * minute + s * second)"
  note r = date_clock_reading[OF clock r_def]
  have start: "wall zone t = r" if "resolveRecurringLocal load (format_date n @ ''T'' @ format_clock h mi s) timezone sf = Inr t" for t
    using resolve_sound[of load timezone zone r sf t] assms(1) that r(3,4) by simp
  have stop: "wall zone t div second = (r + d) div second" if "resolveRecurringLocal load (format_local (r + d)) timezone ef = Inr t" for t d
    using resolve_sound[of load timezone zone "r + d" ef t] assms(1) that by (simp add: minus_mod_eq_mult_div)
  let ?d = "map_option (\<lambda>t. time_sub (wall zone t) (wall zone startAt)) endAt"
  let ?occ = "\<lambda>t. \<lparr>ro_Index = int i, ro_StartAt = t, ro_EndAt = None, ro_AllDay = False, ro_StartDate = None, ro_EndDate = None, ro_LocalStart = r\<rparr>"
  from assms(2) obtain t where t: "resolveRecurringLocal load (format_date n @ ''T'' @ format_clock h mi s) timezone sf = Inr t"
    and rest: "case ?d of None \<Rightarrow> occ = ?occ t | Some d \<Rightarrow> \<exists>t'. resolveRecurringLocal load (format_local (r + d)) timezone ef = Inr t'
      \<and> t < t' \<and> occ = (?occ t)\<lparr>ro_EndAt := Some t'\<rparr>"
    unfolding timed_occurrence_def clock date_midnight wallClock_def wall_midnight Let_def prod.case r_def[symmetric]
    by (auto simp: require_def split: sum.splits option.splits if_splits)
  note wt = start[OF t]
  show ?thesis
    using rest stop by (auto simp: occurrence_on_def clock r(1,2) wt split: option.splits)
qed

end

lemma anchor_date_midnight:
  assumes "has_midnights zone" and "anchor_date zone startAt allDay startDate endDate = Inr anchor"
  shows "anchor = midnight zone (if allDay then the (parse_date (the startDate)) else date_in zone startAt)"
  using assms(2) plain_zone.date_midnight[OF plain_zone.intro[OF assms(1)]]
  by (auto simp: anchor_date_def split: if_splits option.splits)

lemma until_date_midnight:
  "until_date zone rule anchor = Inr until \<Longrightarrow> until = map_option (midnight zone) (Option.bind (rr_Until rule) parse_date)"
  by (auto simp: until_date_def require_def split: option.splits if_splits)

lemma rule_weekdays_ok:
  "rule_weekdays zone startAt rule = Inr weekdays \<Longrightarrow>
     (rr_Frequency rule = ''DAILY'' \<or> rr_Frequency rule = ''WEEKLY'' \<or> rr_Frequency rule = ''MONTHLY'') \<and> 1 \<le> rr_Interval rule
     \<and> (\<forall>c. rr_Count rule = Some c \<longrightarrow> 1 \<le> c)"
  by (auto simp: rule_weekdays_def require_def split: if_splits option.splits)

interpretation fixed: plain_zone "fixed_zone c" for c
  by unfold_locales (simp add: has_midnights_def)

text \<open>The dates a rule asks for, without the excluded ones and up to the count.\<close>

definition planned_dates :: "RecurrenceRule \<Rightarrow> int list \<Rightarrow> int \<Rightarrow> int list" where
  "planned_dates rule weekdays n0 =
     (let dates = filter (\<lambda>n. format_date n \<notin> set (rr_Exdates rule)) (series_dates rule weekdays n0 (Option.bind (rr_Until rule) parse_date))
      in case rr_Count rule of None \<Rightarrow> dates | Some c \<Rightarrow> take (nat c) dates)"

lemma list_all2_enumerate_map:
  "list_all2 (\<lambda>(i, c) x. P i c x) (enumerate k (map f ns)) xs = list_all2 (\<lambda>(i, n) x. P i (f n) x) (enumerate k ns) xs"
  by (induction ns arbitrary: k xs) (auto simp: list_all2_Cons1)


definition sample_monthly :: RecurrenceRule where
  "sample_monthly = \<lparr>rr_Frequency = ''MONTHLY'', rr_Interval = 1, rr_Count = Some 3, rr_Until = None, rr_Weekdays = [], rr_Exdates = [''1970-03-31'']\<rparr>"

text \<open>The 31st of every month at nine in Seoul, without March: the 31st of January, May and July.\<close>

lemma sample_monthly_dates: "series_dates sample_monthly [] 30 None = [30, 89, 150, 211, 242, 303, 364, 395]"
proof -
  have "series_dates sample_monthly [] 30 None = month_dates 30 None 1"
    using month_dates_series[of sample_monthly 30 None "[]"] by (simp add: sample_monthly_def)
  also have "month_dates 30 None 1 = [30, 89, 150, 211, 242, 303, 364, 395]" by code_simp
  finally show ?thesis .
qed

lemma sample_monthly_text:
  "format_date 30 = ''1970-01-31''" "format_date 89 = ''1970-03-31''" "format_date 150 = ''1970-05-31''" "format_date 211 = ''1970-07-31''"
  by code_simp+

abbreviation seoul :: location where "seoul \<equiv> fixed_zone 32400"

abbreviation sample_build :: "nat \<Rightarrow> time \<Rightarrow> recurrence_error + recurrenceOccurrence" where
  "sample_build \<equiv> timed_occurrence (\<lambda>_. Some seoul) ''Asia/Seoul'' seoul (9, 0, 0) (Some hour) [] []"

lemma sample_monthly_run:
  "\<exists>r. generateOccurrences (\<lambda>_. Some seoul) (30 * day) (Some (30 * day + hour)) False None None ''Asia/Seoul'' sample_monthly [] [] = Inr r"
proof -
  have "\<not> isl (sample_build 0 (midnight seoul 30))" "\<not> isl (sample_build 1 (midnight seoul 150))" "\<not> isl (sample_build 2 (midnight seoul 211))"
    by code_simp+
  then obtain o1 o2 o3 where b: "sample_build 0 (midnight seoul 30) = Inr o1" "sample_build (Suc 0) (midnight seoul 150) = Inr o2"
    "sample_build (Suc (Suc 0)) (midnight seoul 211) = Inr o3" by (auto simp: isl_def numeral_2_eq_2 split: sum.splits) (metis sum.exhaust)
  have rule: "rr_Frequency sample_monthly = ''MONTHLY''" "rr_Interval sample_monthly = 1" "rr_Count sample_monthly = Some 3"
    "rr_Exdates sample_monthly = [''1970-03-31'']" "rr_Until sample_monthly = None" "rr_Weekdays sample_monthly = []"
    by (simp_all add: sample_monthly_def)
  have d: "date_in seoul (30 * day) = 30" and clock: "wall_clock (wall seoul (30 * day)) = (9, 0, 0)" by code_simp+
  have candidates: "fst (all_candidates seoul (midnight seoul 30) None sample_monthly []) = map (midnight seoul) [30, 89, 150, 211, 242, 303, 364, 395]"
    using fixed.all_candidates_dates[of sample_monthly 32400 30 None "[]"] sample_monthly_dates by (simp add: rule)
  have "materialize sample_build (\<lambda>c. format_date (date_in seoul c) \<in> set (rr_Exdates sample_monthly)) (rr_Count sample_monthly)
      (map (midnight seoul) [30, 89, 150, 211, 242, 303, 364, 395]) [] = Inr [o1, o2, o3]"
    using b by (simp add: rule sample_monthly_text del: midnight_fixed)
  then have "\<exists>r. expand sample_build seoul False sample_monthly (all_candidates seoul (midnight seoul 30) None sample_monthly []) = Inr r"
    unfolding expand_def candidates by (simp add: require_def)
  moreover have "rule_weekdays seoul (30 * day) sample_monthly = Inr []" by code_simp
  moreover have "exdates_ok (rr_Exdates sample_monthly)" by code_simp
  ultimately show ?thesis
    by (simp add: generateOccurrences_def anchor_date_def until_date_def rule(5) clock[simplified] d[simplified] wallClock_def time_sub_exact max_int64_def require_def
        del: midnight_fixed)
qed


end
