(* ===== verification/Store.thy ===== *)
theory Store
  imports Types
begin

text \<open>
  The state the program works on and the way it runs. \<open>db\<close> holds the tables of the schema under
  \<open>db/migrations\<close>, a table being the list of its rows; \<open>world\<close> adds the messages that NATS
  JetStream has accepted, the Prometheus counters and the number of statements, identifiers and
  publish attempts so far. \<open>env\<close> collects what is outside the repository as parameters: the
  database clock at each statement, which statements fail, which rows another transaction holds
  locked, the identifiers that \<open>uuid.NewV7\<close> returns, the outcome of each publish, the time zone
  database, the rounding of \<open>DATETIME\<close> columns and of a time sent as an argument, the collation
  that \<open>LOCATE\<close> compares with, SHA-256, the JSON text of a value, the canonical
  text of an identifier, the collation of the idempotency keys, and the tracing headers of the
  request. Every theorem holds for all of them unless it names what it needs.

  A program is a function from the environment and the world to an error or a result and the next
  world. \<open>sql\<close> issues one statement, which fails when the environment says so; \<open>run_tx\<close> is
  \<open>BeginTx\<close>, the body and the deferred \<open>Rollback\<close>: the tables are those at the start unless the
  body reaches \<open>Commit\<close> and the commit succeeds. Transactions run one at a time; the row locks of
  \<open>FOR UPDATE\<close> are what makes that a faithful picture of concurrent requests on the same rows.
\<close>

section \<open>Tables, environment, world\<close>

record db =
  t_schedules :: "schedule_row list"
  t_reminders :: "reminder_row list"
  t_series :: "series_row list"
  t_occurrences :: "occurrence_row list"
  t_outbox :: "outbox_row list"
  t_create_requests :: "create_request_row list"
  t_mutation_requests :: "mutation_request_row list"
  t_tombstones :: "uuid list"
  t_ai_users :: "uuid list"
  t_admissions :: "admission_row list"
  t_extractions :: "extraction_row list"

definition empty_db :: db where
  "empty_db = \<lparr>t_schedules = [], t_reminders = [], t_series = [], t_occurrences = [], t_outbox = [],
     t_create_requests = [], t_mutation_requests = [], t_tombstones = [], t_ai_users = [],
     t_admissions = [], t_extractions = []\<rparr>"

text \<open>
  A publish that times out or fails may still have been stored by the server: the flag says so.
\<close>

datatype publish_result = PublishOk | PublishTimeout bool | PublishFailed bool | NotConnected

record env =
  now_at :: "nat \<Rightarrow> time"
  fault_at :: "nat \<Rightarrow> bool"
  locked_at :: "nat \<Rightarrow> uuid \<Rightarrow> bool"
  uuid_at :: "nat \<Rightarrow> uuid option"
  publish_at :: "nat \<Rightarrow> publish_result"
  load_location :: "string \<Rightarrow> location option"
  dt3 :: "time \<Rightarrow> time"
  dt0 :: "time \<Rightarrow> time"
  arg_time :: "time \<Rightarrow> time"
  locate :: "string \<Rightarrow> string \<Rightarrow> bool"
  sha256 :: "string \<Rightarrow> hash"
  json_input :: "CreateScheduleInput \<Rightarrow> string option"
  json_payload :: "payload \<Rightarrow> string"
  uuid_string :: "uuid \<Rightarrow> string"
  key_collate :: "string \<Rightarrow> string"
  trace_headers :: "(string \<times> string) list"
  request_id :: string
  has_publisher :: bool

record message =
  msg_Subject :: string
  msg_ID :: string
  msg_Payload :: payload
  msg_Headers :: "(string \<times> string) list"

record world =
  w_db :: db
  w_step :: nat
  w_ids :: nat
  w_pubs :: nat
  w_stream :: "message list"
  w_mutations :: "string \<Rightarrow> int"
  w_published :: "string \<Rightarrow> int"
  w_publish_failed :: "string \<Rightarrow> int"

section \<open>Programs\<close>

type_synonym 'a tx = "env \<Rightarrow> world \<Rightarrow> (err + 'a) \<times> world"

definition ret :: "'a \<Rightarrow> 'a tx" where
  "ret x = (\<lambda>e w. (Inr x, w))"

definition fail :: "err \<Rightarrow> 'a tx" where
  "fail er = (\<lambda>e w. (Inl er, w))"

definition bnd :: "'a tx \<Rightarrow> ('a \<Rightarrow> 'b tx) \<Rightarrow> 'b tx" where
  "bnd m k = (\<lambda>e w. case m e w of (Inl er, w') \<Rightarrow> (Inl er, w') | (Inr x, w') \<Rightarrow> k x e w')"

text \<open>\<open>rescue m h\<close> is Go's inspection of an error before it is returned.\<close>

definition rescue :: "'a tx \<Rightarrow> (err \<Rightarrow> 'a tx) \<Rightarrow> 'a tx" where
  "rescue m h = (\<lambda>e w. case m e w of (Inl er, w') \<Rightarrow> h er e w' | (Inr x, w') \<Rightarrow> (Inr x, w'))"

definition ask :: "(env \<Rightarrow> 'a) \<Rightarrow> 'a tx" where
  "ask g = (\<lambda>e w. (Inr (g e), w))"

definition lift :: "err + 'a \<Rightarrow> 'a tx" where
  "lift r = (\<lambda>e w. (r, w))"

definition guard :: "bool \<Rightarrow> err \<Rightarrow> unit tx" where
  "guard b er = (if b then ret () else fail er)"

fun foreach :: "'a list \<Rightarrow> ('a \<Rightarrow> unit tx) \<Rightarrow> unit tx" where
  "foreach [] f = ret ()"
| "foreach (x # xs) f = bnd (f x) (\<lambda>_. foreach xs f)"

fun collect :: "'a list \<Rightarrow> ('a \<Rightarrow> 'b tx) \<Rightarrow> 'b list tx" where
  "collect [] f = ret []"
| "collect (x # xs) f = bnd (f x) (\<lambda>y. bnd (collect xs f) (\<lambda>ys. ret (y # ys)))"

definition sql :: "(env \<Rightarrow> nat \<Rightarrow> db \<Rightarrow> err + 'a \<times> db) \<Rightarrow> 'a tx" where
  "sql f = (\<lambda>e w.
     let n = w_step w; w' = w\<lparr>w_step := Suc n\<rparr>
     in if fault_at e n then (Inl DBError, w')
        else case f e n (w_db w) of
            Inl er \<Rightarrow> (Inl er, w')
          | Inr (x, d) \<Rightarrow> (Inr x, w'\<lparr>w_db := d\<rparr>))"

definition query :: "(db \<Rightarrow> 'a) \<Rightarrow> 'a tx" where
  "query g = sql (\<lambda>e n d. Inr (g d, d))"

definition exec :: "(db \<Rightarrow> db) \<Rightarrow> unit tx" where
  "exec g = sql (\<lambda>e n d. Inr ((), g d))"

text \<open>\<open>SELECT UTC_TIMESTAMP(3)\<close>, and a statement that reads the clock.\<close>

definition db_now :: "time tx" where
  "db_now = sql (\<lambda>e n d. Inr (now_at e n, d))"

definition exec_now :: "(time \<Rightarrow> db \<Rightarrow> db) \<Rightarrow> unit tx" where
  "exec_now g = sql (\<lambda>e n d. Inr ((), g (now_at e n) d))"

definition new_uuid :: "uuid tx" where
  "new_uuid = (\<lambda>e w. let w' = w\<lparr>w_ids := Suc (w_ids w)\<rparr>
     in case uuid_at e (w_ids w) of None \<Rightarrow> (Inl UUIDError, w') | Some u \<Rightarrow> (Inr u, w'))"

definition count_mutation :: "string \<Rightarrow> int \<Rightarrow> unit tx" where
  "count_mutation op n = (\<lambda>e w. (Inr (), w\<lparr>w_mutations := (w_mutations w)(op := w_mutations w op + n)\<rparr>))"

text \<open>The body of a transaction either returns early or reaches \<open>tx.Commit()\<close>.\<close>

datatype 'a outcome = Early 'a | Commit 'a

fun outcome_value :: "'a outcome \<Rightarrow> 'a" where
  "outcome_value (Early x) = x"
| "outcome_value (Commit x) = x"

definition run_tx :: "'a outcome tx \<Rightarrow> 'a outcome tx" where
  "run_tx body = (\<lambda>e w.
     let w1 = w\<lparr>w_step := Suc (w_step w)\<rparr>
     in if fault_at e (w_step w) then (Inl DBError, w1)
        else case body e w1 of
            (Inl er, w2) \<Rightarrow> (Inl er, w2\<lparr>w_db := w_db w\<rparr>)
          | (Inr (Early x), w2) \<Rightarrow> (Inr (Early x), w2\<lparr>w_db := w_db w\<rparr>)
          | (Inr (Commit x), w2) \<Rightarrow>
              (let w3 = w2\<lparr>w_step := Suc (w_step w2)\<rparr>
               in if fault_at e (w_step w2) then (Inl DBError, w3\<lparr>w_db := w_db w\<rparr>)
                  else (Inr (Commit x), w3)))"

section \<open>Successful runs\<close>

lemma ret_run [tx_run]: "ret x e w = (Inr y, w') \<longleftrightarrow> y = x \<and> w' = w"
  by (auto simp: ret_def)

lemma fail_run [tx_run]: "fail er e w = (Inr y, w') \<longleftrightarrow> False"
  by (simp add: fail_def)

lemma bnd_run [tx_run]:
  "bnd m k e w = (Inr y, w'') \<longleftrightarrow> (\<exists>x w'. m e w = (Inr x, w') \<and> k x e w' = (Inr y, w''))"
  by (auto simp: bnd_def split: prod.splits sum.splits)

lemma ask_run [tx_run]: "ask g e w = (Inr y, w') \<longleftrightarrow> y = g e \<and> w' = w"
  by (auto simp: ask_def)

lemma lift_run [tx_run]: "lift r e w = (Inr y, w') \<longleftrightarrow> r = Inr y \<and> w' = w"
  by (auto simp: lift_def)

lemma guard_run [tx_run]: "guard b er e w = (Inr y, w') \<longleftrightarrow> b \<and> w' = w"
  by (auto simp: guard_def ret_def fail_def)

lemma sql_run [tx_run]:
  "sql f e w = (Inr y, w') \<longleftrightarrow>
     \<not> fault_at e (w_step w) \<and>
     (\<exists>d. f e (w_step w) (w_db w) = Inr (y, d) \<and> w' = w\<lparr>w_step := Suc (w_step w), w_db := d\<rparr>)"
  by (auto simp: sql_def Let_def split: sum.splits prod.splits)

lemma query_run [tx_run]:
  "query g e w = (Inr y, w') \<longleftrightarrow>
     \<not> fault_at e (w_step w) \<and> y = g (w_db w) \<and> w' = w\<lparr>w_step := Suc (w_step w)\<rparr>"
  by (auto simp: query_def sql_run)

lemma exec_run [tx_run]:
  "exec g e w = (Inr y, w') \<longleftrightarrow>
     \<not> fault_at e (w_step w) \<and> w' = w\<lparr>w_step := Suc (w_step w), w_db := g (w_db w)\<rparr>"
  by (auto simp: exec_def sql_run)

lemma db_now_run [tx_run]:
  "db_now e w = (Inr y, w') \<longleftrightarrow>
     \<not> fault_at e (w_step w) \<and> y = now_at e (w_step w) \<and> w' = w\<lparr>w_step := Suc (w_step w)\<rparr>"
  by (auto simp: db_now_def sql_run)

lemma exec_now_run [tx_run]:
  "exec_now g e w = (Inr y, w') \<longleftrightarrow>
     \<not> fault_at e (w_step w)
     \<and> w' = w\<lparr>w_step := Suc (w_step w), w_db := g (now_at e (w_step w)) (w_db w)\<rparr>"
  by (auto simp: exec_now_def sql_run)

lemma new_uuid_run [tx_run]:
  "new_uuid e w = (Inr u, w') \<longleftrightarrow>
     uuid_at e (w_ids w) = Some u \<and> w' = w\<lparr>w_ids := Suc (w_ids w)\<rparr>"
  by (auto simp: new_uuid_def Let_def split: option.splits)

lemma count_mutation_run [tx_run]:
  "count_mutation op n e w = (Inr y, w') \<longleftrightarrow>
     w' = w\<lparr>w_mutations := (w_mutations w)(op := w_mutations w op + n)\<rparr>"
  by (auto simp: count_mutation_def)

lemma run_tx_Early:
  "run_tx body e w = (Inr (Early x), w') \<longleftrightarrow>
     \<not> fault_at e (w_step w) \<and>
     (\<exists>w2. body e (w\<lparr>w_step := Suc (w_step w)\<rparr>) = (Inr (Early x), w2) \<and> w' = w2\<lparr>w_db := w_db w\<rparr>)"
  by (auto simp: run_tx_def Let_def split: prod.splits sum.splits outcome.splits)

lemma run_tx_Commit:
  "run_tx body e w = (Inr (Commit x), w') \<longleftrightarrow>
     \<not> fault_at e (w_step w) \<and>
     (\<exists>w2. body e (w\<lparr>w_step := Suc (w_step w)\<rparr>) = (Inr (Commit x), w2)
        \<and> \<not> fault_at e (w_step w2) \<and> w' = w2\<lparr>w_step := Suc (w_step w2)\<rparr>)"
  by (auto simp: run_tx_def Let_def split: prod.splits sum.splits outcome.splits)

text \<open>
  Atomicity: a transaction that does not commit leaves every table as it was.
\<close>

lemma run_tx_error: "run_tx body e w = (Inl er, w') \<Longrightarrow> w_db w' = w_db w"
  by (auto simp: run_tx_def Let_def split: prod.splits sum.splits outcome.splits if_splits)

lemma run_tx_early_db: "run_tx body e w = (Inr (Early x), w') \<Longrightarrow> w_db w' = w_db w"
  by (auto simp: run_tx_Early)

section \<open>Relations that every run respects\<close>

text \<open>
  \<open>steps R m\<close>: whatever fails and wherever it stops, a run of \<open>m\<close> takes the tables along \<open>R\<close>.
\<close>

definition steps :: "(db \<Rightarrow> db \<Rightarrow> bool) \<Rightarrow> 'a tx \<Rightarrow> bool" where
  "steps R m \<longleftrightarrow> (\<forall>e w. R (w_db w) (w_db (snd (m e w))))"

lemma stepsD: "steps R m \<Longrightarrow> m e w = (r, w') \<Longrightarrow> R (w_db w) (w_db w')"
  by (metis steps_def snd_conv)

locale db_relation =
  fixes R :: "db \<Rightarrow> db \<Rightarrow> bool"
  assumes R_refl: "R d d"
    and R_trans: "R a b \<Longrightarrow> R b c \<Longrightarrow> R a c"
begin

lemma steps_ret [tx_steps]: "steps R (ret x)"
  by (simp add: steps_def ret_def R_refl)

lemma steps_fail [tx_steps]: "steps R (fail er)"
  by (simp add: steps_def fail_def R_refl)

lemma steps_ask [tx_steps]: "steps R (ask g)"
  by (simp add: steps_def ask_def R_refl)

lemma steps_lift [tx_steps]: "steps R (lift r)"
  by (simp add: steps_def lift_def R_refl)

lemma steps_guard [tx_steps]: "steps R (guard b er)"
  by (simp add: guard_def steps_ret steps_fail)

lemma steps_new_uuid [tx_steps]: "steps R new_uuid"
  by (simp add: steps_def new_uuid_def Let_def R_refl split: option.splits)

lemma steps_count_mutation [tx_steps]: "steps R (count_mutation op n)"
  by (simp add: steps_def count_mutation_def R_refl)

lemma steps_bnd [tx_steps]:
  assumes "steps R m" and "\<And>x. steps R (k x)"
  shows "steps R (bnd m k)"
  unfolding steps_def
proof (intro allI)
  fix e w
  obtain r w' where m: "m e w = (r, w')" by (cases "m e w")
  with assms(1) have mw: "R (w_db w) (w_db w')" by (rule stepsD)
  show "R (w_db w) (w_db (snd (bnd m k e w)))"
  proof (cases r)
    case (Inl er)
    with m mw show ?thesis by (simp add: bnd_def)
  next
    case (Inr x)
    obtain r2 w2 where k: "k x e w' = (r2, w2)" by (cases "k x e w'")
    with assms(2) have "R (w_db w') (w_db w2)" by (rule stepsD)
    with mw m Inr k show ?thesis by (auto simp: bnd_def intro: R_trans)
  qed
qed

lemma steps_rescue [tx_steps]:
  assumes "steps R m" and "\<And>er. steps R (h er)"
  shows "steps R (rescue m h)"
  unfolding steps_def
proof (intro allI)
  fix e w
  obtain r w' where m: "m e w = (r, w')" by (cases "m e w")
  with assms(1) have mw: "R (w_db w) (w_db w')" by (rule stepsD)
  show "R (w_db w) (w_db (snd (rescue m h e w)))"
  proof (cases r)
    case (Inl er)
    obtain r2 w2 where k: "h er e w' = (r2, w2)" by (cases "h er e w'")
    with assms(2) have "R (w_db w') (w_db w2)" by (rule stepsD)
    with mw m Inl k show ?thesis by (auto simp: rescue_def intro: R_trans)
  next
    case (Inr x)
    with m mw show ?thesis by (simp add: rescue_def)
  qed
qed

lemma steps_sql [tx_steps]:
  assumes "\<And>e n d x d'. f e n d = Inr (x, d') \<Longrightarrow> R d d'"
  shows "steps R (sql f)"
  using assms by (auto simp: steps_def sql_def Let_def R_refl split: sum.splits prod.splits)

lemma steps_query [tx_steps]: "steps R (query g)"
  unfolding query_def by (rule steps_sql) (auto simp: R_refl)

lemma steps_db_now [tx_steps]: "steps R db_now"
  unfolding db_now_def by (rule steps_sql) (auto simp: R_refl)

lemma steps_exec [tx_steps]:
  assumes "\<And>d. R d (g d)"
  shows "steps R (exec g)"
  unfolding exec_def by (rule steps_sql) (use assms in auto)

lemma steps_exec_now [tx_steps]:
  assumes "\<And>t d. R d (g t d)"
  shows "steps R (exec_now g)"
  unfolding exec_now_def by (rule steps_sql) (use assms in auto)

lemma steps_foreach [tx_steps]: "(\<And>x. steps R (f x)) \<Longrightarrow> steps R (foreach xs f)"
  by (induction xs) (auto intro: steps_ret steps_bnd)

lemma steps_collect [tx_steps]: "(\<And>x. steps R (f x)) \<Longrightarrow> steps R (collect xs f)"
  by (induction xs) (auto intro!: steps_ret steps_bnd)

lemma steps_run_tx [tx_steps]:
  assumes "steps R body"
  shows "steps R (run_tx body)"
  unfolding steps_def
proof (intro allI)
  fix e w
  obtain r w2 where b: "body e (w\<lparr>w_step := Suc (w_step w)\<rparr>) = (r, w2)" by fastforce
  with assms have "R (w_db (w\<lparr>w_step := Suc (w_step w)\<rparr>)) (w_db w2)" by (rule stepsD)
  with b show "R (w_db w) (w_db (snd (run_tx body e w)))"
    by (auto simp: run_tx_def Let_def R_refl split: sum.splits outcome.splits)
qed

lemma steps_if [tx_steps]: "(b \<Longrightarrow> steps R m) \<Longrightarrow> (\<not> b \<Longrightarrow> steps R n) \<Longrightarrow> steps R (if b then m else n)"
  by simp

lemma steps_option [tx_steps]:
  "steps R m \<Longrightarrow> (\<And>x. steps R (k x)) \<Longrightarrow> steps R (case v of None \<Rightarrow> m | Some x \<Rightarrow> k x)"
  by (cases v) auto

lemma steps_pair [tx_steps]: "(\<And>x y. steps R (k x y)) \<Longrightarrow> steps R (case p of (x, y) \<Rightarrow> k x y)"
  by (cases p) auto

lemma steps_outcome [tx_steps]:
  "(\<And>x. steps R (m x)) \<Longrightarrow> (\<And>x. steps R (k x)) \<Longrightarrow>
   steps R (case v of Early x \<Rightarrow> m x | Commit x \<Rightarrow> k x)"
  by (cases v) auto

lemma steps_Let [tx_steps]: "(\<And>x. steps R (k x)) \<Longrightarrow> steps R (let x = v in k x)"
  by (simp add: Let_def)

end

text \<open>An invariant of the tables is a relation of this kind.\<close>

definition keeps :: "(db \<Rightarrow> bool) \<Rightarrow> db \<Rightarrow> db \<Rightarrow> bool" where
  "keeps I a b \<longleftrightarrow> (I a \<longrightarrow> I b)"

interpretation keeps: db_relation "keeps I" for I
  by unfold_locales (auto simp: keeps_def)

section \<open>Successful transactions\<close>

text \<open>
  \<open>hoare P m Q\<close>: a successful run of \<open>m\<close> from tables that satisfy \<open>P\<close> ends with a result and
  tables that satisfy \<open>Q\<close>. This is what the body of a transaction needs, since a failing body is
  rolled back.
\<close>

definition hoare :: "(db \<Rightarrow> bool) \<Rightarrow> 'a tx \<Rightarrow> ('a \<Rightarrow> db \<Rightarrow> bool) \<Rightarrow> bool" where
  "hoare P m Q \<longleftrightarrow> (\<forall>e w x w'. P (w_db w) \<longrightarrow> m e w = (Inr x, w') \<longrightarrow> Q x (w_db w'))"

lemma hoareD: "hoare P m Q \<Longrightarrow> P (w_db w) \<Longrightarrow> m e w = (Inr x, w') \<Longrightarrow> Q x (w_db w')"
  unfolding hoare_def by blast

lemma hoare_conseq:
  assumes "hoare P m Q" and "\<And>d. P' d \<Longrightarrow> P d" and "\<And>x d. Q x d \<Longrightarrow> Q' x d"
  shows "hoare P' m Q'"
  using assms unfolding hoare_def by blast

lemma hoare_bnd: "hoare P m Q \<Longrightarrow> (\<And>x. hoare (Q x) (k x) S) \<Longrightarrow> hoare P (bnd m k) S"
  unfolding hoare_def bnd_run by blast

lemma hoare_ret: "(\<And>d. P d \<Longrightarrow> Q x d) \<Longrightarrow> hoare P (ret x) Q"
  by (auto simp: hoare_def ret_run)

lemma hoare_fail: "hoare P (fail er) Q"
  by (simp add: hoare_def fail_run)

lemma hoare_lift: "(\<And>x d. r = Inr x \<Longrightarrow> P d \<Longrightarrow> Q x d) \<Longrightarrow> hoare P (lift r) Q"
  by (auto simp: hoare_def lift_run)

lemma hoare_guard: "(\<And>d. b \<Longrightarrow> P d \<Longrightarrow> Q () d) \<Longrightarrow> hoare P (guard b er) Q"
  by (auto simp: hoare_def guard_run)

lemma hoare_ask: "(\<And>x d. P d \<Longrightarrow> Q x d) \<Longrightarrow> hoare P (ask g) Q"
  by (auto simp: hoare_def ask_run)

lemma hoare_new_uuid: "(\<And>x d. P d \<Longrightarrow> Q x d) \<Longrightarrow> hoare P new_uuid Q"
  by (auto simp: hoare_def new_uuid_run)

lemma hoare_sql:
  assumes "\<And>e n d x d'. P d \<Longrightarrow> f e n d = Inr (x, d') \<Longrightarrow> Q x d'"
  shows "hoare P (sql f) Q"
  unfolding hoare_def sql_run using assms by auto

lemma hoare_query: "(\<And>d. P d \<Longrightarrow> Q (g d) d) \<Longrightarrow> hoare P (query g) Q"
  by (auto simp: hoare_def query_run)

lemma hoare_db_now: "(\<And>x d. P d \<Longrightarrow> Q x d) \<Longrightarrow> hoare P db_now Q"
  by (auto simp: hoare_def db_now_run)

lemma hoare_exec: "(\<And>d. P d \<Longrightarrow> Q () (g d)) \<Longrightarrow> hoare P (exec g) Q"
  by (auto simp: hoare_def exec_run)

lemma hoare_exec_now: "(\<And>t d. P d \<Longrightarrow> Q () (g t d)) \<Longrightarrow> hoare P (exec_now g) Q"
  by (auto simp: hoare_def exec_now_run)

lemma hoare_if: "(b \<Longrightarrow> hoare P m Q) \<Longrightarrow> (\<not> b \<Longrightarrow> hoare P n Q) \<Longrightarrow> hoare P (if b then m else n) Q"
  by simp

lemma hoare_option:
  "(v = None \<Longrightarrow> hoare P m Q) \<Longrightarrow> (\<And>x. v = Some x \<Longrightarrow> hoare P (k x) Q) \<Longrightarrow>
   hoare P (case v of None \<Rightarrow> m | Some x \<Rightarrow> k x) Q"
  by (cases v) auto

lemma hoare_foreach:
  "(\<And>x. x \<in> set xs \<Longrightarrow> hoare I (f x) (\<lambda>_. I)) \<Longrightarrow> hoare I (foreach xs f) (\<lambda>_. I)"
  by (induction xs) (auto intro!: hoare_ret hoare_bnd)

lemma hoare_collect:
  "(\<And>x. x \<in> set xs \<Longrightarrow> hoare I (f x) (\<lambda>_. I)) \<Longrightarrow> hoare I (collect xs f) (\<lambda>_. I)"
  by (induction xs) (auto intro!: hoare_ret hoare_bnd)

text \<open>Sequencing, with what each kind of statement lets the continuation assume.\<close>

lemma hoare_seq: "hoare P m (\<lambda>_. P) \<Longrightarrow> (\<And>x. hoare P (k x) Q) \<Longrightarrow> hoare P (bnd m k) Q"
  by (rule hoare_bnd)

lemma hoare_idle:
  "hoare P (ask g) (\<lambda>_. P)" "hoare P new_uuid (\<lambda>_. P)" "hoare P db_now (\<lambda>_. P)"
  "hoare P (query q) (\<lambda>_. P)" "hoare P (guard b er) (\<lambda>_. P)" "hoare P (lift r) (\<lambda>_. P)"
  by (simp_all add: hoare_ask hoare_new_uuid hoare_db_now hoare_query hoare_guard hoare_lift)

lemma hoare_then_guard: "(b \<Longrightarrow> hoare P (k ()) Q) \<Longrightarrow> hoare P (bnd (guard b er) k) Q"
  by (auto simp: hoare_def bnd_run guard_run)

lemma hoare_then_lift: "(\<And>x. r = Inr x \<Longrightarrow> hoare P (k x) Q) \<Longrightarrow> hoare P (bnd (lift r) k) Q"
  by (auto simp: hoare_def bnd_run lift_run)

lemma hoare_then_query: "(\<And>x. hoare (\<lambda>d. P d \<and> x = g d) (k x) Q) \<Longrightarrow> hoare P (bnd (query g) k) Q"
  by (rule hoare_bnd[where Q = "\<lambda>x d. P d \<and> x = g d"]) (auto intro: hoare_query)

lemma hoare_pure: "(\<And>d. P d \<Longrightarrow> b) \<Longrightarrow> (b \<Longrightarrow> hoare P m Q) \<Longrightarrow> hoare P m Q"
  unfolding hoare_def by blast

lemmas hoare_rules = hoare_fail hoare_if hoare_option

text \<open>A transaction whose committing body keeps \<open>I\<close> keeps it however it ends.\<close>

definition committed :: "(db \<Rightarrow> bool) \<Rightarrow> 'a outcome \<Rightarrow> db \<Rightarrow> bool" where
  "committed I r d \<longleftrightarrow> (case r of Early _ \<Rightarrow> True | Commit _ \<Rightarrow> I d)"

lemma committed_simps [simp]: "committed I (Early x) d" "committed I (Commit x) d = I d"
  by (simp_all add: committed_def)

lemma steps_run_tx_hoare:
  assumes "hoare I body (committed I)"
  shows "steps (keeps I) (run_tx body)"
  unfolding steps_def keeps_def
proof (intro allI impI)
  fix e and w :: world assume I: "I (w_db w)"
  obtain r w2 where b: "body e (w\<lparr>w_step := Suc (w_step w)\<rparr>) = (r, w2)" by fastforce
  with I hoareD[OF assms, of "w\<lparr>w_step := Suc (w_step w)\<rparr>" e] have "\<And>x. r = Inr x \<Longrightarrow> committed I x (w_db w2)"
    by simp
  with I b show "I (w_db (snd (run_tx body e w)))"
    by (auto simp: run_tx_def Let_def split: sum.splits outcome.splits)
qed

end
