(* ===== verification/Database.thy ===== *)
theory Database
  imports Store
begin

text \<open>
  The statements of \<open>internal/repo/schedules.sql.go\<close> over the tables, the conversions of
  \<open>internal/service/convert.go\<close>, and what the schema under \<open>db/migrations\<close> enforces: primary
  and unique keys (a violation is error 1062), foreign keys with \<open>ON DELETE CASCADE\<close>, the
  enumerations, and the range of the \<open>BIGINT\<close> revision. \<open>db_wf\<close> is the invariant of the tables.
  Any statement may also fail for a reason of its own (\<open>fault_at\<close>): a lost connection, a value too
  long for its column, a year MySQL does not store.

  The locale \<open>user_store\<close> is the interface between the tables and the service: the changes that
  the statements of a request of one user make, each with what the code guarantees when it issues
  the statement. A predicate that is stable under these changes holds after every request of that
  user, whatever fails on the way.
\<close>

section \<open>Conversions\<close>

definition nullDate :: "string option \<Rightarrow> int option" where
  "nullDate date = (case date of None \<Rightarrow> None | Some s \<Rightarrow> parse_date s)"

definition datePtr :: "int option \<Rightarrow> string option" where
  "datePtr = map_option format_date"

definition mapReminder :: "reminder_row \<Rightarrow> Reminder" where
  "mapReminder row = \<lparr>rem_ID = rmr_ID row, rem_ScheduleID = rmr_ScheduleID row,
     rem_MinutesBefore = rmr_MinutesBefore row, rem_Channel = rmr_Channel row,
     rem_CreatedAt = rmr_CreatedAt row\<rparr>"

definition mapReminders :: "reminder_row list \<Rightarrow> Reminder list" where
  "mapReminders rows = map mapReminder rows"

definition mapSchedule :: "schedule_row \<Rightarrow> reminder_row list \<Rightarrow> Schedule" where
  "mapSchedule row reminders = \<lparr>s_ID = sr_ID row, s_UserID = sr_UserID row, s_Title = sr_Title row,
     s_Description = sr_Description row, s_Location = sr_Location row, s_StartAt = sr_StartAt row,
     s_EndAt = sr_EndAt row, s_AllDay = sr_AllDay row, s_Timezone = sr_Timezone row,
     s_StartDate = datePtr (sr_StartDate row), s_EndDate = datePtr (sr_EndDate row),
     s_Status = sr_Status row, s_Source = sr_Source row, s_ExtractionID = sr_ExtractionID row,
     s_CreatedAt = sr_CreatedAt row, s_UpdatedAt = sr_UpdatedAt row, s_Revision = sr_Revision row,
     s_Reminders = map mapReminder reminders,
     s_SeriesID = None, s_OccurrenceIndex = None, s_Recurrence = None\<rparr>"

section \<open>Statements\<close>

definition status_ok :: "string \<Rightarrow> bool" where
  "status_ok s \<longleftrightarrow> s \<in> {''confirmed'', ''tentative'', ''cancelled''}"

definition source_ok :: "string \<Rightarrow> bool" where
  "source_ok s \<longleftrightarrow> s \<in> {''manual'', ''ai''}"

definition channel_ok :: "string \<Rightarrow> bool" where
  "channel_ok s \<longleftrightarrow> s \<in> {''push'', ''email'', ''none'', ''telegram''}"

definition has_schedule :: "db \<Rightarrow> uuid \<Rightarrow> bool" where
  "has_schedule d sid \<longleftrightarrow> (\<exists>s \<in> set (t_schedules d). sr_ID s = sid)"

definition owns :: "db \<Rightarrow> uuid \<Rightarrow> uuid \<Rightarrow> bool" where
  "owns d u sid \<longleftrightarrow> (\<exists>s \<in> set (t_schedules d). sr_ID s = sid \<and> sr_UserID s = u)"

record CreateScheduleParams =
  cp_ID :: uuid
  cp_UserID :: uuid
  cp_Title :: string
  cp_Description :: "string option"
  cp_Location :: "string option"
  cp_StartAt :: time
  cp_EndAt :: "time option"
  cp_AllDay :: bool
  cp_Timezone :: string
  cp_StartDate :: "int option"
  cp_EndDate :: "int option"
  cp_Status :: string
  cp_Source :: string
  cp_ExtractionID :: "uuid option"

record UpdateScheduleParams =
  up_Title :: string
  up_Description :: "string option"
  up_Location :: "string option"
  up_StartAt :: time
  up_EndAt :: "time option"
  up_AllDay :: bool
  up_Timezone :: string
  up_StartDate :: "int option"
  up_EndDate :: "int option"
  up_Status :: string
  up_ID :: uuid
  up_UserID :: uuid

definition new_schedule_row :: "env \<Rightarrow> time \<Rightarrow> CreateScheduleParams \<Rightarrow> schedule_row" where
  "new_schedule_row e now p = \<lparr>sr_ID = cp_ID p, sr_UserID = cp_UserID p, sr_Title = cp_Title p,
     sr_Description = cp_Description p, sr_Location = cp_Location p,
     sr_StartAt = dt3 e (cp_StartAt p), sr_EndAt = map_option (dt3 e) (cp_EndAt p),
     sr_AllDay = cp_AllDay p, sr_Status = cp_Status p, sr_Source = cp_Source p,
     sr_ExtractionID = cp_ExtractionID p, sr_CreatedAt = now, sr_UpdatedAt = now, sr_Revision = 1,
     sr_Timezone = cp_Timezone p, sr_StartDate = cp_StartDate p, sr_EndDate = cp_EndDate p\<rparr>"

definition repo_CreateSchedule :: "CreateScheduleParams \<Rightarrow> unit tx" where
  "repo_CreateSchedule p = sql (\<lambda>e n d.
     if \<not> (status_ok (cp_Status p) \<and> source_ok (cp_Source p)) then Inl DBError
     else if has_schedule d (cp_ID p) then Inl MySQLDuplicate
     else Inr ((), d\<lparr>t_schedules := t_schedules d @ [new_schedule_row e (now_at e n) p]\<rparr>))"

definition repo_AddReminder :: "uuid \<Rightarrow> uuid \<Rightarrow> int \<Rightarrow> string \<Rightarrow> unit tx" where
  "repo_AddReminder ident scheduleID minutesBefore channel = sql (\<lambda>e n d.
     if \<not> channel_ok channel then Inl DBError
     else if \<exists>r \<in> set (t_reminders d). rmr_ID r = ident then Inl MySQLDuplicate
     else if \<not> has_schedule d scheduleID then Inl DBError
     else Inr ((), d\<lparr>t_reminders := t_reminders d @
       [\<lparr>rmr_ID = ident, rmr_ScheduleID = scheduleID, rmr_MinutesBefore = minutesBefore,
         rmr_Channel = channel, rmr_CreatedAt = now_at e n\<rparr>]\<rparr>))"

definition repo_DeleteReminder :: "uuid \<Rightarrow> uuid \<Rightarrow> nat tx" where
  "repo_DeleteReminder ident scheduleID = sql (\<lambda>e n d.
     let p = (\<lambda>r. rmr_ID r = ident \<and> rmr_ScheduleID r = scheduleID)
     in Inr (length (filter p (t_reminders d)),
             d\<lparr>t_reminders := filter (\<lambda>r. \<not> p r) (t_reminders d)\<rparr>))"

text \<open>Deleting schedules or series cascades to the rows that refer to them.\<close>

definition del_schedules :: "(schedule_row \<Rightarrow> bool) \<Rightarrow> db \<Rightarrow> db" where
  "del_schedules p d =
     (let gone = (\<lambda>sid. \<exists>s \<in> set (t_schedules d). p s \<and> sr_ID s = sid)
      in d\<lparr>t_schedules := filter (\<lambda>s. \<not> p s) (t_schedules d),
           t_reminders := filter (\<lambda>r. \<not> gone (rmr_ScheduleID r)) (t_reminders d),
           t_occurrences := filter (\<lambda>r. \<not> gone (ocr_ScheduleID r)) (t_occurrences d)\<rparr>)"

definition del_series :: "(series_row \<Rightarrow> bool) \<Rightarrow> db \<Rightarrow> db" where
  "del_series p d =
     (let gone = (\<lambda>sid. \<exists>s \<in> set (t_series d). p s \<and> ser_SeriesID s = sid)
      in d\<lparr>t_series := filter (\<lambda>s. \<not> p s) (t_series d),
           t_occurrences := filter (\<lambda>r. \<not> gone (ocr_SeriesID r)) (t_occurrences d)\<rparr>)"

definition repo_DeleteSchedule :: "uuid \<Rightarrow> uuid \<Rightarrow> nat tx" where
  "repo_DeleteSchedule ident userID = sql (\<lambda>e n d.
     let p = (\<lambda>s. sr_ID s = ident \<and> sr_UserID s = userID)
     in Inr (length (filter p (t_schedules d)), del_schedules p d))"

definition repo_DeleteSchedulesByIDs :: "uuid \<Rightarrow> uuid list \<Rightarrow> nat tx" where
  "repo_DeleteSchedulesByIDs userID ids = sql (\<lambda>e n d.
     let p = (\<lambda>s. sr_UserID s = userID \<and> sr_ID s \<in> set ids)
     in Inr (length (filter p (t_schedules d)), del_schedules p d))"

definition repo_GetSchedule :: "uuid \<Rightarrow> uuid \<Rightarrow> schedule_row option tx" where
  "repo_GetSchedule ident userID =
     query (\<lambda>d. List.find (\<lambda>s. sr_ID s = ident \<and> sr_UserID s = userID) (t_schedules d))"

definition repo_GetScheduleOccurrence :: "uuid \<Rightarrow> uuid \<Rightarrow> (uuid \<times> int \<times> RecurrenceRule) option tx" where
  "repo_GetScheduleOccurrence scheduleID userID = query (\<lambda>d.
     case List.find (\<lambda>r. ocr_ScheduleID r = scheduleID \<and> owns d userID scheduleID) (t_occurrences d) of
       None \<Rightarrow> None
     | Some r \<Rightarrow> map_option (\<lambda>z. (ocr_SeriesID r, ocr_Index r, ser_Recurrence z))
         (List.find (\<lambda>z. ser_SeriesID z = ocr_SeriesID r) (t_series d)))"

definition repo_ListReminders :: "uuid \<Rightarrow> reminder_row list tx" where
  "repo_ListReminders scheduleID = query (\<lambda>d.
     sort_by (\<lambda>a b. rmr_MinutesBefore a \<le> rmr_MinutesBefore b)
       (filter (\<lambda>r. rmr_ScheduleID r = scheduleID) (t_reminders d)))"

definition repo_ListScheduleIDsByIDs :: "uuid \<Rightarrow> uuid list \<Rightarrow> uuid list tx" where
  "repo_ListScheduleIDsByIDs userID ids = query (\<lambda>d.
     map sr_ID (filter (\<lambda>s. sr_UserID s = userID \<and> sr_ID s \<in> set ids) (t_schedules d)))"

text \<open>\<open>ORDER BY start_at ASC, id ASC\<close>.\<close>

definition start_id_le :: "schedule_row \<Rightarrow> schedule_row \<Rightarrow> bool" where
  "start_id_le a b \<longleftrightarrow> sr_StartAt a < sr_StartAt b \<or> sr_StartAt a = sr_StartAt b \<and> sr_ID a \<le> sr_ID b"

definition repo_ListSchedules :: "uuid \<Rightarrow> time \<Rightarrow> time \<Rightarrow> string option \<Rightarrow> schedule_row list tx" where
  "repo_ListSchedules userID from until status = sql (\<lambda>e n d.
     Inr (sort_by start_id_le (filter (\<lambda>s. sr_UserID s = userID \<and> arg_time e from \<le> sr_StartAt s
        \<and> sr_StartAt s < arg_time e until \<and> pred_option (\<lambda>st. sr_Status s = st) status)
        (t_schedules d)), d))"

record ListSchedulesPageParams =
  lp_UserID :: uuid
  lp_StartDate :: "int option"
  lp_EndDate :: "int option"
  lp_StartAt :: time
  lp_StartAt_2 :: time
  lp_StartAt_3 :: time
  lp_EndAt :: time
  lp_Status :: "string option"
  lp_Query :: string
  lp_Cursor :: "(time \<times> uuid) option"
  lp_Limit :: int

text \<open>A comparison with \<open>NULL\<close> does not hold.\<close>

definition page_range :: "env \<Rightarrow> ListSchedulesPageParams \<Rightarrow> schedule_row \<Rightarrow> bool" where
  "page_range e p s \<longleftrightarrow>
     (if sr_AllDay s
      then (case (sr_StartDate s, lp_StartDate p) of (Some a, Some b) \<Rightarrow> a < b | _ \<Rightarrow> False)
         \<and> (case (sr_EndDate s, lp_EndDate p) of (Some a, Some b) \<Rightarrow> b < a | _ \<Rightarrow> False)
      else (case sr_EndAt s of
          None \<Rightarrow> arg_time e (lp_StartAt p) \<le> sr_StartAt s \<and> sr_StartAt s < arg_time e (lp_StartAt_2 p)
        | Some t \<Rightarrow> sr_StartAt s < arg_time e (lp_StartAt_3 p) \<and> arg_time e (lp_EndAt p) < t))"

definition page_match :: "env \<Rightarrow> ListSchedulesPageParams \<Rightarrow> schedule_row \<Rightarrow> bool" where
  "page_match e p s \<longleftrightarrow> sr_UserID s = lp_UserID p \<and> page_range e p s
     \<and> pred_option (\<lambda>st. sr_Status s = st) (lp_Status p)
     \<and> (lp_Query p = [] \<or> locate e (lp_Query p) (sr_Title s)
        \<or> locate e (lp_Query p) (case sr_Location s of None \<Rightarrow> [] | Some l \<Rightarrow> l))"

definition page_after :: "env \<Rightarrow> (time \<times> uuid) option \<Rightarrow> schedule_row \<Rightarrow> bool" where
  "page_after e cursor s \<longleftrightarrow> (case cursor of None \<Rightarrow> True
     | Some (t, i) \<Rightarrow> arg_time e t < sr_StartAt s \<or> sr_StartAt s = arg_time e t \<and> i < sr_ID s)"

definition repo_ListSchedulesPage :: "ListSchedulesPageParams \<Rightarrow> schedule_row list tx" where
  "repo_ListSchedulesPage p = sql (\<lambda>e n d.
     if lp_Limit p < 0 then Inl DBError
     else Inr (take (nat (lp_Limit p)) (sort_by start_id_le
        (filter (\<lambda>s. page_match e p s \<and> page_after e (lp_Cursor p) s) (t_schedules d))), d))"

definition updated_row :: "env \<Rightarrow> time \<Rightarrow> UpdateScheduleParams \<Rightarrow> schedule_row \<Rightarrow> schedule_row" where
  "updated_row e now p s = s\<lparr>sr_Title := up_Title p, sr_Description := up_Description p,
     sr_Location := up_Location p, sr_StartAt := dt3 e (up_StartAt p),
     sr_EndAt := map_option (dt3 e) (up_EndAt p), sr_AllDay := up_AllDay p,
     sr_Timezone := up_Timezone p, sr_StartDate := up_StartDate p, sr_EndDate := up_EndDate p,
     sr_Status := up_Status p, sr_Revision := sr_Revision s + 1, sr_UpdatedAt := now\<rparr>"

definition repo_UpdateSchedule :: "UpdateScheduleParams \<Rightarrow> unit tx" where
  "repo_UpdateSchedule p = sql (\<lambda>e n d.
     let hit = (\<lambda>s. sr_ID s = up_ID p \<and> sr_UserID s = up_UserID p)
     in if \<exists>s \<in> set (t_schedules d). hit s \<and> (max_int64 \<le> sr_Revision s \<or> \<not> status_ok (up_Status p))
        then Inl DBError
        else Inr ((), d\<lparr>t_schedules := upd_where hit (updated_row e (now_at e n) p) (t_schedules d)\<rparr>))"

definition repo_CreateExtraction :: "uuid \<Rightarrow> uuid \<Rightarrow> string \<Rightarrow> int \<Rightarrow> string \<Rightarrow> int option \<Rightarrow> unit tx" where
  "repo_CreateExtraction ident userID model inputChars status latencyMs = sql (\<lambda>e n d.
     if status \<notin> {''success'', ''partial'', ''failed''} then Inl DBError
     else if \<exists>r \<in> set (t_extractions d). ex_ID r = ident then Inl MySQLDuplicate
     else Inr ((), d\<lparr>t_extractions := t_extractions d @
       [\<lparr>ex_ID = ident, ex_UserID = userID, ex_Model = model, ex_InputChars = inputChars,
         ex_RawText = None, ex_ResultJson = None, ex_Status = status, ex_LatencyMs = latencyMs,
         ex_CreatedAt = now_at e n\<rparr>]\<rparr>))"

end
