(* ===== verification/Integrity.thy ===== *)
theory Integrity
  imports Database
begin

text \<open>
  The integrity of the tables: \<open>db_wf\<close> (keys, references, column domains, and that an occurrence
  links a schedule and a series of one user), the data of one user, and the limits on the reminders
  of a schedule. The locale \<open>user_store\<close> lists the changes a request of the user \<open>u\<close> makes with
  what the code has established when it makes them; the three predicates are interpretations of it.
\<close>

section \<open>Well-formed tables\<close>

definition keys_ok :: "db \<Rightarrow> bool" where
  "keys_ok d \<longleftrightarrow> distinct (map sr_ID (t_schedules d)) \<and> distinct (map rmr_ID (t_reminders d))
     \<and> distinct (map ser_SeriesID (t_series d)) \<and> distinct (map ocr_ScheduleID (t_occurrences d))
     \<and> distinct (map (\<lambda>r. (ocr_SeriesID r, ocr_Index r)) (t_occurrences d))
     \<and> distinct (map ob_ID (t_outbox d))
     \<and> distinct (map (\<lambda>r. (cr_UserID r, cr_Key r)) (t_create_requests d))
     \<and> distinct (map (\<lambda>r. (mr_UserID r, mr_Operation r, mr_Key r)) (t_mutation_requests d))
     \<and> distinct (t_tombstones d) \<and> distinct (t_ai_users d)
     \<and> distinct (map ad_ID (t_admissions d)) \<and> distinct (map ex_ID (t_extractions d))"

definition linked :: "db \<Rightarrow> occurrence_row \<Rightarrow> bool" where
  "linked d r \<longleftrightarrow> (\<exists>z \<in> set (t_series d).
     ser_SeriesID z = ocr_SeriesID r \<and> owns d (ser_UserID z) (ocr_ScheduleID r))"

definition refs_ok :: "db \<Rightarrow> bool" where
  "refs_ok d \<longleftrightarrow> (\<forall>r \<in> set (t_reminders d). has_schedule d (rmr_ScheduleID r))
     \<and> (\<forall>r \<in> set (t_occurrences d). linked d r)"

definition row_ok :: "schedule_row \<Rightarrow> bool" where
  "row_ok s \<longleftrightarrow> 1 \<le> sr_Revision s \<and> sr_Revision s \<le> max_int64 \<and> status_ok (sr_Status s)
     \<and> source_ok (sr_Source s)"

definition db_wf :: "db \<Rightarrow> bool" where
  "db_wf d \<longleftrightarrow> keys_ok d \<and> refs_ok d \<and> (\<forall>s \<in> set (t_schedules d). row_ok s)
     \<and> (\<forall>r \<in> set (t_reminders d). channel_ok (rmr_Channel r))"

lemma db_wfI:
  "keys_ok d \<Longrightarrow> refs_ok d \<Longrightarrow> (\<And>s. s \<in> set (t_schedules d) \<Longrightarrow> row_ok s) \<Longrightarrow>
   (\<And>r. r \<in> set (t_reminders d) \<Longrightarrow> channel_ok (rmr_Channel r)) \<Longrightarrow> db_wf d"
  by (simp add: db_wf_def)

lemma db_wfD:
  assumes "db_wf d"
  shows "keys_ok d" and "refs_ok d" and "\<And>s. s \<in> set (t_schedules d) \<Longrightarrow> row_ok s"
    and "\<And>r. r \<in> set (t_reminders d) \<Longrightarrow> channel_ok (rmr_Channel r)"
  using assms by (simp_all add: db_wf_def)

lemma wf_schedule_unique:
  "db_wf d \<Longrightarrow> s \<in> set (t_schedules d) \<Longrightarrow> t \<in> set (t_schedules d) \<Longrightarrow> sr_ID s = sr_ID t \<Longrightarrow> s = t"
  using distinct_map_inj[of sr_ID "t_schedules d"] by (simp add: db_wf_def keys_ok_def)

lemma wf_series_unique:
  "db_wf d \<Longrightarrow> s \<in> set (t_series d) \<Longrightarrow> t \<in> set (t_series d) \<Longrightarrow> ser_SeriesID s = ser_SeriesID t \<Longrightarrow> s = t"
  using distinct_map_inj[of ser_SeriesID "t_series d"] by (simp add: db_wf_def keys_ok_def)

lemma owns_unique: "db_wf d \<Longrightarrow> owns d u sid \<Longrightarrow> owns d v sid \<Longrightarrow> u = v"
  unfolding owns_def by (metis wf_schedule_unique)

lemma wf_linked: "db_wf d \<Longrightarrow> r \<in> set (t_occurrences d) \<Longrightarrow> linked d r"
  by (simp add: db_wf_def refs_ok_def)

lemma linked_owner:
  assumes "db_wf d" and "linked d r" and "owns d v (ocr_ScheduleID r)"
    and "z \<in> set (t_series d)" and "ser_SeriesID z = ocr_SeriesID r"
  shows "ser_UserID z = v"
  using assms unfolding linked_def by (metis wf_series_unique owns_unique)

section \<open>The changes a request of one user makes\<close>

definition outbox_identity :: "outbox_row \<Rightarrow> uuid \<times> string \<times> uuid \<times> time \<times> payload \<times> (string \<times> string) list \<times> time" where
  "outbox_identity r = (ob_ID r, ob_Subject r, ob_ScheduleID r, ob_OccurredAt r, ob_Payload r,
     ob_Headers r, ob_CreatedAt r)"

definition reminders_of :: "db \<Rightarrow> uuid \<Rightarrow> reminder_row list" where
  "reminders_of d sid = filter (\<lambda>r. rmr_ScheduleID r = sid) (t_reminders d)"

definition reminder_fits :: "db \<Rightarrow> reminder_row \<Rightarrow> bool" where
  "reminder_fits d r \<longleftrightarrow> 0 \<le> rmr_MinutesBefore r \<and> rmr_MinutesBefore r \<le> 10080
     \<and> rmr_Channel r = ''telegram'' \<and> length (reminders_of d (rmr_ScheduleID r)) < 5
     \<and> (\<forall>q \<in> set (reminders_of d (rmr_ScheduleID r)).
          \<not> (rmr_MinutesBefore q = rmr_MinutesBefore r \<and> rmr_Channel q = rmr_Channel r))"

locale user_store =
  fixes u :: uuid and I :: "db \<Rightarrow> bool"
  assumes wf: "I d \<Longrightarrow> db_wf d"
    and insert_schedule: "I d \<Longrightarrow> sr_UserID s = u \<Longrightarrow> row_ok s \<Longrightarrow> \<not> has_schedule d (sr_ID s) \<Longrightarrow>
      I (d\<lparr>t_schedules := t_schedules d @ [s]\<rparr>)"
    and update_schedule: "I d \<Longrightarrow> (\<And>s. p s \<Longrightarrow> sr_UserID s = u) \<Longrightarrow>
      (\<And>s. sr_ID (f s) = sr_ID s \<and> sr_UserID (f s) = sr_UserID s) \<Longrightarrow>
      (\<And>s. s \<in> set (t_schedules d) \<Longrightarrow> p s \<Longrightarrow> row_ok (f s)) \<Longrightarrow>
      I (d\<lparr>t_schedules := upd_where p f (t_schedules d)\<rparr>)"
    and delete_schedules: "I d \<Longrightarrow> (\<And>s. p s \<Longrightarrow> sr_UserID s = u) \<Longrightarrow> I (del_schedules p d)"
    and insert_reminder: "I d \<Longrightarrow> owns d u (rmr_ScheduleID r) \<Longrightarrow>
      (\<forall>q \<in> set (t_reminders d). rmr_ID q \<noteq> rmr_ID r) \<Longrightarrow> reminder_fits d r \<Longrightarrow>
      I (d\<lparr>t_reminders := t_reminders d @ [r]\<rparr>)"
    and delete_reminders: "I d \<Longrightarrow> (\<And>r. pr r \<Longrightarrow> owns d u (rmr_ScheduleID r)) \<Longrightarrow>
      I (d\<lparr>t_reminders := filter (\<lambda>r. \<not> pr r) (t_reminders d)\<rparr>)"
    and insert_series: "I d \<Longrightarrow> ser_UserID z = u \<Longrightarrow>
      (\<forall>y \<in> set (t_series d). ser_SeriesID y \<noteq> ser_SeriesID z) \<Longrightarrow> I (d\<lparr>t_series := t_series d @ [z]\<rparr>)"
    and delete_series: "I d \<Longrightarrow> (\<And>z. z \<in> set (t_series d) \<Longrightarrow> pz z \<Longrightarrow> ser_UserID z = u) \<Longrightarrow> I (del_series pz d)"
    and insert_occurrence: "I d \<Longrightarrow> owns d u (ocr_ScheduleID oc) \<Longrightarrow>
      (\<exists>z \<in> set (t_series d). ser_SeriesID z = ocr_SeriesID oc \<and> ser_UserID z = u) \<Longrightarrow>
      (\<forall>q \<in> set (t_occurrences d). ocr_ScheduleID q \<noteq> ocr_ScheduleID oc
         \<and> (ocr_SeriesID q, ocr_Index q) \<noteq> (ocr_SeriesID oc, ocr_Index oc)) \<Longrightarrow>
      I (d\<lparr>t_occurrences := t_occurrences d @ [oc]\<rparr>)"
    and enqueue: "I d \<Longrightarrow> (\<forall>q \<in> set (t_outbox d). ob_ID q \<noteq> ob_ID b) \<Longrightarrow>
      I (d\<lparr>t_outbox := t_outbox d @ [b]\<rparr>)"
    and lease: "I d \<Longrightarrow> (\<And>r. outbox_identity (g r) = outbox_identity r) \<Longrightarrow>
      I (d\<lparr>t_outbox := upd_where q g (t_outbox d)\<rparr>)"
    and create_requests: "I d \<Longrightarrow> filter (\<lambda>r. cr_UserID r \<noteq> u) cs = filter (\<lambda>r. cr_UserID r \<noteq> u) (t_create_requests d) \<Longrightarrow>
      distinct (map (\<lambda>r. (cr_UserID r, cr_Key r)) cs) \<Longrightarrow> I (d\<lparr>t_create_requests := cs\<rparr>)"
    and mutation_requests: "I d \<Longrightarrow> filter (\<lambda>r. mr_UserID r \<noteq> u) ms = filter (\<lambda>r. mr_UserID r \<noteq> u) (t_mutation_requests d) \<Longrightarrow>
      distinct (map (\<lambda>r. (mr_UserID r, mr_Operation r, mr_Key r)) ms) \<Longrightarrow> I (d\<lparr>t_mutation_requests := ms\<rparr>)"

section \<open>Integrity is preserved\<close>

lemma has_schedule_simps [simp]:
  "has_schedule (d\<lparr>t_schedules := t_schedules d @ [s]\<rparr>) sid \<longleftrightarrow> has_schedule d sid \<or> sr_ID s = sid"
  "has_schedule (d\<lparr>t_reminders := rs\<rparr>) sid = has_schedule d sid"
  "has_schedule (d\<lparr>t_series := zs\<rparr>) sid = has_schedule d sid"
  "has_schedule (d\<lparr>t_occurrences := os\<rparr>) sid = has_schedule d sid"
  "has_schedule (d\<lparr>t_outbox := obs\<rparr>) sid = has_schedule d sid"
  "has_schedule (d\<lparr>t_create_requests := cs\<rparr>) sid = has_schedule d sid"
  "has_schedule (d\<lparr>t_mutation_requests := ms\<rparr>) sid = has_schedule d sid"
  by (auto simp: has_schedule_def)

lemma owns_simps [simp]:
  "owns (d\<lparr>t_schedules := t_schedules d @ [s]\<rparr>) v sid \<longleftrightarrow> owns d v sid \<or> sr_ID s = sid \<and> sr_UserID s = v"
  "owns (d\<lparr>t_reminders := rs\<rparr>) v sid = owns d v sid"
  "owns (d\<lparr>t_series := zs\<rparr>) v sid = owns d v sid"
  "owns (d\<lparr>t_occurrences := os\<rparr>) v sid = owns d v sid"
  "owns (d\<lparr>t_outbox := obs\<rparr>) v sid = owns d v sid"
  "owns (d\<lparr>t_create_requests := cs\<rparr>) v sid = owns d v sid"
  "owns (d\<lparr>t_mutation_requests := ms\<rparr>) v sid = owns d v sid"
  by (auto simp: owns_def)

lemma linked_simps [simp]:
  "linked (d\<lparr>t_reminders := rs\<rparr>) r = linked d r"
  "linked (d\<lparr>t_occurrences := os\<rparr>) r = linked d r"
  "linked (d\<lparr>t_outbox := obs\<rparr>) r = linked d r"
  "linked (d\<lparr>t_create_requests := cs\<rparr>) r = linked d r"
  "linked (d\<lparr>t_mutation_requests := ms\<rparr>) r = linked d r"
  by (auto simp: linked_def)

lemma linked_mono:
  "linked d r \<Longrightarrow> linked (d\<lparr>t_schedules := t_schedules d @ [s]\<rparr>) r"
  "linked d r \<Longrightarrow> linked (d\<lparr>t_series := t_series d @ [z]\<rparr>) r"
  by (auto simp: linked_def)

lemma has_schedule_upd:
  assumes "\<And>s. sr_ID (f s) = sr_ID s"
  shows "has_schedule (d\<lparr>t_schedules := upd_where p f (t_schedules d)\<rparr>) sid = has_schedule d sid"
  using assms by (auto simp: has_schedule_def upd_where_def)

lemma owns_upd:
  assumes "\<And>s. sr_ID (f s) = sr_ID s \<and> sr_UserID (f s) = sr_UserID s"
  shows "owns (d\<lparr>t_schedules := upd_where p f (t_schedules d)\<rparr>) v sid = owns d v sid"
  using assms by (auto simp: owns_def upd_where_def)

lemma linked_upd:
  assumes "\<And>s. sr_ID (f s) = sr_ID s \<and> sr_UserID (f s) = sr_UserID s"
  shows "linked (d\<lparr>t_schedules := upd_where p f (t_schedules d)\<rparr>) r = linked d r"
  by (simp add: linked_def owns_upd[OF assms])

lemma owns_has_schedule: "owns d v sid \<Longrightarrow> has_schedule d sid"
  by (auto simp: owns_def has_schedule_def)

lemma wf_insert_schedule:
  "db_wf d \<Longrightarrow> row_ok s \<Longrightarrow> \<not> has_schedule d (sr_ID s) \<Longrightarrow> db_wf (d\<lparr>t_schedules := t_schedules d @ [s]\<rparr>)"
  by (rule db_wfI) (auto simp: db_wf_def keys_ok_def refs_ok_def has_schedule_def intro: linked_mono)

lemma wf_update_schedule:
  assumes "db_wf d" and f: "\<And>s. sr_ID (f s) = sr_ID s \<and> sr_UserID (f s) = sr_UserID s"
    and "\<And>s. s \<in> set (t_schedules d) \<Longrightarrow> p s \<Longrightarrow> row_ok (f s)"
  shows "db_wf (d\<lparr>t_schedules := upd_where p f (t_schedules d)\<rparr>)"
  using assms
  by (intro db_wfI) (auto simp: db_wf_def keys_ok_def refs_ok_def map_upd_where has_schedule_upd linked_upd[OF f]
      elim!: in_set_upd_whereE)

lemma del_schedules_fields [simp]:
  "t_schedules (del_schedules p d) = filter (\<lambda>s. \<not> p s) (t_schedules d)"
  "t_series (del_schedules p d) = t_series d"
  "t_outbox (del_schedules p d) = t_outbox d"
  "t_create_requests (del_schedules p d) = t_create_requests d"
  "t_mutation_requests (del_schedules p d) = t_mutation_requests d"
  "t_tombstones (del_schedules p d) = t_tombstones d"
  "t_ai_users (del_schedules p d) = t_ai_users d"
  "t_admissions (del_schedules p d) = t_admissions d"
  "t_extractions (del_schedules p d) = t_extractions d"
  by (simp_all add: del_schedules_def Let_def)

lemma del_series_fields [simp]:
  "t_schedules (del_series q d) = t_schedules d"
  "t_reminders (del_series q d) = t_reminders d"
  "t_series (del_series q d) = filter (\<lambda>s. \<not> q s) (t_series d)"
  "t_outbox (del_series q d) = t_outbox d"
  "t_create_requests (del_series q d) = t_create_requests d"
  "t_mutation_requests (del_series q d) = t_mutation_requests d"
  "t_tombstones (del_series q d) = t_tombstones d"
  "t_ai_users (del_series q d) = t_ai_users d"
  "t_admissions (del_series q d) = t_admissions d"
  "t_extractions (del_series q d) = t_extractions d"
  by (simp_all add: del_series_def Let_def)

definition gone :: "(schedule_row \<Rightarrow> bool) \<Rightarrow> db \<Rightarrow> uuid \<Rightarrow> bool" where
  "gone p d sid \<longleftrightarrow> (\<exists>s \<in> set (t_schedules d). p s \<and> sr_ID s = sid)"

lemma del_schedules_cascade:
  "t_reminders (del_schedules p d) = filter (\<lambda>r. \<not> gone p d (rmr_ScheduleID r)) (t_reminders d)"
  "t_occurrences (del_schedules p d) = filter (\<lambda>r. \<not> gone p d (ocr_ScheduleID r)) (t_occurrences d)"
  by (simp_all add: del_schedules_def gone_def Let_def)

definition gone_series :: "(series_row \<Rightarrow> bool) \<Rightarrow> db \<Rightarrow> uuid \<Rightarrow> bool" where
  "gone_series q d sid \<longleftrightarrow> (\<exists>z \<in> set (t_series d). q z \<and> ser_SeriesID z = sid)"

lemma del_series_cascade:
  "t_occurrences (del_series q d) = filter (\<lambda>r. \<not> gone_series q d (ocr_SeriesID r)) (t_occurrences d)"
  by (simp add: del_series_def gone_series_def Let_def)

lemma owns_del_schedules: "owns d v sid \<Longrightarrow> \<not> gone p d sid \<Longrightarrow> owns (del_schedules p d) v sid"
  by (auto simp: owns_def gone_def)

lemma has_schedule_del_schedules: "has_schedule d sid \<Longrightarrow> \<not> gone p d sid \<Longrightarrow> has_schedule (del_schedules p d) sid"
  by (auto simp: has_schedule_def gone_def)

lemma owns_del_series [simp]: "owns (del_series q d) v sid = owns d v sid"
  by (simp add: owns_def)

lemma has_schedule_del_series [simp]: "has_schedule (del_series q d) sid = has_schedule d sid"
  by (simp add: has_schedule_def)

lemma linked_del_schedules: "linked d r \<Longrightarrow> \<not> gone p d (ocr_ScheduleID r) \<Longrightarrow> linked (del_schedules p d) r"
  by (auto simp: linked_def intro: owns_del_schedules)

lemma linked_del_series: "linked d r \<Longrightarrow> \<not> gone_series q d (ocr_SeriesID r) \<Longrightarrow> linked (del_series q d) r"
  by (auto simp: linked_def gone_series_def)

lemma wf_delete_schedules: "db_wf d \<Longrightarrow> db_wf (del_schedules p d)"
  by (rule db_wfI) (auto simp: db_wf_def keys_ok_def refs_ok_def del_schedules_cascade
      has_schedule_del_schedules linked_del_schedules)

lemma wf_insert_reminder:
  "db_wf d \<Longrightarrow> has_schedule d (rmr_ScheduleID r) \<Longrightarrow> \<forall>q \<in> set (t_reminders d). rmr_ID q \<noteq> rmr_ID r \<Longrightarrow>
   channel_ok (rmr_Channel r) \<Longrightarrow> db_wf (d\<lparr>t_reminders := t_reminders d @ [r]\<rparr>)"
  by (rule db_wfI) (auto simp: db_wf_def keys_ok_def refs_ok_def)

lemma wf_delete_reminders: "db_wf d \<Longrightarrow> db_wf (d\<lparr>t_reminders := filter p (t_reminders d)\<rparr>)"
  by (rule db_wfI) (auto simp: db_wf_def keys_ok_def refs_ok_def)

lemma wf_insert_series:
  "db_wf d \<Longrightarrow> \<forall>y \<in> set (t_series d). ser_SeriesID y \<noteq> ser_SeriesID z \<Longrightarrow> db_wf (d\<lparr>t_series := t_series d @ [z]\<rparr>)"
  by (rule db_wfI) (auto simp: db_wf_def keys_ok_def refs_ok_def intro: linked_mono)

lemma wf_delete_series: "db_wf d \<Longrightarrow> db_wf (del_series q d)"
  by (rule db_wfI) (auto simp: db_wf_def keys_ok_def refs_ok_def del_series_cascade linked_del_series)

lemma wf_insert_occurrence:
  assumes wf: "db_wf d" and o: "owns d u (ocr_ScheduleID r)"
    and z: "\<exists>z \<in> set (t_series d). ser_SeriesID z = ocr_SeriesID r \<and> ser_UserID z = u"
    and n: "\<forall>q \<in> set (t_occurrences d). ocr_ScheduleID q \<noteq> ocr_ScheduleID r
         \<and> (ocr_SeriesID q, ocr_Index q) \<noteq> (ocr_SeriesID r, ocr_Index r)"
  shows "db_wf (d\<lparr>t_occurrences := t_occurrences d @ [r]\<rparr>)"
proof (rule db_wfI)
  show "keys_ok (d\<lparr>t_occurrences := t_occurrences d @ [r]\<rparr>)"
    using wf n by (auto simp: db_wf_def keys_ok_def)
  have "linked d r" using o z unfolding linked_def by blast
  then show "refs_ok (d\<lparr>t_occurrences := t_occurrences d @ [r]\<rparr>)"
    using wf by (auto simp: db_wf_def refs_ok_def)
qed (use wf in \<open>auto simp: db_wf_def\<close>)

lemma wf_enqueue:
  "db_wf d \<Longrightarrow> \<forall>q \<in> set (t_outbox d). ob_ID q \<noteq> ob_ID r \<Longrightarrow> db_wf (d\<lparr>t_outbox := t_outbox d @ [r]\<rparr>)"
  by (rule db_wfI) (auto simp: db_wf_def keys_ok_def refs_ok_def)

lemma outbox_identity_ID: "outbox_identity a = outbox_identity b \<Longrightarrow> ob_ID a = ob_ID b"
  by (simp add: outbox_identity_def)

lemma wf_outbox_update:
  "db_wf d \<Longrightarrow> (\<And>r. ob_ID (g r) = ob_ID r) \<Longrightarrow> db_wf (d\<lparr>t_outbox := upd_where q g (t_outbox d)\<rparr>)"
  by (rule db_wfI) (auto simp: db_wf_def keys_ok_def refs_ok_def map_upd_where)

lemma wf_outbox_filter: "db_wf d \<Longrightarrow> db_wf (d\<lparr>t_outbox := filter q (t_outbox d)\<rparr>)"
  by (rule db_wfI) (auto simp: db_wf_def keys_ok_def refs_ok_def)

lemma wf_create_requests:
  "db_wf d \<Longrightarrow> distinct (map (\<lambda>r. (cr_UserID r, cr_Key r)) cs) \<Longrightarrow> db_wf (d\<lparr>t_create_requests := cs\<rparr>)"
  by (rule db_wfI) (auto simp: db_wf_def keys_ok_def refs_ok_def)

lemma wf_mutation_requests:
  "db_wf d \<Longrightarrow> distinct (map (\<lambda>r. (mr_UserID r, mr_Operation r, mr_Key r)) ms) \<Longrightarrow>
   db_wf (d\<lparr>t_mutation_requests := ms\<rparr>)"
  by (rule db_wfI) (auto simp: db_wf_def keys_ok_def refs_ok_def)

lemma telegram_channel_ok: "channel_ok ''telegram''"
  by (simp add: channel_ok_def)

lemmas wf_changes = wf_insert_schedule wf_update_schedule wf_delete_schedules wf_insert_reminder
  wf_delete_reminders wf_insert_series wf_delete_series wf_insert_occurrence wf_enqueue
  wf_outbox_update wf_create_requests wf_mutation_requests

interpretation integrity: user_store u db_wf for u
proof unfold_locales
  fix d r assume "db_wf d" "owns d u (rmr_ScheduleID r)" "\<forall>q \<in> set (t_reminders d). rmr_ID q \<noteq> rmr_ID r"
    "reminder_fits d r"
  then show "db_wf (d\<lparr>t_reminders := t_reminders d @ [r]\<rparr>)"
    by (intro wf_insert_reminder) (auto simp: reminder_fits_def telegram_channel_ok owns_has_schedule)
next
  fix d q and g :: "outbox_row \<Rightarrow> outbox_row"
  assume "db_wf d" and "\<And>r. outbox_identity (g r) = outbox_identity r"
  then show "db_wf (d\<lparr>t_outbox := upd_where q g (t_outbox d)\<rparr>)"
    by (intro wf_outbox_update) (auto intro: outbox_identity_ID)
qed (auto intro: wf_changes)

section \<open>Other users' data is untouched\<close>

text \<open>
  \<open>user_view v\<close> is everything the tables hold for the user \<open>v\<close>. The outbox belongs to no user: a
  request appends rows to it and its opportunistic dispatch changes only the lease, retry and
  publication columns.
\<close>

definition user_view :: "uuid \<Rightarrow> db \<Rightarrow> schedule_row list \<times> reminder_row list \<times> series_row list
    \<times> occurrence_row list \<times> create_request_row list \<times> mutation_request_row list \<times> uuid list
    \<times> uuid list \<times> admission_row list \<times> extraction_row list" where
  "user_view v d =
     (filter (\<lambda>s. sr_UserID s = v) (t_schedules d),
      filter (\<lambda>r. owns d v (rmr_ScheduleID r)) (t_reminders d),
      filter (\<lambda>z. ser_UserID z = v) (t_series d),
      filter (\<lambda>r. owns d v (ocr_ScheduleID r)) (t_occurrences d),
      filter (\<lambda>r. cr_UserID r = v) (t_create_requests d),
      filter (\<lambda>r. mr_UserID r = v) (t_mutation_requests d),
      filter (\<lambda>x. x = v) (t_tombstones d), filter (\<lambda>x. x = v) (t_ai_users d),
      filter (\<lambda>r. ad_UserID r = v) (t_admissions d), filter (\<lambda>r. ex_UserID r = v) (t_extractions d))"

definition isolated :: "uuid \<Rightarrow> db \<Rightarrow> db \<Rightarrow> bool" where
  "isolated u d0 d \<longleftrightarrow> db_wf d \<and> (\<forall>v. v \<noteq> u \<longrightarrow> user_view v d = user_view v d0)
     \<and> t_tombstones d = t_tombstones d0
     \<and> (\<exists>new. map outbox_identity (t_outbox d) = map outbox_identity (t_outbox d0) @ new)"

lemma isolated_wf: "isolated u d0 d \<Longrightarrow> db_wf d"
  by (simp add: isolated_def)

lemma isolated_change:
  assumes "isolated u d0 d" and "db_wf d'" and "\<And>v. v \<noteq> u \<Longrightarrow> user_view v d' = user_view v d"
    and "t_tombstones d' = t_tombstones d" and "t_outbox d' = t_outbox d"
  shows "isolated u d0 d'"
  using assms by (simp add: isolated_def)

lemma isolated_outbox:
  assumes "isolated u d0 d" and "db_wf (d\<lparr>t_outbox := rows\<rparr>)"
    and "\<exists>new. map outbox_identity rows = map outbox_identity (t_outbox d) @ new"
  shows "isolated u d0 (d\<lparr>t_outbox := rows\<rparr>)"
  using assms by (auto simp: isolated_def user_view_def)

lemma filter_view_of_others:
  assumes "filter (\<lambda>r. usr r \<noteq> u) xs = filter (\<lambda>r. usr r \<noteq> u) ys" and "v \<noteq> u"
  shows "filter (\<lambda>r. usr r = v) xs = filter (\<lambda>r. usr r = v) ys"
proof -
  have "filter (\<lambda>r. usr r = v) zs = filter (\<lambda>r. usr r = v) (filter (\<lambda>r. usr r \<noteq> u) zs)" for zs
    using assms(2) by (induction zs) auto
  then show ?thesis by (metis assms(1))
qed

lemma filter_drop_others: "(\<And>x. x \<in> set xs \<Longrightarrow> q x \<Longrightarrow> \<not> p x) \<Longrightarrow> filter q (filter (\<lambda>x. \<not> p x) xs) = filter q xs"
  by (induction xs) auto

lemma view_insert_schedule:
  "sr_UserID s = u \<Longrightarrow> v \<noteq> u \<Longrightarrow> user_view v (d\<lparr>t_schedules := t_schedules d @ [s]\<rparr>) = user_view v d"
  by (simp add: user_view_def)

lemma view_update_schedule:
  assumes "\<And>s. p s \<Longrightarrow> sr_UserID s = u" and f: "\<And>s. sr_ID (f s) = sr_ID s \<and> sr_UserID (f s) = sr_UserID s"
    and "v \<noteq> u"
  shows "user_view v (d\<lparr>t_schedules := upd_where p f (t_schedules d)\<rparr>) = user_view v d"
proof -
  have "filter (\<lambda>s. sr_UserID s = v) (upd_where p f (t_schedules d)) = filter (\<lambda>s. sr_UserID s = v) (t_schedules d)"
    using assms by (intro filter_upd_where_other) auto
  then show ?thesis by (simp add: user_view_def owns_upd[OF f])
qed

lemma gone_owner:
  assumes "db_wf d" and "\<And>s. p s \<Longrightarrow> sr_UserID s = u" and "gone p d sid"
  shows "owns d u sid"
  using assms(2,3) unfolding gone_def owns_def by blast

lemma view_delete_schedules:
  assumes wf: "db_wf d" and p: "\<And>s. p s \<Longrightarrow> sr_UserID s = u" and v: "v \<noteq> u"
  shows "user_view v (del_schedules p d) = user_view v d"
proof -
  have kept: "\<not> gone p d sid" if "owns d v sid" for sid
    using gone_owner[of d p u sid, OF wf p] owns_unique[OF wf that] v by blast
  have owns: "owns (del_schedules p d) v sid = owns d v sid" for sid
    using kept[of sid] owns_del_schedules[of d v sid p] by (auto simp: owns_def)
  show ?thesis
    using v p by (auto simp: user_view_def owns del_schedules_cascade dest: kept intro!: filter_cong)
qed

lemma view_insert_reminder:
  assumes "db_wf d" and "owns d u (rmr_ScheduleID r)" and "v \<noteq> u"
  shows "user_view v (d\<lparr>t_reminders := t_reminders d @ [r]\<rparr>) = user_view v d"
  using assms owns_unique[OF assms(1)] by (auto simp: user_view_def)

lemma view_delete_reminders:
  assumes "db_wf d" and "\<And>r. p r \<Longrightarrow> owns d u (rmr_ScheduleID r)" and "v \<noteq> u"
  shows "user_view v (d\<lparr>t_reminders := filter (\<lambda>r. \<not> p r) (t_reminders d)\<rparr>) = user_view v d"
proof -
  have "filter (\<lambda>r. owns d v (rmr_ScheduleID r)) (filter (\<lambda>r. \<not> p r) (t_reminders d))
      = filter (\<lambda>r. owns d v (rmr_ScheduleID r)) (t_reminders d)"
    using assms owns_unique[OF assms(1)] by (intro filter_drop_others) auto
  then show ?thesis by (simp add: user_view_def)
qed

lemma view_delete_series:
  assumes wf: "db_wf d" and p: "\<And>z. z \<in> set (t_series d) \<Longrightarrow> p z \<Longrightarrow> ser_UserID z = u" and v: "v \<noteq> u"
  shows "user_view v (del_series p d) = user_view v d"
proof -
  have "filter (\<lambda>r. owns d v (ocr_ScheduleID r)) (filter (\<lambda>r. \<not> gone_series p d (ocr_SeriesID r)) (t_occurrences d))
      = filter (\<lambda>r. owns d v (ocr_ScheduleID r)) (t_occurrences d)"
  proof (rule filter_drop_others)
    fix r assume "r \<in> set (t_occurrences d)" and o: "owns d v (ocr_ScheduleID r)"
    then have "linked d r" using wf wf_linked by blast
    with wf p v o show "\<not> gone_series p d (ocr_SeriesID r)"
      unfolding gone_series_def by (metis linked_owner)
  qed
  moreover have "filter (\<lambda>z. ser_UserID z = v) (filter (\<lambda>z. \<not> p z) (t_series d)) = filter (\<lambda>z. ser_UserID z = v) (t_series d)"
    using p v by (intro filter_drop_others) auto
  ultimately show ?thesis by (simp add: user_view_def del_series_cascade)
qed

lemma view_insert_occurrence:
  assumes "db_wf d" and "owns d u (ocr_ScheduleID r)" and "v \<noteq> u"
  shows "user_view v (d\<lparr>t_occurrences := t_occurrences d @ [r]\<rparr>) = user_view v d"
  using assms owns_unique[OF assms(1)] by (auto simp: user_view_def)

interpretation isolation: user_store u "isolated u d0" for u d0
proof unfold_locales
  show "isolated u d0 d \<Longrightarrow> db_wf d" for d
    by (rule isolated_wf)
  show "isolated u d0 (d\<lparr>t_schedules := t_schedules d @ [s]\<rparr>)"
    if "isolated u d0 d" "sr_UserID s = u" "row_ok s" "\<not> has_schedule d (sr_ID s)" for d s
    using isolated_wf[OF that(1)] that(2-) by (intro isolated_change[OF that(1)] wf_insert_schedule view_insert_schedule[of s u]) auto
  show "isolated u d0 (d\<lparr>t_schedules := upd_where p f (t_schedules d)\<rparr>)"
    if "isolated u d0 d" "\<And>s. p s \<Longrightarrow> sr_UserID s = u"
      "\<And>s. sr_ID (f s) = sr_ID s \<and> sr_UserID (f s) = sr_UserID s"
      "\<And>s. s \<in> set (t_schedules d) \<Longrightarrow> p s \<Longrightarrow> row_ok (f s)" for d p and f :: "schedule_row \<Rightarrow> schedule_row"
    using isolated_wf[OF that(1)] that(2-) by (auto intro!: isolated_change[OF that(1)] wf_changes view_update_schedule[of p u])
  show "isolated u d0 (del_schedules p d)" if "isolated u d0 d" "\<And>s. p s \<Longrightarrow> sr_UserID s = u" for d p
    using isolated_wf[OF that(1)] that(2-) by (auto intro!: isolated_change[OF that(1)] wf_changes view_delete_schedules[of d p u])
  show "isolated u d0 (d\<lparr>t_reminders := t_reminders d @ [r]\<rparr>)"
    if "isolated u d0 d" "owns d u (rmr_ScheduleID r)" "\<forall>q \<in> set (t_reminders d). rmr_ID q \<noteq> rmr_ID r"
      "reminder_fits d r" for d r
    using isolated_wf[OF that(1)] that(2-) integrity.insert_reminder[of d u r]
    by (auto intro!: isolated_change[OF that(1)] view_insert_reminder[of d u])
  show "isolated u d0 (d\<lparr>t_reminders := filter (\<lambda>r. \<not> p r) (t_reminders d)\<rparr>)"
    if "isolated u d0 d" "\<And>r. p r \<Longrightarrow> owns d u (rmr_ScheduleID r)" for d p
    using isolated_wf[OF that(1)] that(2-) by (auto intro!: isolated_change[OF that(1)] wf_changes view_delete_reminders[of d p u])
  show "isolated u d0 (d\<lparr>t_series := t_series d @ [z]\<rparr>)"
    if "isolated u d0 d" "ser_UserID z = u" "\<forall>y \<in> set (t_series d). ser_SeriesID y \<noteq> ser_SeriesID z" for d z
    using isolated_wf[OF that(1)] that(2-)
    by (intro isolated_change[OF that(1)] wf_insert_series) (auto simp: user_view_def)
  show "isolated u d0 (del_series p d)"
    if "isolated u d0 d" "\<And>z. z \<in> set (t_series d) \<Longrightarrow> p z \<Longrightarrow> ser_UserID z = u" for d p
    using isolated_wf[OF that(1)] that(2-) by (auto intro!: isolated_change[OF that(1)] wf_changes view_delete_series[of d p u])
  show "isolated u d0 (d\<lparr>t_occurrences := t_occurrences d @ [r]\<rparr>)"
    if "isolated u d0 d" "owns d u (ocr_ScheduleID r)"
      "\<exists>z \<in> set (t_series d). ser_SeriesID z = ocr_SeriesID r \<and> ser_UserID z = u"
      "\<forall>q \<in> set (t_occurrences d). ocr_ScheduleID q \<noteq> ocr_ScheduleID r
         \<and> (ocr_SeriesID q, ocr_Index q) \<noteq> (ocr_SeriesID r, ocr_Index r)" for d r
    using isolated_wf[OF that(1)] that(2-)
    by (intro isolated_change[OF that(1)] integrity.insert_occurrence[of d u] view_insert_occurrence[of d u]) simp_all
  show "isolated u d0 (d\<lparr>t_outbox := t_outbox d @ [r]\<rparr>)"
    if "isolated u d0 d" "\<forall>q \<in> set (t_outbox d). ob_ID q \<noteq> ob_ID r" for d r
    using isolated_wf[OF that(1)] that(2-) by (intro isolated_outbox[OF that(1)] wf_enqueue) (auto)
  show "isolated u d0 (d\<lparr>t_outbox := upd_where q g (t_outbox d)\<rparr>)"
    if "isolated u d0 d" "\<And>r. outbox_identity (g r) = outbox_identity r" for d q and g :: "outbox_row \<Rightarrow> outbox_row"
    using isolated_wf[OF that(1)] that(2-) integrity.lease[of d g q]
    by (intro isolated_outbox[OF that(1)]) (auto simp: map_upd_where)
  show "isolated u d0 (d\<lparr>t_create_requests := cs\<rparr>)"
    if "isolated u d0 d" "filter (\<lambda>r. cr_UserID r \<noteq> u) cs = filter (\<lambda>r. cr_UserID r \<noteq> u) (t_create_requests d)"
      "distinct (map (\<lambda>r. (cr_UserID r, cr_Key r)) cs)" for d cs
    using isolated_wf[OF that(1)] that(2-) filter_view_of_others[OF that(2)]
    by (auto intro!: isolated_change[OF that(1)] wf_changes simp: user_view_def)
  show "isolated u d0 (d\<lparr>t_mutation_requests := ms\<rparr>)"
    if "isolated u d0 d" "filter (\<lambda>r. mr_UserID r \<noteq> u) ms = filter (\<lambda>r. mr_UserID r \<noteq> u) (t_mutation_requests d)"
      "distinct (map (\<lambda>r. (mr_UserID r, mr_Operation r, mr_Key r)) ms)" for d ms
    using isolated_wf[OF that(1)] that(2-) filter_view_of_others[OF that(2)]
    by (auto intro!: isolated_change[OF that(1)] wf_changes simp: user_view_def)
qed

section \<open>Reminder limits\<close>

text \<open>
  Every schedule has at most five reminders, no two alike, each between zero minutes and a week
  ahead and on the Telegram channel.
\<close>

definition reminder_limits :: "db \<Rightarrow> bool" where
  "reminder_limits d \<longleftrightarrow> (\<forall>sid. length (reminders_of d sid) \<le> 5
     \<and> distinct (map (\<lambda>r. (rmr_MinutesBefore r, rmr_Channel r)) (reminders_of d sid))
     \<and> (\<forall>r \<in> set (reminders_of d sid). 0 \<le> rmr_MinutesBefore r \<and> rmr_MinutesBefore r \<le> 10080
          \<and> rmr_Channel r = ''telegram''))"

lemma reminders_of_append:
  "reminders_of (d\<lparr>t_reminders := t_reminders d @ [r]\<rparr>) sid
   = reminders_of d sid @ (if rmr_ScheduleID r = sid then [r] else [])"
  by (simp add: reminders_of_def)

lemma reminder_limits_shrink:
  assumes "reminder_limits d" and "t_reminders d' = filter q (t_reminders d)"
  shows "reminder_limits d'"
proof -
  have *: "reminders_of d' sid = filter q (reminders_of d sid)" for sid
    by (simp add: reminders_of_def assms(2) conj_commute)
  have "length (filter q (reminders_of d sid)) \<le> 5" for sid
    using assms(1) order_trans[OF length_filter_le] unfolding reminder_limits_def by blast
  then show ?thesis
    using assms(1) unfolding reminder_limits_def * by (auto intro: distinct_map_filter)
qed

lemma reminder_limits_same: "reminder_limits d \<Longrightarrow> t_reminders d' = t_reminders d \<Longrightarrow> reminder_limits d'"
  by (simp add: reminder_limits_def reminders_of_def)

lemma reminder_limits_insert:
  assumes "reminder_limits d" and "reminder_fits d r"
  shows "reminder_limits (d\<lparr>t_reminders := t_reminders d @ [r]\<rparr>)"
  using assms by (auto simp: reminder_limits_def reminder_fits_def reminders_of_append)

interpretation limits: user_store u "\<lambda>d. db_wf d \<and> reminder_limits d" for u
proof unfold_locales
  show "db_wf (d\<lparr>t_reminders := t_reminders d @ [r]\<rparr>) \<and> reminder_limits (d\<lparr>t_reminders := t_reminders d @ [r]\<rparr>)"
    if "db_wf d \<and> reminder_limits d" "owns d u (rmr_ScheduleID r)"
      "\<forall>q \<in> set (t_reminders d). rmr_ID q \<noteq> rmr_ID r" "reminder_fits d r" for d r
    using that integrity.insert_reminder[of d u r] reminder_limits_insert[of d r] by blast
  show "db_wf (del_schedules p d) \<and> reminder_limits (del_schedules p d)"
    if "db_wf d \<and> reminder_limits d" for d p
    using that by (auto intro: wf_delete_schedules reminder_limits_shrink simp: del_schedules_cascade)
  show "db_wf (d\<lparr>t_reminders := filter (\<lambda>r. \<not> p r) (t_reminders d)\<rparr>)
      \<and> reminder_limits (d\<lparr>t_reminders := filter (\<lambda>r. \<not> p r) (t_reminders d)\<rparr>)"
    if "db_wf d \<and> reminder_limits d" for d p
    using that by (auto intro: wf_delete_reminders reminder_limits_shrink)
  show "db_wf (d\<lparr>t_outbox := upd_where q g (t_outbox d)\<rparr>) \<and> reminder_limits (d\<lparr>t_outbox := upd_where q g (t_outbox d)\<rparr>)"
    if "db_wf d \<and> reminder_limits d" "\<And>r. outbox_identity (g r) = outbox_identity r"
    for d q and g :: "outbox_row \<Rightarrow> outbox_row"
    using that integrity.lease[of d g q] by (auto intro: reminder_limits_same)
qed (auto intro: wf_changes reminder_limits_same)

end
