(* ===== verification/Samples.thy ===== *)
theory Samples
  imports Integrity
begin

text \<open>
  A concrete environment and world on which the theorems are tried out: nothing fails, the clock
  advances by a millisecond with every statement, identifiers are consecutive numbers, every publish
  is acknowledged, and UTC is the only time zone.
\<close>

definition sample_env :: env where
  "sample_env = \<lparr>now_at = (\<lambda>n. int n * millisecond), fault_at = (\<lambda>_. False), locked_at = (\<lambda>_ _. False),
     uuid_at = (\<lambda>n. Some (word_of_nat (1000 + n))), publish_at = (\<lambda>_. PublishOk),
     load_location = (\<lambda>s. if s = ''UTC'' then Some utc_loc else None),
     dt3 = (\<lambda>t. (t + 500000) div millisecond * millisecond), dt0 = (\<lambda>t. (t + 500000000) div second * second),
     arg_time = (\<lambda>t. t), locate = (\<lambda>q s. q = s), sha256 = (\<lambda>s. word_of_nat (length s)),
     json_input = (\<lambda>i. Some (in_Title i)), json_payload = (\<lambda>_. ''{}''),
     uuid_string = (\<lambda>i. nat_digits (unat i)), key_collate = (\<lambda>k. k), trace_headers = [],
     request_id = ''req-1'', has_publisher = True\<rparr>"

definition sample_world :: "db \<Rightarrow> world" where
  "sample_world d = \<lparr>w_db = d, w_step = 0, w_ids = 0, w_pubs = 0, w_stream = [],
     w_mutations = (\<lambda>_. 0), w_published = (\<lambda>_. 0), w_publish_failed = (\<lambda>_. 0)\<rparr>"

lemma sample_env_simps [simp]:
  "now_at sample_env n = int n * millisecond" "fault_at sample_env n = False" "locked_at sample_env n i = False"
  "uuid_at sample_env n = Some (word_of_nat (1000 + n))" "publish_at sample_env n = PublishOk"
  "load_location sample_env s = (if s = ''UTC'' then Some utc_loc else None)"
  "dt3 sample_env t = (t + 500000) div millisecond * millisecond" "arg_time sample_env t = t"
  "sha256 sample_env s = word_of_nat (length s)" "json_input sample_env inp = Some (in_Title inp)"
  "json_payload sample_env p = ''{}''" "uuid_string sample_env i = nat_digits (unat i)"
  "key_collate sample_env k = k" "trace_headers sample_env = []" "request_id sample_env = ''req-1''"
  "has_publisher sample_env"
  by (simp_all add: sample_env_def)

lemma sample_world_simps [simp]:
  "w_db (sample_world d) = d" "w_step (sample_world d) = 0" "w_ids (sample_world d) = 0"
  "w_pubs (sample_world d) = 0" "w_stream (sample_world d) = []"
  by (simp_all add: sample_world_def)

definition sample_schedule :: schedule_row where
  "sample_schedule = \<lparr>sr_ID = 11, sr_UserID = 1, sr_Title = ''standup'', sr_Description = None,
     sr_Location = None, sr_StartAt = 0, sr_EndAt = Some hour, sr_AllDay = False,
     sr_Status = ''confirmed'', sr_Source = ''manual'', sr_ExtractionID = None, sr_CreatedAt = 0,
     sr_UpdatedAt = 0, sr_Revision = 3, sr_Timezone = ''UTC'', sr_StartDate = None, sr_EndDate = None\<rparr>"

definition sample_other :: schedule_row where
  "sample_other = sample_schedule\<lparr>sr_ID := 12, sr_UserID := 2, sr_Title := ''review''\<rparr>"

definition sample_reminder :: reminder_row where
  "sample_reminder = \<lparr>rmr_ID = 21, rmr_ScheduleID = 11, rmr_MinutesBefore = 30, rmr_Channel = ''telegram'',
     rmr_CreatedAt = 0\<rparr>"

definition sample_event :: outbox_row where
  "sample_event = \<lparr>ob_ID = 31, ob_Subject = SubjectScheduleDeleted, ob_ScheduleID = 10, ob_OccurredAt = 0,
     ob_Payload = PDeletedEvent \<lparr>dev_ScheduleID = ''10'', dev_UserID = ''1'', dev_OccurredAt = 0, dev_Revision = 2\<rparr>,
     ob_Headers = [], ob_Attempts = 0, ob_AvailableAt = 0, ob_LockedUntil = None, ob_LockedBy = None,
     ob_LastError = None, ob_PublishedAt = None, ob_CreatedAt = 0\<rparr>"

text \<open>User 1 has a schedule with a reminder, user 2 another schedule; one event waits.\<close>

definition sample_db :: db where
  "sample_db = empty_db\<lparr>t_schedules := [sample_schedule, sample_other], t_reminders := [sample_reminder],
     t_outbox := [sample_event]\<rparr>"

lemmas sample_defs = sample_db_def sample_schedule_def sample_other_def sample_reminder_def sample_event_def empty_db_def

lemma sample_db_wf: "db_wf sample_db"
  by code_simp

lemma sample_db_limits: "reminder_limits sample_db"
proof -
  have "reminders_of sample_db sid = (if sid = 11 then [sample_reminder] else [])" for sid
    by (simp add: reminders_of_def sample_defs)
  then show ?thesis by (auto simp: reminder_limits_def sample_reminder_def)
qed

lemma sample_time_ok [simp]: "0 \<le> t \<Longrightarrow> t < day \<Longrightarrow> json_time_ok t"
proof -
  assume "0 \<le> t" and "t < day"
  then have "t div day = 0" by simp
  moreover have "in_years 0" by code_simp
  ultimately show ?thesis by (simp add: json_time_ok_def)
qed

text \<open>Unfolding a program for a run on the samples.\<close>

lemma run_app:
  "bnd m k e w = (case m e w of (Inl er, w') \<Rightarrow> (Inl er, w') | (Inr x, w') \<Rightarrow> k x e w')"
  "rescue m h e w = (case m e w of (Inl er, w') \<Rightarrow> h er e w' | (Inr x, w') \<Rightarrow> (Inr x, w'))"
  "ret x e w = (Inr x, w)" "fail er e w = (Inl er, w)" "ask g e w = (Inr (g e), w)" "lift r e w = (r, w)"
  "guard b er e w = (if b then (Inr (), w) else (Inl er, w))"
  "new_uuid e w = (case uuid_at e (w_ids w) of None \<Rightarrow> (Inl UUIDError, w\<lparr>w_ids := Suc (w_ids w)\<rparr>)
     | Some i \<Rightarrow> (Inr i, w\<lparr>w_ids := Suc (w_ids w)\<rparr>))"
  by (simp_all add: bnd_def rescue_def ret_def fail_def ask_def lift_def guard_def new_uuid_def Let_def)

lemma sql_app:
  "\<not> fault_at e (w_step w) \<Longrightarrow> sql f e w = (case f e (w_step w) (w_db w) of
     Inl er \<Rightarrow> (Inl er, w\<lparr>w_step := Suc (w_step w)\<rparr>) | Inr (x, d) \<Rightarrow> (Inr x, w\<lparr>w_step := Suc (w_step w), w_db := d\<rparr>))"
  "\<not> fault_at e (w_step w) \<Longrightarrow> query q e w = (Inr (q (w_db w)), w\<lparr>w_step := Suc (w_step w)\<rparr>)"
  "\<not> fault_at e (w_step w) \<Longrightarrow> exec g e w = (Inr (), w\<lparr>w_step := Suc (w_step w), w_db := g (w_db w)\<rparr>)"
  "\<not> fault_at e (w_step w) \<Longrightarrow> db_now e w = (Inr (now_at e (w_step w)), w\<lparr>w_step := Suc (w_step w)\<rparr>)"
  "\<not> fault_at e (w_step w) \<Longrightarrow> exec_now gt e w = (Inr (), w\<lparr>w_step := Suc (w_step w), w_db := gt (now_at e (w_step w)) (w_db w)\<rparr>)"
  by (simp_all add: sql_def query_def exec_def db_now_def exec_now_def Let_def)

lemma run_tx_app:
  "\<not> fault_at e (w_step w) \<Longrightarrow> isl (fst (run_tx body e w)) =
     (case body e (w\<lparr>w_step := Suc (w_step w)\<rparr>) of
        (Inl er, w2) \<Rightarrow> True | (Inr (Early x), w2) \<Rightarrow> False | (Inr (Commit x), w2) \<Rightarrow> fault_at e (w_step w2))"
  by (auto simp: run_tx_def Let_def split: prod.splits sum.splits outcome.splits)

lemma success_run: "\<not> isl (fst p) \<Longrightarrow> \<exists>x w'. p = (Inr x, w')"
  by (metis isl_def prod.collapse sum.exhaust)

end
