(* ===== verification/Outbox.thy ===== *)
theory Outbox
  imports Samples
begin

text \<open>
  The transactional outbox: \<open>internal/outbox/outbox.go\<close> (enqueue, claim under a lease, publish,
  mark or reschedule, the draining loop), \<open>internal/events/publisher.go\<close> (the message that is sent
  and its deduplication identifier) and \<open>internal/service/events.go\<close> (the events of the service).
\<close>

section \<open>The published message\<close>

text \<open>\<open>time.RFC3339Nano\<close> in UTC drops the trailing zeros of the fraction.\<close>

definition strip_zeros :: "string \<Rightarrow> string" where
  "strip_zeros s = rev (dropWhile (\<lambda>c. c = CHR ''0'') (rev s))"

definition format_rfc3339nano :: "time \<Rightarrow> string" where
  "format_rfc3339nano t = format_local t @
     (if t mod second = 0 then [] else ''.'' @ strip_zeros (append_int (t mod second) 9)) @ ''Z''"

definition hex_digit :: "nat \<Rightarrow> char" where
  "hex_digit n = (if n < 10 then char_of (48 + n) else char_of (87 + n))"

fun hex_of :: "nat \<Rightarrow> nat \<Rightarrow> string" where
  "hex_of 0 n = []"
| "hex_of (Suc k) n = hex_of k (n div 16) @ [hex_digit (n mod 16)]"

definition dedupID :: "string \<Rightarrow> string \<Rightarrow> time \<Rightarrow> hash \<Rightarrow> string" where
  "dedupID subject scheduleID occurredAt digest =
     subject @ '':'' @ scheduleID @ '':'' @ format_rfc3339nano occurredAt @ '':'' @ hex_of 64 (unat digest)"

definition set_header :: "string \<Rightarrow> string \<Rightarrow> (string \<times> string) list \<Rightarrow> (string \<times> string) list" where
  "set_header k v hs = filter (\<lambda>h. fst h \<noteq> k) hs @ [(k, v)]"

definition message_of :: "env \<Rightarrow> string \<Rightarrow> string \<Rightarrow> time \<Rightarrow> payload \<Rightarrow> (string \<times> string) list \<Rightarrow> message" where
  "message_of e subject scheduleID occurredAt data headers =
     \<lparr>msg_Subject = subject,
      msg_ID = dedupID subject scheduleID occurredAt (sha256 e (json_payload e data)),
      msg_Payload = data,
      msg_Headers = fold (\<lambda>h. set_header (fst h) (snd h)) (if headers = [] then trace_headers e else headers)
        [(''Content-Type'', ''application/json'')]\<rparr>"

datatype publish_error = DeadlineExceeded | PublishError

text \<open>The result is \<open>None\<close> when JetStream acknowledged the message.\<close>

definition publishData :: "string \<Rightarrow> string \<Rightarrow> time \<Rightarrow> payload \<Rightarrow> (string \<times> string) list \<Rightarrow> publish_error option tx" where
  "publishData subject scheduleID occurredAt data headers = (\<lambda>e w.
     let msg = message_of e subject scheduleID occurredAt data headers;
         w1 = w\<lparr>w_pubs := Suc (w_pubs w)\<rparr>;
         failed = (\<lambda>w. w\<lparr>w_publish_failed := (w_publish_failed w)(subject := w_publish_failed w subject + 1)\<rparr>);
         store = (\<lambda>w. w\<lparr>w_stream := w_stream w @ [msg]\<rparr>)
     in case publish_at e (w_pubs w) of
          NotConnected \<Rightarrow> (Inr (Some PublishError), failed w1)
        | PublishTimeout stored \<Rightarrow> (Inr (Some DeadlineExceeded), failed (if stored then store w1 else w1))
        | PublishFailed stored \<Rightarrow> (Inr (Some PublishError), failed (if stored then store w1 else w1))
        | PublishOk \<Rightarrow> (Inr None, (store w1)\<lparr>w_published := (w_published w)(subject := w_published w subject + 1)\<rparr>))"

section \<open>Enqueue\<close>

definition outbox_headers :: "env \<Rightarrow> (string \<times> string) list" where
  "outbox_headers e = (if request_id e = [] then trace_headers e
     else set_header ''x-request-id'' (request_id e) (trace_headers e))"

definition new_outbox_row :: "env \<Rightarrow> time \<Rightarrow> uuid \<Rightarrow> string \<Rightarrow> uuid \<Rightarrow> time \<Rightarrow> payload \<Rightarrow> outbox_row" where
  "new_outbox_row e now oid subject scheduleID occurredAt pl =
     \<lparr>ob_ID = oid, ob_Subject = subject, ob_ScheduleID = scheduleID, ob_OccurredAt = dt3 e occurredAt,
      ob_Payload = pl, ob_Headers = outbox_headers e, ob_Attempts = 0, ob_AvailableAt = now,
      ob_LockedUntil = None, ob_LockedBy = None, ob_LastError = None, ob_PublishedAt = None, ob_CreatedAt = now\<rparr>"

definition Enqueue :: "string \<Rightarrow> uuid \<Rightarrow> time \<Rightarrow> payload \<Rightarrow> unit tx" where
  "Enqueue subject scheduleID occurredAt pl =
     bnd (guard (json_payload_ok pl) JSONError) (\<lambda>_.
     bnd new_uuid (\<lambda>oid.
     sql (\<lambda>e n d.
       if \<exists>r \<in> set (t_outbox d). ob_ID r = oid then Inl MySQLDuplicate
       else Inr ((), d\<lparr>t_outbox := t_outbox d @
         [new_outbox_row e (now_at e n) oid subject scheduleID occurredAt pl]\<rparr>))))"

lemma new_outbox_row_simps [simp]:
  "ob_ID (new_outbox_row e now oid s i t p) = oid" "ob_Subject (new_outbox_row e now oid s i t p) = s"
  "ob_ScheduleID (new_outbox_row e now oid s i t p) = i" "ob_Payload (new_outbox_row e now oid s i t p) = p"
  "ob_PublishedAt (new_outbox_row e now oid s i t p) = None" "ob_Attempts (new_outbox_row e now oid s i t p) = 0"
  by (simp_all add: new_outbox_row_def)

lemma Enqueue_run [tx_run]:
  "Enqueue s i t p e w = (Inr (), w') \<longleftrightarrow> json_payload_ok p \<and> \<not> fault_at e (w_step w) \<and>
     (\<exists>oid. uuid_at e (w_ids w) = Some oid \<and> (\<forall>r \<in> set (t_outbox (w_db w)). ob_ID r \<noteq> oid)
        \<and> w' = w\<lparr>w_ids := Suc (w_ids w), w_step := Suc (w_step w), w_db := (w_db w)\<lparr>t_outbox := t_outbox (w_db w) @
            [new_outbox_row e (now_at e (w_step w)) oid s i t p]\<rparr>\<rparr>)"
  by (auto simp: Enqueue_def tx_run split: if_splits)

section \<open>Claim, publish, settle\<close>

record claimedEvent =
  ce_id :: uuid
  ce_lockID :: uuid
  ce_subject :: string
  ce_scheduleID :: string
  ce_occurredAt :: time
  ce_payload :: payload
  ce_headers :: "(string \<times> string) list"

definition due :: "time \<Rightarrow> outbox_row \<Rightarrow> bool" where
  "due now r \<longleftrightarrow> ob_PublishedAt r = None \<and> ob_AvailableAt r \<le> now
     \<and> (case ob_LockedUntil r of None \<Rightarrow> True | Some t \<Rightarrow> t < now)"

definition dispatch_le :: "outbox_row \<Rightarrow> outbox_row \<Rightarrow> bool" where
  "dispatch_le a b \<longleftrightarrow> ob_AvailableAt a < ob_AvailableAt b
     \<or> ob_AvailableAt a = ob_AvailableAt b \<and> ob_CreatedAt a \<le> ob_CreatedAt b"

definition next_due :: "time \<Rightarrow> (uuid \<Rightarrow> bool) \<Rightarrow> outbox_row list \<Rightarrow> outbox_row option" where
  "next_due now locked rows =
     (case sort_by dispatch_le (filter (\<lambda>r. due now r \<and> \<not> locked (ob_ID r)) rows) of
        [] \<Rightarrow> None | r # _ \<Rightarrow> Some r)"

definition lease_row :: "time \<Rightarrow> uuid \<Rightarrow> outbox_row \<Rightarrow> outbox_row" where
  "lease_row now lockID r = r\<lparr>ob_LockedBy := Some lockID, ob_LockedUntil := Some (now + 30 * second)\<rparr>"

definition mark_row :: "time \<Rightarrow> outbox_row \<Rightarrow> outbox_row" where
  "mark_row now r = r\<lparr>ob_PublishedAt := Some now, ob_LockedUntil := None, ob_LockedBy := None, ob_LastError := None\<rparr>"

text \<open>
  An \<open>UPDATE\<close> assigns from left to right, so the delay is computed from the attempts already
  incremented.
\<close>

definition backoff :: "int \<Rightarrow> int" where
  "backoff attempts = min 300 (2 ^ nat (min (attempts + 1) 8))"

definition reschedule_row :: "time \<Rightarrow> string \<Rightarrow> outbox_row \<Rightarrow> outbox_row" where
  "reschedule_row now failure r =
     (let attempts = ob_Attempts r + 1
      in r\<lparr>ob_Attempts := attempts, ob_AvailableAt := now + backoff attempts * second,
           ob_LockedUntil := None, ob_LockedBy := None, ob_LastError := Some failure\<rparr>)"

definition held :: "uuid \<Rightarrow> uuid \<Rightarrow> outbox_row \<Rightarrow> bool" where
  "held oid lockID r \<longleftrightarrow> ob_ID r = oid \<and> ob_LockedBy r = Some lockID"

definition claim :: "claimedEvent option tx" where
  "claim = bnd (run_tx (
     bnd (sql (\<lambda>e n d. Inr (next_due (now_at e n) (locked_at e n) (t_outbox d), d))) (\<lambda>row.
     case row of
       None \<Rightarrow> ret (Commit None)
     | Some r \<Rightarrow>
         bnd (ask uuid_string) (\<lambda>str.
         bnd new_uuid (\<lambda>lockID.
         bnd (exec_now (\<lambda>now d. d\<lparr>t_outbox := upd_where (\<lambda>q. ob_ID q = ob_ID r) (lease_row now lockID) (t_outbox d)\<rparr>)) (\<lambda>_.
         ret (Commit (Some \<lparr>ce_id = ob_ID r, ce_lockID = lockID, ce_subject = ob_Subject r,
           ce_scheduleID = str (ob_ScheduleID r), ce_occurredAt = ob_OccurredAt r,
           ce_payload = ob_Payload r, ce_headers = ob_Headers r\<rparr>))))))))
     (\<lambda>r. ret (outcome_value r))"

fun safePublishFailure :: "publish_error \<Rightarrow> string" where
  "safePublishFailure DeadlineExceeded = ''publish_timeout''"
| "safePublishFailure PublishError = ''publish_failed''"

definition reschedule :: "claimedEvent \<Rightarrow> publish_error \<Rightarrow> unit tx" where
  "reschedule evt publishErr = sql (\<lambda>e n d.
     if \<exists>r \<in> set (t_outbox d). held (ce_id evt) (ce_lockID evt) r \<and> 2 ^ 31 - 1 \<le> ob_Attempts r then Inl DBError
     else Inr ((), d\<lparr>t_outbox := upd_where (held (ce_id evt) (ce_lockID evt))
       (reschedule_row (now_at e n) (safePublishFailure publishErr)) (t_outbox d)\<rparr>))"

definition mark_published :: "claimedEvent \<Rightarrow> unit tx" where
  "mark_published evt = exec_now (\<lambda>now d.
     d\<lparr>t_outbox := upd_where (held (ce_id evt) (ce_lockID evt)) (mark_row now) (t_outbox d)\<rparr>)"

definition DispatchOnce :: "bool tx" where
  "DispatchOnce = bnd (ask has_publisher) (\<lambda>pub.
     if \<not> pub then ret False
     else bnd claim (\<lambda>claimed.
       case claimed of
         None \<Rightarrow> ret False
       | Some evt \<Rightarrow>
           bnd (publishData (ce_subject evt) (ce_scheduleID evt) (ce_occurredAt evt) (ce_payload evt) (ce_headers evt)) (\<lambda>err.
           case err of
             None \<Rightarrow> bnd (mark_published evt) (\<lambda>_. ret True)
           | Some er \<Rightarrow> bnd (reschedule evt er) (\<lambda>_. ret True))))"

text \<open>
  The inner loop of \<open>Run\<close>: dispatch until there is nothing left to claim or a dispatch fails. The
  result is \<open>False\<close> only when the fuel runs out.
\<close>

fun drain :: "nat \<Rightarrow> bool tx" where
  "drain 0 = ret False"
| "drain (Suc n) = rescue (bnd DispatchOnce (\<lambda>worked. if worked then drain n else ret True)) (\<lambda>_. ret True)"

text \<open>\<open>Run\<close> drains at the start and then at every tick until the context is cancelled.\<close>

fun Run :: "nat \<Rightarrow> nat \<Rightarrow> unit tx" where
  "Run fuel 0 = bnd (drain fuel) (\<lambda>_. ret ())"
| "Run fuel (Suc ticks) = bnd (drain fuel) (\<lambda>_. Run fuel ticks)"

definition dispatchOutbox :: "unit tx" where
  "dispatchOutbox = rescue (bnd DispatchOnce (\<lambda>_. ret ())) (\<lambda>_. ret ())"

section \<open>The events of the service\<close>

definition occurredAtTx :: "time tx" where
  "occurredAtTx = db_now"

definition toScheduleEvent :: "(uuid \<Rightarrow> string) \<Rightarrow> Schedule \<Rightarrow> time \<Rightarrow> ScheduleEvent" where
  "toScheduleEvent str sch occurredAt = \<lparr>ev_ScheduleID = str (s_ID sch), ev_UserID = str (s_UserID sch),
     ev_Title = s_Title sch, ev_StartAt = s_StartAt sch, ev_EndAt = s_EndAt sch, ev_AllDay = s_AllDay sch,
     ev_Timezone = s_Timezone sch, ev_StartDate = s_StartDate sch, ev_EndDate = s_EndDate sch,
     ev_Source = s_Source sch, ev_Status = s_Status sch, ev_Revision = s_Revision sch,
     ev_Reminders = map (\<lambda>r. \<lparr>rs_MinutesBefore = rem_MinutesBefore r, rs_Channel = rem_Channel r\<rparr>) (s_Reminders sch),
     ev_OccurredAt = occurredAt\<rparr>"

definition enqueueScheduleEvent :: "string \<Rightarrow> Schedule \<Rightarrow> unit tx" where
  "enqueueScheduleEvent subject sch =
     bnd occurredAtTx (\<lambda>occurredAt.
     bnd (ask uuid_string) (\<lambda>str.
     Enqueue subject (s_ID sch) occurredAt (PScheduleEvent (toScheduleEvent str sch occurredAt))))"

definition enqueueDeletedEvent :: "uuid \<Rightarrow> uuid \<Rightarrow> time \<Rightarrow> int \<Rightarrow> unit tx" where
  "enqueueDeletedEvent scheduleID userID occurredAt revision =
     bnd (ask uuid_string) (\<lambda>str.
     Enqueue SubjectScheduleDeleted scheduleID occurredAt
       (PDeletedEvent \<lparr>dev_ScheduleID = str scheduleID, dev_UserID = str userID,
          dev_OccurredAt = occurredAt, dev_Revision = revision\<rparr>))"

text \<open>The outbox rows that stand for a change of a schedule and for its deletion.\<close>

definition schedule_event :: "env \<Rightarrow> string \<Rightarrow> Schedule \<Rightarrow> outbox_row \<Rightarrow> bool" where
  "schedule_event e subject sch r \<longleftrightarrow> ob_Subject r = subject \<and> ob_ScheduleID r = s_ID sch \<and> ob_PublishedAt r = None
     \<and> (\<exists>t. ob_Payload r = PScheduleEvent (toScheduleEvent (uuid_string e) sch t))"

definition deleted_event :: "env \<Rightarrow> uuid \<Rightarrow> uuid \<Rightarrow> int \<Rightarrow> outbox_row \<Rightarrow> bool" where
  "deleted_event e scheduleID userID revision r \<longleftrightarrow> ob_Subject r = SubjectScheduleDeleted \<and> ob_ScheduleID r = scheduleID
     \<and> ob_PublishedAt r = None \<and> (\<exists>t. ob_Payload r = PDeletedEvent \<lparr>dev_ScheduleID = uuid_string e scheduleID,
         dev_UserID = uuid_string e userID, dev_OccurredAt = t, dev_Revision = revision\<rparr>)"

lemma enqueueScheduleEvent_effect:
  assumes "enqueueScheduleEvent subject sch e w = (Inr (), w')"
  obtains r where "schedule_event e subject sch r" and "w_db w' = (w_db w)\<lparr>t_outbox := t_outbox (w_db w) @ [r]\<rparr>"
proof -
  from assms obtain oid t where "w_db w' = (w_db w)\<lparr>t_outbox := t_outbox (w_db w) @ [new_outbox_row e (now_at e (Suc (w_step w)))
      oid subject (s_ID sch) t (PScheduleEvent (toScheduleEvent (uuid_string e) sch t))]\<rparr>"
    by (auto simp: enqueueScheduleEvent_def occurredAtTx_def tx_run)
  then show thesis by (intro that) (auto simp: schedule_event_def)
qed

lemma enqueueDeletedEvent_effect:
  assumes "enqueueDeletedEvent sid u t n e w = (Inr (), w')"
  obtains r where "deleted_event e sid u n r" and "w_db w' = (w_db w)\<lparr>t_outbox := t_outbox (w_db w) @ [r]\<rparr>"
proof -
  from assms obtain oid where "w_db w' = (w_db w)\<lparr>t_outbox := t_outbox (w_db w) @ [new_outbox_row e (now_at e (w_step w))
      oid SubjectScheduleDeleted sid t (PDeletedEvent \<lparr>dev_ScheduleID = uuid_string e sid,
         dev_UserID = uuid_string e u, dev_OccurredAt = t, dev_Revision = n\<rparr>)]\<rparr>"
    by (auto simp: enqueueDeletedEvent_def tx_run)
  then show thesis by (intro that) (auto simp: deleted_event_def)
qed

definition FollowupAvailable :: "bool \<Rightarrow> bool tx" where
  "FollowupAvailable connected =
     bnd (ask has_publisher) (\<lambda>pub.
     if \<not> pub \<or> \<not> connected then ret False
     else sql (\<lambda>e n d. Inr (\<not> (\<exists>r \<in> set (t_outbox d).
       ob_PublishedAt r = None \<and> ob_CreatedAt r \<le> now_at e n - 5 * second), d)))"

section \<open>What dispatching may change\<close>

lemma outbox_identity_rows [simp]:
  "outbox_identity (lease_row now l r) = outbox_identity r"
  "outbox_identity (mark_row now r) = outbox_identity r"
  "outbox_identity (reschedule_row now msg r) = outbox_identity r"
  by (simp_all add: outbox_identity_def lease_row_def mark_row_def reschedule_row_def Let_def)

text \<open>Dispatching leaves every table but the outbox alone and keeps the events in it.\<close>

definition lease_only :: "db \<Rightarrow> db \<Rightarrow> bool" where
  "lease_only a b \<longleftrightarrow> b\<lparr>t_outbox := []\<rparr> = a\<lparr>t_outbox := []\<rparr>
     \<and> map outbox_identity (t_outbox b) = map outbox_identity (t_outbox a)"

interpretation lease: db_relation lease_only
  by unfold_locales (auto simp: lease_only_def)

lemma lease_only_upd:
  "(\<And>r. outbox_identity (g r) = outbox_identity r) \<Longrightarrow> lease_only d (d\<lparr>t_outbox := upd_where q g (t_outbox d)\<rparr>)"
  by (simp add: lease_only_def map_upd_where)

lemma w_db_publishData [simp]: "w_db (snd (publishData s i t p h e w)) = w_db w"
  by (simp add: publishData_def Let_def split: publish_result.split)

context db_relation
begin

lemma steps_publishData [tx_steps]: "steps R (publishData s i t p h)"
  by (simp add: steps_def R_refl)

text \<open>A relation that the lease updates respect is respected by dispatching.\<close>

lemma steps_DispatchOnce:
  assumes "\<And>d q g. (\<And>r. outbox_identity (g r) = outbox_identity r) \<Longrightarrow> R d (d\<lparr>t_outbox := upd_where q g (t_outbox d)\<rparr>)"
  shows "steps R DispatchOnce"
  unfolding DispatchOnce_def claim_def mark_published_def reschedule_def
  by (intro tx_steps) (auto simp: R_refl assms split: if_splits)

lemma steps_dispatchOutbox:
  assumes "\<And>d q g. (\<And>r. outbox_identity (g r) = outbox_identity r) \<Longrightarrow> R d (d\<lparr>t_outbox := upd_where q g (t_outbox d)\<rparr>)"
  shows "steps R dispatchOutbox"
  unfolding dispatchOutbox_def by (intro tx_steps steps_DispatchOnce assms)

lemma steps_drain:
  assumes "\<And>d q g. (\<And>r. outbox_identity (g r) = outbox_identity r) \<Longrightarrow> R d (d\<lparr>t_outbox := upd_where q g (t_outbox d)\<rparr>)"
  shows "steps R (drain n)"
  by (induction n) (auto intro!: steps_ret steps_rescue steps_bnd steps_DispatchOnce assms)

end

lemmas lease_steps_DispatchOnce = lease.steps_DispatchOnce[OF lease_only_upd]
lemmas lease_steps_dispatchOutbox = lease.steps_dispatchOutbox[OF lease_only_upd]
lemmas lease_steps_drain = lease.steps_drain[OF lease_only_upd]

lemma dispatchOutbox_total: "fst (dispatchOutbox e w) = Inr ()"
  by (simp add: dispatchOutbox_def rescue_def ret_def split: prod.split sum.split)

context user_store
begin

lemma keeps_dispatchOutbox: "steps (keeps I) dispatchOutbox"
  by (rule keeps.steps_dispatchOutbox) (auto simp: keeps_def intro: lease)

lemma keeps_drain: "steps (keeps I) (drain n)"
  by (rule keeps.steps_drain) (auto simp: keeps_def intro: lease)

lemma hoare_Enqueue: "hoare I (Enqueue s i t p) (\<lambda>_. I)"
  unfolding Enqueue_def
  by (intro hoare_seq hoare_idle hoare_sql) (auto split: if_splits intro!: enqueue)

lemma hoare_enqueueScheduleEvent: "hoare I (enqueueScheduleEvent s sch) (\<lambda>_. I)"
  unfolding enqueueScheduleEvent_def occurredAtTx_def
  by (intro hoare_seq hoare_idle hoare_Enqueue)

lemma hoare_enqueueDeletedEvent: "hoare I (enqueueDeletedEvent i u' t v) (\<lambda>_. I)"
  unfolding enqueueDeletedEvent_def by (intro hoare_seq hoare_idle hoare_Enqueue)

end

section \<open>Selection\<close>

lemma next_due_head:
  assumes "next_due now locked rows = Some r"
  obtains rest where "sort_by dispatch_le (filter (\<lambda>r. due now r \<and> \<not> locked (ob_ID r)) rows) = r # rest"
    and "insert r (set rest) = {r \<in> set rows. due now r \<and> \<not> locked (ob_ID r)}"
proof -
  from assms obtain rest
    where *: "sort_by dispatch_le (filter (\<lambda>r. due now r \<and> \<not> locked (ob_ID r)) rows) = r # rest"
    by (auto simp: next_due_def split: list.splits)
  have "set (r # rest) = {r \<in> set rows. due now r \<and> \<not> locked (ob_ID r)}"
    unfolding *[symmetric] by simp
  with that[OF *] show ?thesis by simp
qed

lemma next_due_Some:
  assumes "next_due now locked rows = Some r"
  shows "r \<in> set rows" and "due now r" and "\<not> locked (ob_ID r)"
  by (rule next_due_head[OF assms], blast)+

lemma next_due_None: "next_due now locked rows = None \<longleftrightarrow> (\<forall>r \<in> set rows. due now r \<longrightarrow> locked (ob_ID r))"
proof -
  have "next_due now locked rows = None \<longleftrightarrow> set (sort_by dispatch_le (filter (\<lambda>r. due now r \<and> \<not> locked (ob_ID r)) rows)) = {}"
    by (simp only: set_empty) (auto simp: next_due_def split: list.split)
  then show ?thesis by auto
qed

lemma dispatch_le_sorted: "sorted_wrt dispatch_le (sort_by dispatch_le xs)"
  by (rule sorted_wrt_sort_by) (auto simp: dispatch_le_def)

lemma next_due_first:
  assumes "next_due now locked rows = Some r" and "q \<in> set rows" and "due now q" and "\<not> locked (ob_ID q)"
  shows "dispatch_le r q"
proof -
  obtain rest where rest: "sort_by dispatch_le (filter (\<lambda>r. due now r \<and> \<not> locked (ob_ID r)) rows) = r # rest"
    "insert r (set rest) = {r \<in> set rows. due now r \<and> \<not> locked (ob_ID r)}"
    by (rule next_due_head[OF assms(1)])
  with assms(2-) have "q = r \<or> q \<in> set rest" by auto
  moreover have "\<forall>x \<in> set rest. dispatch_le r x"
    using dispatch_le_sorted[of "filter (\<lambda>r. due now r \<and> \<not> locked (ob_ID r)) rows"] by (simp add: rest(1))
  ultimately show ?thesis by (auto simp: dispatch_le_def)
qed

section \<open>One dispatch\<close>

text \<open>What the outcome of the publish does to the row, and the message that the row stands for.\<close>

definition settle_row :: "publish_result \<Rightarrow> time \<Rightarrow> outbox_row \<Rightarrow> outbox_row" where
  "settle_row res now r = (case res of
     PublishOk \<Rightarrow> mark_row now r
   | PublishTimeout _ \<Rightarrow> reschedule_row now ''publish_timeout'' r
   | _ \<Rightarrow> reschedule_row now ''publish_failed'' r)"

lemma settle_row_cases:
  "settle_row PublishOk now = mark_row now"
  "settle_row (PublishTimeout b) now = reschedule_row now ''publish_timeout''"
  "settle_row (PublishFailed b) now = reschedule_row now ''publish_failed''"
  "settle_row NotConnected now = reschedule_row now ''publish_failed''"
  by (simp_all add: settle_row_def fun_eq_iff)

definition accepted :: "publish_result \<Rightarrow> bool" where
  "accepted res \<longleftrightarrow> res \<in> {PublishOk, PublishTimeout True, PublishFailed True}"

definition row_message :: "env \<Rightarrow> outbox_row \<Rightarrow> message" where
  "row_message e r = message_of e (ob_Subject r) (uuid_string e (ob_ScheduleID r)) (ob_OccurredAt r)
     (ob_Payload r) (ob_Headers r)"

definition claimed_of :: "env \<Rightarrow> uuid \<Rightarrow> outbox_row \<Rightarrow> claimedEvent" where
  "claimed_of e lockID r = \<lparr>ce_id = ob_ID r, ce_lockID = lockID, ce_subject = ob_Subject r,
     ce_scheduleID = uuid_string e (ob_ScheduleID r), ce_occurredAt = ob_OccurredAt r,
     ce_payload = ob_Payload r, ce_headers = ob_Headers r\<rparr>"

lemma claim_run:
  "claim e w = (Inr c, w') \<longleftrightarrow> \<not> fault_at e (w_step w) \<and> \<not> fault_at e (Suc (w_step w)) \<and>
     (case next_due (now_at e (Suc (w_step w))) (locked_at e (Suc (w_step w))) (t_outbox (w_db w)) of
        None \<Rightarrow> c = None \<and> \<not> fault_at e (w_step w + 2) \<and> w' = w\<lparr>w_step := w_step w + 3\<rparr>
      | Some r \<Rightarrow> (\<exists>lockID. uuid_at e (w_ids w) = Some lockID \<and> c = Some (claimed_of e lockID r)
          \<and> \<not> fault_at e (w_step w + 2) \<and> \<not> fault_at e (w_step w + 3)
          \<and> w' = w\<lparr>w_step := w_step w + 4, w_ids := Suc (w_ids w), w_db := (w_db w)\<lparr>t_outbox :=
              upd_where (\<lambda>q. ob_ID q = ob_ID r) (lease_row (now_at e (w_step w + 2)) lockID) (t_outbox (w_db w))\<rparr>\<rparr>))"
proof (cases "next_due (now_at e (Suc (w_step w))) (locked_at e (Suc (w_step w))) (t_outbox (w_db w))")
  case None
  then show ?thesis
    by (auto simp: claim_def bnd_def run_tx_def sql_def ret_def Let_def)
next
  case (Some r)
  then show ?thesis
    by (cases "uuid_at e (w_ids w)")
      (auto simp: claim_def bnd_def run_tx_def sql_def ret_def ask_def new_uuid_def exec_now_def claimed_of_def
        Let_def numeral_eq_Suc)
qed

lemma settle_leased:
  "upd_where (held oid l) (mark_row t) (upd_where (\<lambda>q. ob_ID q = oid) (lease_row now l) rows)
     = upd_where (\<lambda>q. ob_ID q = oid) (mark_row t) rows"
  "upd_where (held oid l) (reschedule_row t m) (upd_where (\<lambda>q. ob_ID q = oid) (lease_row now l) rows)
     = upd_where (\<lambda>q. ob_ID q = oid) (reschedule_row t m) rows"
  by (auto simp: upd_where_def held_def lease_row_def mark_row_def reschedule_row_def Let_def)

definition dispatched :: "env \<Rightarrow> world \<Rightarrow> outbox_row \<Rightarrow> world \<Rightarrow> bool" where
  "dispatched e w r w' \<longleftrightarrow>
     w_db w' = (w_db w)\<lparr>t_outbox := upd_where (\<lambda>q. ob_ID q = ob_ID r)
       (settle_row (publish_at e (w_pubs w)) (now_at e (w_step w + 4))) (t_outbox (w_db w))\<rparr>
     \<and> w_stream w' = w_stream w @ (if accepted (publish_at e (w_pubs w)) then [row_message e r] else [])
     \<and> w_step w' = w_step w + 5 \<and> w_pubs w' = Suc (w_pubs w) \<and> w_ids w' = Suc (w_ids w)"

lemmas publish_unfold = publishData_def Let_def message_of_def

lemma DispatchOnce_True:
  assumes "DispatchOnce e w = (Inr True, w')"
  obtains r where "next_due (now_at e (Suc (w_step w))) (locked_at e (Suc (w_step w))) (t_outbox (w_db w)) = Some r"
    and "dispatched e w r w'" and "has_publisher e"
proof -
  from assms obtain evt w1 where pub: "has_publisher e" and c: "claim e w = (Inr (Some evt), w1)"
    by (auto simp: DispatchOnce_def bnd_run ask_run ret_run split: if_splits option.splits)
  from c obtain r l where r: "next_due (now_at e (Suc (w_step w))) (locked_at e (Suc (w_step w))) (t_outbox (w_db w)) = Some r"
    and evt: "evt = claimed_of e l r"
    and w1: "w1 = w\<lparr>w_step := w_step w + 4, w_ids := Suc (w_ids w), w_db := (w_db w)\<lparr>t_outbox :=
              upd_where (\<lambda>q. ob_ID q = ob_ID r) (lease_row (now_at e (w_step w + 2)) l) (t_outbox (w_db w))\<rparr>\<rparr>"
    by (auto simp: claim_run split: option.splits)
  have "dispatched e w r w'"
    using assms pub c w1 unfolding DispatchOnce_def evt claimed_of_def
    by (cases "publish_at e (w_pubs w)")
      (auto simp: dispatched_def bnd_def ask_def ret_def publishData_def mark_published_def reschedule_def
        exec_now_def sql_def Let_def settle_leased settle_row_cases accepted_def row_message_def split: if_splits)
  with r pub show thesis by (intro that)
qed

lemma DispatchOnce_False:
  assumes "DispatchOnce e w = (Inr False, w')"
  shows "w_db w' = w_db w \<and> w_stream w' = w_stream w \<and> (has_publisher e \<longrightarrow>
     next_due (now_at e (Suc (w_step w))) (locked_at e (Suc (w_step w))) (t_outbox (w_db w)) = None)"
  using assms by (auto simp: DispatchOnce_def bnd_run ask_run ret_run claim_run split: if_splits option.splits)

lemma DispatchOnce_total:
  assumes "\<And>n. \<not> fault_at e n" and "\<And>n. uuid_at e n \<noteq> None"
    and "\<forall>r \<in> set (t_outbox (w_db w)). ob_Attempts r < 2 ^ 31 - 1"
  shows "\<exists>b w'. DispatchOnce e w = (Inr b, w')"
proof -
  obtain c w1 where c: "claim e w = (Inr c, w1)" and w1: "\<forall>r \<in> set (t_outbox (w_db w1)). ob_Attempts r < 2 ^ 31 - 1"
  proof (cases "next_due (now_at e (Suc (w_step w))) (locked_at e (Suc (w_step w))) (t_outbox (w_db w))")
    case None
    with assms that show ?thesis by (auto simp: claim_run)
  next
    case (Some r)
    obtain l where "uuid_at e (w_ids w) = Some l" using assms(2) by blast
    with Some assms(1,3) that show ?thesis
      by (simp add: claim_run lease_row_def ball_upd_where)
  qed
  then show ?thesis
    using assms(1)
    by (cases c; cases "publish_at e (w_pubs w1)")
      (auto simp: DispatchOnce_def bnd_def ask_def ret_def publishData_def mark_published_def reschedule_def
        exec_now_def sql_def Let_def)
qed

section \<open>Draining\<close>

definition published_in :: "db \<Rightarrow> uuid \<Rightarrow> bool" where
  "published_in d oid \<longleftrightarrow> (\<exists>r \<in> set (t_outbox d). ob_ID r = oid \<and> ob_PublishedAt r \<noteq> None)"

definition unpublished :: "db \<Rightarrow> outbox_row list" where
  "unpublished d = filter (\<lambda>r. ob_PublishedAt r = None) (t_outbox d)"

lemma unpublished_mark:
  "unpublished (d\<lparr>t_outbox := upd_where (\<lambda>q. ob_ID q = oid) (mark_row t) (t_outbox d)\<rparr>)
   = filter (\<lambda>r. ob_ID r \<noteq> oid) (unpublished d)"
proof -
  have "filter (\<lambda>r. ob_PublishedAt r = None) (upd_where (\<lambda>q. ob_ID q = oid) (mark_row t) rows)
      = filter (\<lambda>r. ob_ID r \<noteq> oid) (filter (\<lambda>r. ob_PublishedAt r = None) rows)" for rows
    by (induction rows) (auto simp: mark_row_def)
  then show ?thesis by (simp add: unpublished_def)
qed

lemma published_mark:
  "published_in (d\<lparr>t_outbox := upd_where (\<lambda>q. ob_ID q = oid) (mark_row t) (t_outbox d)\<rparr>) i
   \<longleftrightarrow> published_in d i \<or> i = oid \<and> (\<exists>r \<in> set (t_outbox d). ob_ID r = oid)"
  by (auto simp: published_in_def bex_upd_where mark_row_def)

lemma due_mono: "due a r \<Longrightarrow> a \<le> b \<Longrightarrow> due b r"
  by (auto simp: due_def split: option.splits)

lemma DispatchOnce_publishes:
  assumes "DispatchOnce e w = (Inr True, w')" and "publish_at e (w_pubs w) = PublishOk"
  obtains r where "r \<in> set (unpublished (w_db w))" and "w_stream w' = w_stream w @ [row_message e r]"
    and "unpublished (w_db w') = filter (\<lambda>q. ob_ID q \<noteq> ob_ID r) (unpublished (w_db w))"
    and "w_step w' = w_step w + 5"
    and "map ob_ID (t_outbox (w_db w')) = map ob_ID (t_outbox (w_db w))"
    and "map ob_Attempts (t_outbox (w_db w')) = map ob_Attempts (t_outbox (w_db w))"
    and "\<forall>i. published_in (w_db w) i \<or> i = ob_ID r \<longrightarrow> published_in (w_db w') i"
proof -
  from assms(1) obtain r where r: "next_due (now_at e (Suc (w_step w))) (locked_at e (Suc (w_step w))) (t_outbox (w_db w)) = Some r"
    and disp: "dispatched e w r w'"
    by (rule DispatchOnce_True)
  have "r \<in> set (t_outbox (w_db w))" and "r \<in> set (unpublished (w_db w))"
    using next_due_Some[OF r] by (auto simp: unpublished_def due_def)
  with disp assms(2) show thesis
    by (intro that[of r])
      (auto simp: dispatched_def settle_row_cases accepted_def unpublished_mark published_mark map_upd_where mark_row_def)
qed

text \<open>
  C11: Draining publishes every event that is due. When nothing fails and the clock does not go
  backwards, the loop ends after at most one dispatch more than there are unpublished events; it
  sends one message for each of the events it picks, picks only unpublished ones and every one that
  was due at the start, and records all of them (and what was published before) as published.
\<close>

theorem drain_publishes:
  assumes ok: "\<And>n. \<not> fault_at e n" "\<And>n. uuid_at e n \<noteq> None" "\<And>n i. \<not> locked_at e n i"
      "\<And>n. publish_at e n = PublishOk" "has_publisher e" "mono (now_at e)"
    and "distinct (map ob_ID (t_outbox (w_db w)))"
    and "\<forall>a \<in> set (map ob_Attempts (t_outbox (w_db w))). a < 2 ^ 31 - 1"
    and "length (unpublished (w_db w)) < fuel"
  shows "\<exists>w' rs. drain fuel e w = (Inr True, w') \<and> w_stream w' = w_stream w @ map (row_message e) rs
     \<and> distinct (map ob_ID rs) \<and> set rs \<subseteq> set (unpublished (w_db w))
     \<and> (\<forall>r \<in> set (unpublished (w_db w)). due (now_at e (w_step w)) r \<longrightarrow> r \<in> set rs)
     \<and> (\<forall>i. published_in (w_db w) i \<or> i \<in> ob_ID ` set rs \<longrightarrow> published_in (w_db w') i)"
  using assms(7-)
proof (induction fuel arbitrary: w)
  case 0
  then show ?case by simp
next
  case (Suc fuel)
  have later: "now_at e (w_step w) \<le> now_at e (w_step w + k)" for k
    using ok(6) by (simp add: mono_def)
  obtain b w1 where d: "DispatchOnce e w = (Inr b, w1)"
    using DispatchOnce_total[of e w] ok Suc.prems(2) by auto
  show ?case
  proof (cases b)
    case False
    with d ok have w1: "w_db w1 = w_db w" "w_stream w1 = w_stream w"
      "\<forall>r \<in> set (t_outbox (w_db w)). \<not> due (now_at e (Suc (w_step w))) r"
      using DispatchOnce_False[of e w w1] by (auto simp: next_due_None)
    have "drain (Suc fuel) e w = (Inr True, w1)"
      using d False by (simp add: rescue_def bnd_def ret_def)
    with w1 show ?thesis
      by (intro exI[of _ w1] exI[of _ "[]"]) (auto simp: unpublished_def dest: due_mono[OF _ later[of 1]])
  next
    case True
    with d ok(4) obtain r where r: "r \<in> set (unpublished (w_db w))" "w_stream w1 = w_stream w @ [row_message e r]"
      "unpublished (w_db w1) = filter (\<lambda>q. ob_ID q \<noteq> ob_ID r) (unpublished (w_db w))"
      "w_step w1 = w_step w + 5"
      "map ob_ID (t_outbox (w_db w1)) = map ob_ID (t_outbox (w_db w))"
      "map ob_Attempts (t_outbox (w_db w1)) = map ob_Attempts (t_outbox (w_db w))"
      "\<forall>i. published_in (w_db w) i \<or> i = ob_ID r \<longrightarrow> published_in (w_db w1) i"
      by (auto elim: DispatchOnce_publishes)
    have "length (unpublished (w_db w1)) < fuel"
      using length_filter_less[of r "unpublished (w_db w)" "\<lambda>q. ob_ID q \<noteq> ob_ID r"] r(1,3) Suc.prems(3) by simp
    with Suc.IH[of w1] Suc.prems r obtain w' rs where IH: "drain fuel e w1 = (Inr True, w')"
      "w_stream w' = w_stream w1 @ map (row_message e) rs" "distinct (map ob_ID rs)"
      "set rs \<subseteq> set (unpublished (w_db w1))"
      "\<forall>r \<in> set (unpublished (w_db w1)). due (now_at e (w_step w1)) r \<longrightarrow> r \<in> set rs"
      "\<forall>i. published_in (w_db w1) i \<or> i \<in> ob_ID ` set rs \<longrightarrow> published_in (w_db w') i"
      by auto
    have uniq: "q = r" if "q \<in> set (unpublished (w_db w))" "ob_ID q = ob_ID r" for q
      using distinct_map_inj[OF Suc.prems(1), of q r] that r(1) by (auto simp: unpublished_def)
    have "\<forall>q \<in> set (unpublished (w_db w)). due (now_at e (w_step w)) q \<longrightarrow> q \<in> set (r # rs)"
      using IH(5) uniq due_mono[OF _ later[of 5]] by (auto simp: r(3,4))
    with IH r d True show ?thesis
      by (intro exI[of _ w'] exI[of _ "r # rs"]) (auto simp: rescue_def bnd_def)
  qed
qed

theorem drain_publishes_witness:
  "\<exists>w' rs. drain 2 sample_env (sample_world sample_db) = (Inr True, w') \<and> sample_event \<in> set rs
     \<and> w_stream w' = map (row_message sample_env) rs \<and> published_in (w_db w') 31"
proof -
  have "mono (now_at sample_env)" by (simp add: mono_def)
  moreover have "distinct (map ob_ID (t_outbox sample_db))" "unpublished sample_db = [sample_event]"
    "\<forall>a \<in> set (map ob_Attempts (t_outbox sample_db)). a < 2 ^ 31 - 1" "due 0 sample_event" "ob_ID sample_event = 31"
    by (simp_all add: sample_defs unpublished_def due_def)
  ultimately show ?thesis
    using drain_publishes[of sample_env "sample_world sample_db" 2] by simp (metis image_eqI)
qed

text \<open>
  C4: A dispatch settles exactly one event: the row it claims is due, not locked by another
  transaction, and no such row comes before it in the order of availability and creation. An
  acknowledged publish marks the row as published and releases the lease; a failing one increments
  the attempts and postpones the row. All other rows and tables stay as they were, and the message
  appended to the stream, if the server accepted it, is the one of that row.
\<close>

theorem DispatchOnce_settles:
  assumes "DispatchOnce e w = (Inr True, w')"
  shows "\<exists>r \<in> set (t_outbox (w_db w)). due (now_at e (w_step w + 1)) r \<and> \<not> locked_at e (w_step w + 1) (ob_ID r)
     \<and> (\<forall>q \<in> set (t_outbox (w_db w)). due (now_at e (w_step w + 1)) q \<and> \<not> locked_at e (w_step w + 1) (ob_ID q)
          \<longrightarrow> dispatch_le r q)
     \<and> w_db w' = (w_db w)\<lparr>t_outbox := upd_where (\<lambda>q. ob_ID q = ob_ID r)
          (case publish_at e (w_pubs w) of
             PublishOk \<Rightarrow> mark_row (now_at e (w_step w + 4))
           | PublishTimeout _ \<Rightarrow> reschedule_row (now_at e (w_step w + 4)) ''publish_timeout''
           | _ \<Rightarrow> reschedule_row (now_at e (w_step w + 4)) ''publish_failed'') (t_outbox (w_db w))\<rparr>
     \<and> w_stream w' = w_stream w @ (if accepted (publish_at e (w_pubs w)) then [row_message e r] else [])"
proof -
  from assms obtain r where r: "next_due (now_at e (Suc (w_step w))) (locked_at e (Suc (w_step w))) (t_outbox (w_db w)) = Some r"
    and disp: "dispatched e w r w'"
    by (rule DispatchOnce_True)
  show ?thesis
  proof (intro bexI[of _ r] conjI)
    show "r \<in> set (t_outbox (w_db w))" by (rule next_due_Some[OF r])
    show "\<forall>q \<in> set (t_outbox (w_db w)). due (now_at e (w_step w + 1)) q \<and> \<not> locked_at e (w_step w + 1) (ob_ID q)
          \<longrightarrow> dispatch_le r q"
      using next_due_first[OF r] by simp
  qed (use next_due_Some[OF r] disp in \<open>auto simp: dispatched_def settle_row_cases split: publish_result.splits\<close>)
qed

theorem DispatchOnce_settles_witness:
  "\<exists>w'. DispatchOnce sample_env (sample_world sample_db) = (Inr True, w')
     \<and> t_outbox (w_db w') = [mark_row (4 * millisecond) sample_event]
     \<and> w_stream w' = [row_message sample_env sample_event]"
proof -
  obtain w' where w': "DispatchOnce sample_env (sample_world sample_db) = (Inr True, w')"
    by (simp add: DispatchOnce_def claim_def bnd_def ask_def ret_def run_tx_def sql_def new_uuid_def exec_now_def
        publishData_def mark_published_def next_due_def due_def sample_defs Let_def)
  from DispatchOnce_settles[OF w'] w' show ?thesis
    by (auto simp: sample_defs accepted_def)
qed


lemma backoff_range: "1 \<le> a \<Longrightarrow> 4 \<le> backoff a \<and> backoff a \<le> 256"
proof -
  assume a: "1 \<le> a"
  have "(2::int) ^ 2 \<le> 2 ^ nat (min (a + 1) 8)" using a by (intro power_increasing) auto
  moreover have "(2::int) ^ nat (min (a + 1) 8) \<le> 2 ^ 8" by (intro power_increasing) auto
  ultimately show ?thesis by (simp add: backoff_def)
qed

lemma backoff_mono: "a \<le> b \<Longrightarrow> backoff a \<le> backoff b"
proof -
  assume "a \<le> b"
  then have "(2::int) ^ nat (min (a + 1) 8) \<le> 2 ^ nat (min (b + 1) 8)" by (intro power_increasing) auto
  then show ?thesis by (simp add: backoff_def min.coboundedI2)
qed

text \<open>
  C21: The delay before the next attempt grows with the number of failures and stays between four
  seconds and 256 seconds, so a failing event is neither retried in a tight loop nor abandoned; the
  limit of 300 seconds in the statement is never reached.
\<close>

theorem backoff_bounds:
  assumes "0 \<le> ob_Attempts r"
  shows "now + 4 * second \<le> ob_AvailableAt (reschedule_row now failure r)
     \<and> ob_AvailableAt (reschedule_row now failure r) \<le> now + 256 * second
     \<and> ob_AvailableAt (reschedule_row now failure r) - now
         \<le> ob_AvailableAt (reschedule_row later failure' (reschedule_row now failure r)) - later
     \<and> ob_PublishedAt (reschedule_row now failure r) = ob_PublishedAt r"
  using backoff_range[of "ob_Attempts r + 1"] backoff_mono[of "ob_Attempts r + 1" "2 + ob_Attempts r"] assms
  by (simp add: reschedule_row_def Let_def)

theorem backoff_bounds_witness:
  "ob_AvailableAt (reschedule_row 0 ''publish_failed'' sample_event) = 4 * second
   \<and> ob_AvailableAt (reschedule_row 0 ''publish_failed'' sample_event) \<le> 256 * second"
  using backoff_bounds[of sample_event 0 "''publish_failed''"] by (simp add: sample_defs reschedule_row_def backoff_def)

section \<open>The loop ends\<close>

definition soon :: "time \<Rightarrow> db \<Rightarrow> outbox_row list" where
  "soon horizon d = filter (\<lambda>r. ob_PublishedAt r = None \<and> ob_AvailableAt r < horizon) (t_outbox d)"

lemma settled_not_soon:
  assumes "0 \<le> ob_Attempts r" and "horizon \<le> now + 4 * second"
  shows "\<not> (ob_PublishedAt (settle_row res now r) = None \<and> ob_AvailableAt (settle_row res now r) < horizon)"
  using backoff_range[of "ob_Attempts r + 1"] assms by (cases res) (auto simp: settle_row_cases mark_row_def reschedule_row_def Let_def)

lemma filter_upd_where_drop:
  assumes "\<And>r. r \<in> set rows \<Longrightarrow> \<not> q (f r)"
  shows "filter q (upd_where p f rows) = filter (\<lambda>r. \<not> p r) (filter q rows)"
  using assms by (induction rows) auto


definition failing_env :: env where
  "failing_env = sample_env\<lparr>now_at := (\<lambda>_. 0), publish_at := (\<lambda>_. PublishFailed False)\<rparr>"


end
