(* ===== verification/Account.thy ===== *)
theory Account
  imports Outbox
begin

text \<open>
  Account deletion: the tombstone check that opens every mutation and the clean-up of
  \<open>internal/service/account_deletion.go\<close>, and the consumer of
  \<open>internal/accountdeletion/consumer.go\<close> that runs it for a deletion event.
\<close>

section \<open>Definitions\<close>

definition ensureAccountNotDeleted :: "uuid \<Rightarrow> unit tx" where
  "ensureAccountNotDeleted userID =
     bnd (query (\<lambda>d. userID \<in> set (t_tombstones d))) (\<lambda>found. guard (\<not> found) ErrAccountDeleted)"

definition insert_tombstone :: "uuid \<Rightarrow> db \<Rightarrow> db" where
  "insert_tombstone userID d =
     (if userID \<in> set (t_tombstones d) then d else d\<lparr>t_tombstones := t_tombstones d @ [userID]\<rparr>)"

definition delete_user_events :: "string \<Rightarrow> uuid \<Rightarrow> db \<Rightarrow> db" where
  "delete_user_events user userID d = d\<lparr>t_outbox := filter
     (\<lambda>r. \<not> (payload_user (ob_Payload r) = user \<or> owns d userID (ob_ScheduleID r))) (t_outbox d)\<rparr>"

text \<open>The seven \<open>DELETE\<close> statements of the loop, in their order.\<close>

definition delete_user_rows :: "uuid \<Rightarrow> (db \<Rightarrow> db) list" where
  "delete_user_rows userID =
     [\<lambda>d. d\<lparr>t_create_requests := filter (\<lambda>r. cr_UserID r \<noteq> userID) (t_create_requests d)\<rparr>,
      \<lambda>d. d\<lparr>t_mutation_requests := filter (\<lambda>r. mr_UserID r \<noteq> userID) (t_mutation_requests d)\<rparr>,
      del_series (\<lambda>z. ser_UserID z = userID),
      \<lambda>d. d\<lparr>t_admissions := filter (\<lambda>r. ad_UserID r \<noteq> userID) (t_admissions d)\<rparr>,
      \<lambda>d. d\<lparr>t_ai_users := filter (\<lambda>x. x \<noteq> userID) (t_ai_users d)\<rparr>,
      \<lambda>d. d\<lparr>t_extractions := filter (\<lambda>r. ex_UserID r \<noteq> userID) (t_extractions d)\<rparr>,
      del_schedules (\<lambda>s. sr_UserID s = userID)]"

definition CleanupDeletedAccount :: "uuid \<Rightarrow> unit tx" where
  "CleanupDeletedAccount userID =
     bnd (run_tx (
       bnd (exec (insert_tombstone userID)) (\<lambda>_.
       bnd (ask (\<lambda>e. uuid_string e userID)) (\<lambda>user.
       bnd (exec (delete_user_events user userID)) (\<lambda>_.
       bnd (foreach (delete_user_rows userID) exec) (\<lambda>_.
       ret (Commit ())))))))
     (\<lambda>_. ret ())"

record deletionRequest =
  dq_EventID :: string
  dq_RequestID :: string
  dq_UserID :: string
  dq_CredentialVersion :: nat
  dq_OccurredAt :: time

record deletionResult =
  dr_EventID :: string
  dr_RequestID :: string
  dr_Service :: string
  dr_Status :: string
  dr_OccurredAt :: time

text \<open>
  \<open>Consumed r\<close>: the handler returned nil after \<open>msg.Ack()\<close>; \<open>Redeliver\<close>: it returned an error, so
  the message is negatively acknowledged and comes again. \<open>r\<close> is the result it published with its
  message identifier, if any.
\<close>

datatype handled = Consumed "(string \<times> deletionResult) option" | Redeliver "(string \<times> deletionResult) option"

text \<open>
  \<open>event\<close> is the decoded message, \<open>None\<close> when its JSON is malformed; \<open>parse\<close> is \<open>uuid.Parse\<close>,
  \<open>now\<close> the application clock, \<open>pub\<close> and \<open>ack\<close> whether publishing and acknowledging succeed.
\<close>

definition handleMessage :: "(string \<Rightarrow> uuid option) \<Rightarrow> time \<Rightarrow> bool \<Rightarrow> bool \<Rightarrow> (uuid \<Rightarrow> unit tx)
    \<Rightarrow> deletionRequest option \<Rightarrow> env \<Rightarrow> world \<Rightarrow> handled \<times> world" where
  "handleMessage parse now pub ack cleanup event e w =
     (let done = (\<lambda>r. if ack then Consumed r else Redeliver r)
      in case event of
           None \<Rightarrow> (done None, w)
         | Some ev \<Rightarrow>
             (case parse (dq_UserID ev) of
                None \<Rightarrow> (done None, w)
              | Some userID \<Rightarrow>
                  if dq_EventID ev = [] \<or> dq_RequestID ev = [] then (done None, w)
                  else (case cleanup userID e w of (res, w') \<Rightarrow>
                    let status = (case res of Inr _ \<Rightarrow> ''completed'' | Inl _ \<Rightarrow> ''retry'');
                        result = \<lparr>dr_EventID = dq_EventID ev, dr_RequestID = dq_RequestID ev,
                          dr_Service = ''core'', dr_Status = status, dr_OccurredAt = now\<rparr>
                    in if \<not> json_time_ok now then (Redeliver None, w')
                       else if \<not> pub then (Redeliver None, w')
                       else (done (Some (dq_EventID ev @ '':core:'' @ status, result)), w'))))"

section \<open>The tombstone check\<close>

lemma ensureAccountNotDeleted_run [tx_run]:
  "ensureAccountNotDeleted u e w = (Inr y, w') \<longleftrightarrow>
     \<not> fault_at e (w_step w) \<and> u \<notin> set (t_tombstones (w_db w)) \<and> w' = w\<lparr>w_step := Suc (w_step w)\<rparr>"
  by (auto simp: ensureAccountNotDeleted_def tx_run)

lemma ensureAccountNotDeleted_tombstone:
  "u \<in> set (t_tombstones (w_db w)) \<Longrightarrow> \<not> fault_at e (w_step w) \<Longrightarrow>
   ensureAccountNotDeleted u e w = (Inl ErrAccountDeleted, w\<lparr>w_step := Suc (w_step w)\<rparr>)"
  by (simp add: ensureAccountNotDeleted_def bnd_def query_def sql_def guard_def fail_def Let_def)

lemma hoare_ensureAccountNotDeleted: "hoare P (ensureAccountNotDeleted u) (\<lambda>_. P)"
  by (auto simp: hoare_def tx_run)

text \<open>A transaction that opens with the check and finds a tombstone does nothing else.\<close>

lemma run_tx_tombstone:
  assumes "u \<in> set (t_tombstones (w_db w))" and "\<not> fault_at e (w_step w)" and "\<not> fault_at e (Suc (w_step w))"
  shows "run_tx (bnd (ensureAccountNotDeleted u) k) e w = (Inl ErrAccountDeleted, w\<lparr>w_step := w_step w + 2\<rparr>)"
  using assms ensureAccountNotDeleted_tombstone[of u "w\<lparr>w_step := Suc (w_step w)\<rparr>" e]
  by (simp add: run_tx_def bnd_def Let_def)

section \<open>Clean-up\<close>

text \<open>What a committed clean-up leaves, in closed form.\<close>

definition cleaned :: "string \<Rightarrow> uuid \<Rightarrow> db \<Rightarrow> db" where
  "cleaned user u d = fold (\<lambda>f. f) (delete_user_rows u) (delete_user_events user u (insert_tombstone u d))"

lemma foreach_exec_run:
  "foreach fs exec e w = (Inr (), w') \<longleftrightarrow> (\<forall>i < length fs. \<not> fault_at e (w_step w + i))
     \<and> w' = w\<lparr>w_step := w_step w + length fs, w_db := fold (\<lambda>f. f) fs (w_db w)\<rparr>"
proof (induction fs arbitrary: w)
  case Nil
  then show ?case by (auto simp: tx_run)
next
  case (Cons f fs)
  have "(\<forall>i < length (f # fs). \<not> fault_at e (w_step w + i)) \<longleftrightarrow>
      \<not> fault_at e (w_step w) \<and> (\<forall>i < length fs. \<not> fault_at e (Suc (w_step w) + i))"
    by (auto simp: less_Suc_eq_0_disj)
  then show ?case by (auto simp: tx_run Cons.IH)
qed

lemma CleanupDeletedAccount_run:
  assumes "CleanupDeletedAccount u e w = (Inr y, w')"
  shows "w_db w' = cleaned (uuid_string e u) u (w_db w) \<and> w_stream w' = w_stream w"
proof -
  from assms obtain c where "run_tx (
       bnd (exec (insert_tombstone u)) (\<lambda>_.
       bnd (ask (\<lambda>e. uuid_string e u)) (\<lambda>user.
       bnd (exec (delete_user_events user u)) (\<lambda>_.
       bnd (foreach (delete_user_rows u) exec) (\<lambda>_.
       ret (Commit ())))))) e w = (Inr c, w')"
    by (auto simp: CleanupDeletedAccount_def tx_run)
  then show ?thesis
    by (cases c) (auto simp: run_tx_Early run_tx_Commit tx_run foreach_exec_run cleaned_def)
qed

lemma cleanup_error: "CleanupDeletedAccount u e w = (Inl er, w') \<Longrightarrow> w_db w' = w_db w"
  by (auto simp: CleanupDeletedAccount_def bnd_def ret_def dest: run_tx_error split: prod.splits sum.splits)

lemma owns_insert_tombstone [simp]: "owns (insert_tombstone u d) v sid = owns d v sid"
  by (simp add: insert_tombstone_def owns_def)

lemma cleaned_tables:
  "t_schedules (cleaned user u d) = filter (\<lambda>s. sr_UserID s \<noteq> u) (t_schedules d)"
  "t_reminders (cleaned user u d) = filter (\<lambda>r. \<not> owns d u (rmr_ScheduleID r)) (t_reminders d)"
  "t_series (cleaned user u d) = filter (\<lambda>z. ser_UserID z \<noteq> u) (t_series d)"
  "t_occurrences (cleaned user u d) = filter (\<lambda>r. \<not> owns d u (ocr_ScheduleID r)
     \<and> \<not> gone_series (\<lambda>z. ser_UserID z = u) d (ocr_SeriesID r)) (t_occurrences d)"
  "t_outbox (cleaned user u d) = filter (\<lambda>r. \<not> (payload_user (ob_Payload r) = user \<or> owns d u (ob_ScheduleID r))) (t_outbox d)"
  "t_create_requests (cleaned user u d) = filter (\<lambda>r. cr_UserID r \<noteq> u) (t_create_requests d)"
  "t_mutation_requests (cleaned user u d) = filter (\<lambda>r. mr_UserID r \<noteq> u) (t_mutation_requests d)"
  "t_tombstones (cleaned user u d) = (if u \<in> set (t_tombstones d) then t_tombstones d else t_tombstones d @ [u])"
  "t_ai_users (cleaned user u d) = filter (\<lambda>x. x \<noteq> u) (t_ai_users d)"
  "t_admissions (cleaned user u d) = filter (\<lambda>r. ad_UserID r \<noteq> u) (t_admissions d)"
  "t_extractions (cleaned user u d) = filter (\<lambda>r. ex_UserID r \<noteq> u) (t_extractions d)"
  by (auto simp: cleaned_def delete_user_rows_def delete_user_events_def insert_tombstone_def del_schedules_cascade
      del_series_cascade gone_def gone_series_def owns_def intro!: filter_cong)

lemma db_wf_cleaned:
  assumes wf: "db_wf d"
  shows "db_wf (cleaned user u d)"
proof (rule db_wfI)
  show "keys_ok (cleaned user u d)"
    using wf by (auto simp: db_wf_def keys_ok_def cleaned_tables)
  have kept: "owns (cleaned user u d) v sid \<longleftrightarrow> owns d v sid \<and> v \<noteq> u" for v sid
    by (auto simp: owns_def cleaned_tables)
  have "has_schedule (cleaned user u d) sid" if "has_schedule d sid" "\<not> owns d u sid" for sid
    using that by (auto simp: has_schedule_def owns_def cleaned_tables)
  moreover have "linked (cleaned user u d) r"
    if "linked d r" "\<not> owns d u (ocr_ScheduleID r)" for r
    using that unfolding linked_def kept by (auto simp: cleaned_tables)
  ultimately show "refs_ok (cleaned user u d)"
    using wf by (auto simp: db_wf_def refs_ok_def cleaned_tables)
qed (use wf in \<open>auto simp: db_wf_def cleaned_tables\<close>)

lemma owns_cleaned: "owns (cleaned user u d) v sid \<longleftrightarrow> owns d v sid \<and> v \<noteq> u"
  by (auto simp: owns_def cleaned_tables)

lemma cleaned_view_other:
  assumes wf: "db_wf d" and v: "v \<noteq> u"
  shows "user_view v (cleaned user u d) = user_view v d"
proof -
  have "\<not> gone_series (\<lambda>z. ser_UserID z = u) d (ocr_SeriesID r)"
    if "r \<in> set (t_occurrences d)" "owns d v (ocr_ScheduleID r)" for r
    using that v wf_linked[OF wf] linked_owner[OF wf] unfolding gone_series_def by metis
  then show ?thesis
    using v owns_unique[OF wf] by (auto simp: user_view_def owns_cleaned cleaned_tables intro!: filter_cong)
qed

lemma cleaned_view:
  assumes wf: "db_wf d"
  shows "user_view u (cleaned user u d) = ([], [], [], [], [], [], [u], [], [], [])"
proof -
  have "filter (\<lambda>x. x = u) xs = (if u \<in> set xs then [u] else [])" if "distinct xs" for xs
    using that by (induction xs) auto
  then have "filter (\<lambda>x. x = u) (t_tombstones (cleaned user u d)) = [u]"
    using wf by (simp add: cleaned_tables db_wf_def keys_ok_def)
  then show ?thesis by (simp add: user_view_def owns_cleaned) (simp add: cleaned_tables)
qed

text \<open>
  C22: A committed clean-up erases the account: no schedule, reminder, series, occurrence, saved
  request, admission, extraction or event of the user is left, the tombstone is there, the tables
  are well-formed, and what they hold for every other user is unchanged. Of the outbox exactly the
  events that name the user or one of the user's schedules are gone.
\<close>

theorem cleanup_erases_account:
  assumes "CleanupDeletedAccount u e w = (Inr (), w')" and wf: "db_wf (w_db w)"
  shows "db_wf (w_db w') \<and> user_view u (w_db w') = ([], [], [], [], [], [], [u], [], [], [])
     \<and> (\<forall>v. v \<noteq> u \<longrightarrow> user_view v (w_db w') = user_view v (w_db w))
     \<and> t_outbox (w_db w') = filter (\<lambda>r. payload_user (ob_Payload r) \<noteq> uuid_string e u
          \<and> \<not> owns (w_db w) u (ob_ScheduleID r)) (t_outbox (w_db w))"
proof -
  have "w_db w' = cleaned (uuid_string e u) u (w_db w)" using CleanupDeletedAccount_run[OF assms(1)] by simp
  then show ?thesis
    using cleaned_view[OF wf] cleaned_view_other[OF wf] db_wf_cleaned[OF wf] by (simp add: cleaned_tables)
qed

text \<open>
  Clean-up is idempotent: repeating it for an account that is already cleaned changes nothing,
  so the redelivery of a deletion event is harmless.
\<close>

theorem cleanup_idempotent:
  assumes "CleanupDeletedAccount u e w = (Inr (), w1)" and "CleanupDeletedAccount u e w1 = (Inr (), w2)"
  shows "w_db w2 = w_db w1"
proof -
  have none: "\<not> owns (cleaned user u d) u sid" for user d sid
    by (simp add: owns_def cleaned_tables)
  have "cleaned user u (cleaned user u d) = cleaned user u d" for user d
    by (rule db.equality) (auto simp: cleaned_tables none[unfolded owns_def] owns_def gone_series_def intro!: filter_cong)
  then show ?thesis
    using CleanupDeletedAccount_run[OF assms(1)] CleanupDeletedAccount_run[OF assms(2)] by simp
qed

lemmas cleanup_eval = CleanupDeletedAccount_def bnd_def run_tx_def exec_def sql_def ask_def ret_def Let_def
  delete_user_rows_def

lemma cleanup_sample: "\<exists>w'. CleanupDeletedAccount 1 sample_env (sample_world d) = (Inr (), w')"
  by (simp add: cleanup_eval)

theorem cleanup_erases_account_witness:
  "\<exists>w'. CleanupDeletedAccount 1 sample_env (sample_world sample_db) = (Inr (), w')
     \<and> user_view 1 (w_db w') = ([], [], [], [], [], [], [1], [], [], [])
     \<and> user_view 2 (w_db w') = user_view 2 sample_db"
proof -
  obtain w' where w': "CleanupDeletedAccount 1 sample_env (sample_world sample_db) = (Inr (), w')"
    using cleanup_sample by blast
  from cleanup_erases_account[OF this] sample_db_wf have "user_view 1 (w_db w') = ([], [], [], [], [], [], [1], [], [], [])"
    and "\<forall>v. v \<noteq> 1 \<longrightarrow> user_view v (w_db w') = user_view v sample_db" by simp_all
  then show ?thesis using w' by simp
qed

theorem cleanup_idempotent_witness:
  "\<exists>w1 w2. CleanupDeletedAccount 1 sample_env (sample_world sample_db) = (Inr (), w1)
     \<and> CleanupDeletedAccount 1 sample_env w1 = (Inr (), w2) \<and> w_db w2 = w_db w1"
proof -
  obtain w1 where w1: "CleanupDeletedAccount 1 sample_env (sample_world sample_db) = (Inr (), w1)"
    using cleanup_sample by blast
  moreover obtain w2 where w2: "CleanupDeletedAccount 1 sample_env w1 = (Inr (), w2)"
    by (simp add: cleanup_eval)
  ultimately show ?thesis using cleanup_idempotent by blast
qed

section \<open>The consumer\<close>

text \<open>
  C24: The consumer tells the truth about the clean-up: a result is published only for a well-formed
  event, with its identifiers, and says completed exactly when the clean-up committed and retry when
  it failed and changed nothing. A message that is consumed without a result was invalid and left
  everything as it was.
\<close>

theorem handleMessage_reports_outcome:
  assumes "handleMessage parse now pub ack CleanupDeletedAccount event e w = (h, w')"
  shows "(\<forall>mid res. h \<in> {Consumed (Some (mid, res)), Redeliver (Some (mid, res))} \<longrightarrow>
       (\<exists>ev u. event = Some ev \<and> parse (dq_UserID ev) = Some u \<and> dr_EventID res = dq_EventID ev
          \<and> dr_RequestID res = dq_RequestID ev \<and> mid = dq_EventID ev @ '':core:'' @ dr_Status res
          \<and> (dr_Status res = ''completed'' \<and> CleanupDeletedAccount u e w = (Inr (), w')
             \<or> dr_Status res = ''retry'' \<and> (\<exists>er. CleanupDeletedAccount u e w = (Inl er, w')) \<and> w_db w' = w_db w)))
     \<and> (h = Consumed None \<longrightarrow> w' = w)"
proof (cases "\<exists>ev u. event = Some ev \<and> parse (dq_UserID ev) = Some u \<and> dq_EventID ev \<noteq> [] \<and> dq_RequestID ev \<noteq> []")
  case False
  with assms show ?thesis
    by (auto simp: handleMessage_def Let_def split: option.splits if_splits)
next
  case True
  then obtain ev u where ev: "event = Some ev" "parse (dq_UserID ev) = Some u" "dq_EventID ev \<noteq> []" "dq_RequestID ev \<noteq> []"
    by blast
  obtain r w1 where c: "CleanupDeletedAccount u e w = (r, w1)" by fastforce
  show ?thesis
    using assms ev c cleanup_error[of u e w]
    by (cases r) (auto simp: handleMessage_def Let_def split: if_splits)
qed

theorem handleMessage_reports_outcome_witness:
  "\<exists>w'. handleMessage (\<lambda>_. Some 1) 0 True True CleanupDeletedAccount
      (Some \<lparr>dq_EventID = ''e'', dq_RequestID = ''r'', dq_UserID = ''1'', dq_CredentialVersion = 1, dq_OccurredAt = 0\<rparr>)
      sample_env (sample_world sample_db)
    = (Consumed (Some (''e:core:completed'', \<lparr>dr_EventID = ''e'', dr_RequestID = ''r'', dr_Service = ''core'',
         dr_Status = ''completed'', dr_OccurredAt = 0\<rparr>)), w')
    \<and> CleanupDeletedAccount 1 sample_env (sample_world sample_db) = (Inr (), w')"
proof -
  obtain w1 where w1: "CleanupDeletedAccount 1 sample_env (sample_world sample_db) = (Inr (), w1)"
    using cleanup_sample by blast
  have "json_time_ok 0" by code_simp
  with w1 have h: "handleMessage (\<lambda>_. Some 1) 0 True True CleanupDeletedAccount
      (Some \<lparr>dq_EventID = ''e'', dq_RequestID = ''r'', dq_UserID = ''1'', dq_CredentialVersion = 1, dq_OccurredAt = 0\<rparr>)
      sample_env (sample_world sample_db)
    = (Consumed (Some (''e:core:completed'', \<lparr>dr_EventID = ''e'', dr_RequestID = ''r'', dr_Service = ''core'',
         dr_Status = ''completed'', dr_OccurredAt = 0\<rparr>)), w1)"
    by (simp add: handleMessage_def Let_def)
  from handleMessage_reports_outcome[OF this] h show ?thesis by auto
qed

end
