(* ===== verification/Lookup.thy ===== *)
theory Lookup
  imports Account
begin

text \<open>
  Reading schedules (\<open>internal/service/schedules.go\<close>): one schedule with its reminders and its
  place in a series, the listings, and the row lock that returns the revision. \<open>schedule_of\<close> is the
  abstract view: the schedule a user sees, as a function of the tables.
\<close>

section \<open>Definitions\<close>

definition with_occurrence :: "(uuid \<times> int \<times> RecurrenceRule) option \<Rightarrow> Schedule \<Rightarrow> Schedule" where
  "with_occurrence m sch = (case m of None \<Rightarrow> sch
     | Some (seriesID, index, rule) \<Rightarrow>
         sch\<lparr>s_SeriesID := Some seriesID, s_OccurrenceIndex := Some index, s_Recurrence := Some rule\<rparr>)"

definition loadOccurrenceMetadata :: "Schedule \<Rightarrow> Schedule tx" where
  "loadOccurrenceMetadata sch =
     bnd (repo_GetScheduleOccurrence (s_ID sch) (s_UserID sch)) (\<lambda>m. ret (with_occurrence m sch))"

definition getSchedule :: "uuid \<Rightarrow> uuid \<Rightarrow> Schedule tx" where
  "getSchedule userID sid =
     bnd (repo_GetSchedule sid userID) (\<lambda>row.
     case row of
       None \<Rightarrow> fail ErrNotFound
     | Some row \<Rightarrow>
         bnd (repo_ListReminders (sr_ID row)) (\<lambda>reminders.
         loadOccurrenceMetadata (mapSchedule row reminders)))"

definition GetSchedule :: "uuid \<Rightarrow> uuid \<Rightarrow> Schedule tx" where
  "GetSchedule userID sid = getSchedule userID sid"

definition lockScheduleRevision :: "uuid \<Rightarrow> uuid \<Rightarrow> int tx" where
  "lockScheduleRevision userID sid =
     bnd (query (\<lambda>d. map_option sr_Revision (List.find (\<lambda>s. sr_ID s = sid \<and> sr_UserID s = userID) (t_schedules d)))) (\<lambda>rev.
     case rev of None \<Rightarrow> fail ErrNotFound | Some revision \<Rightarrow> ret revision)"

definition ListSchedules :: "uuid \<Rightarrow> time \<Rightarrow> time \<Rightarrow> string option \<Rightarrow> Schedule list tx" where
  "ListSchedules userID from until status =
     bnd (repo_ListSchedules userID from until status) (\<lambda>rows. ret (map (\<lambda>row. mapSchedule row []) rows))"

definition dateBound :: "string \<Rightarrow> int option" where
  "dateBound value = parse_date value"

definition page_params :: "uuid \<Rightarrow> time \<Rightarrow> time \<Rightarrow> string \<Rightarrow> string \<Rightarrow> string option \<Rightarrow> string
    \<Rightarrow> ScheduleCursor option \<Rightarrow> nat \<Rightarrow> ListSchedulesPageParams" where
  "page_params userID from until fromDate toDate status qry cursor limit =
     \<lparr>lp_UserID = userID, lp_StartDate = dateBound toDate, lp_EndDate = dateBound fromDate,
      lp_StartAt = from, lp_StartAt_2 = until, lp_StartAt_3 = until, lp_EndAt = from,
      lp_Status = status, lp_Query = qry, lp_Cursor = map_option (\<lambda>c. (cur_StartAt c, cur_ID c)) cursor,
      lp_Limit = int32 (int limit + 1)\<rparr>"

definition ListSchedulesPage :: "uuid \<Rightarrow> time \<Rightarrow> time \<Rightarrow> string \<Rightarrow> string \<Rightarrow> string option \<Rightarrow> string
    \<Rightarrow> ScheduleCursor option \<Rightarrow> nat \<Rightarrow> (Schedule list \<times> bool) tx" where
  "ListSchedulesPage userID from until fromDate toDate status qry cursor limit =
     bnd (repo_ListSchedulesPage (page_params userID from until fromDate toDate status qry cursor limit)) (\<lambda>rows.
     let hasMore = limit < length rows;
         page = (if hasMore then take limit rows else rows)
     in bnd (collect page (\<lambda>row. loadOccurrenceMetadata (mapSchedule row []))) (\<lambda>schedules.
        ret (schedules, hasMore)))"

section \<open>One schedule\<close>

definition schedule_row_of :: "db \<Rightarrow> uuid \<Rightarrow> uuid \<Rightarrow> schedule_row option" where
  "schedule_row_of d u sid = List.find (\<lambda>s. sr_ID s = sid \<and> sr_UserID s = u) (t_schedules d)"

definition sorted_reminders :: "db \<Rightarrow> uuid \<Rightarrow> reminder_row list" where
  "sorted_reminders d sid = sort_by (\<lambda>a b. rmr_MinutesBefore a \<le> rmr_MinutesBefore b) (reminders_of d sid)"

definition occurrence_of :: "db \<Rightarrow> uuid \<Rightarrow> uuid \<Rightarrow> (uuid \<times> int \<times> RecurrenceRule) option" where
  "occurrence_of d u sid =
     (case List.find (\<lambda>r. ocr_ScheduleID r = sid \<and> owns d u sid) (t_occurrences d) of
        None \<Rightarrow> None
      | Some r \<Rightarrow> map_option (\<lambda>z. (ocr_SeriesID r, ocr_Index r, ser_Recurrence z))
          (List.find (\<lambda>z. ser_SeriesID z = ocr_SeriesID r) (t_series d)))"

definition schedule_of :: "db \<Rightarrow> uuid \<Rightarrow> uuid \<Rightarrow> Schedule option" where
  "schedule_of d u sid = map_option (\<lambda>row.
     with_occurrence (occurrence_of d u sid) (mapSchedule row (sorted_reminders d sid))) (schedule_row_of d u sid)"

lemma mapSchedule_key [simp]:
  "s_ID (mapSchedule row rems) = sr_ID row" "s_UserID (mapSchedule row rems) = sr_UserID row"
  "s_Revision (mapSchedule row rems) = sr_Revision row" "s_Status (mapSchedule row rems) = sr_Status row"
  by (simp_all add: mapSchedule_def)

lemma with_occurrence_key [simp]:
  "s_ID (with_occurrence m s) = s_ID s" "s_UserID (with_occurrence m s) = s_UserID s"
  "s_Revision (with_occurrence m s) = s_Revision s" "s_Status (with_occurrence m s) = s_Status s"
  by (simp_all add: with_occurrence_def split: option.split prod.split)

lemma schedule_row_of_Some: "schedule_row_of d u sid = Some row \<Longrightarrow> row \<in> set (t_schedules d) \<and> sr_ID row = sid \<and> sr_UserID row = u"
  unfolding schedule_row_of_def by (drule find_Some_iff_mem) auto

lemma schedule_row_of_None: "schedule_row_of d u sid = None \<longleftrightarrow> \<not> owns d u sid"
  by (auto simp: schedule_row_of_def find_None_iff_all owns_def)

lemma schedule_of_key: "schedule_of d u sid = Some s \<Longrightarrow> s_ID s = sid \<and> s_UserID s = u"
  by (auto simp: schedule_of_def dest: schedule_row_of_Some)

lemma loadOccurrenceMetadata_run [tx_run]:
  "loadOccurrenceMetadata sch e w = (Inr s, w') \<longleftrightarrow> \<not> fault_at e (w_step w) \<and>
     s = with_occurrence (occurrence_of (w_db w) (s_UserID sch) (s_ID sch)) sch \<and> w' = w\<lparr>w_step := Suc (w_step w)\<rparr>"
  by (auto simp: loadOccurrenceMetadata_def repo_GetScheduleOccurrence_def occurrence_of_def tx_run)

lemma getSchedule_run [tx_run]:
  "getSchedule u sid e w = (Inr s, w') \<longleftrightarrow> (\<forall>i < 3. \<not> fault_at e (w_step w + i))
     \<and> schedule_of (w_db w) u sid = Some s \<and> w' = w\<lparr>w_step := w_step w + 3\<rparr>"
proof (cases "schedule_row_of (w_db w) u sid")
  case None
  then show ?thesis
    by (auto simp: getSchedule_def repo_GetSchedule_def tx_run schedule_of_def schedule_row_of_def)
next
  case (Some row)
  then have "sr_ID row = sid" "sr_UserID row = u" using schedule_row_of_Some by auto
  with Some show ?thesis
    by (auto simp: getSchedule_def repo_GetSchedule_def repo_ListReminders_def tx_run schedule_of_def
        schedule_row_of_def sorted_reminders_def reminders_of_def numeral_3_eq_3 less_Suc_eq)
qed

lemma lockScheduleRevision_run [tx_run]:
  "lockScheduleRevision u sid e w = (Inr n, w') \<longleftrightarrow> \<not> fault_at e (w_step w)
     \<and> map_option sr_Revision (schedule_row_of (w_db w) u sid) = Some n \<and> w' = w\<lparr>w_step := Suc (w_step w)\<rparr>"
  by (auto simp: lockScheduleRevision_def schedule_row_of_def tx_run split: option.splits)

lemma hoare_getSchedule: "hoare P (getSchedule u sid) (\<lambda>s d. P d \<and> schedule_of d u sid = Some s)"
  by (auto simp: hoare_def getSchedule_run)

lemma hoare_lockScheduleRevision:
  "hoare P (lockScheduleRevision u sid) (\<lambda>rev d. P d \<and> owns d u sid \<and> (\<exists>row. schedule_row_of d u sid = Some row \<and> sr_Revision row = rev))"
  by (auto simp: hoare_def lockScheduleRevision_run) (metis option.distinct(1) schedule_row_of_None)

section \<open>Scoping\<close>

lemma find_cong_filter: "(\<And>x. x \<in> set xs \<Longrightarrow> p x \<Longrightarrow> q x) \<Longrightarrow> List.find p xs = List.find p (filter q xs)"
  by (induction xs) auto

lemma find_series_of_view:
  assumes wf: "db_wf d" and r: "r \<in> set (t_occurrences d)" "owns d u (ocr_ScheduleID r)"
  shows "List.find (\<lambda>z. ser_SeriesID z = ocr_SeriesID r) (t_series d)
    = List.find (\<lambda>z. ser_SeriesID z = ocr_SeriesID r) (filter (\<lambda>z. ser_UserID z = u) (t_series d))"
  using linked_owner[OF wf wf_linked[OF wf r(1)] r(2)] by (intro find_cong_filter) auto

lemma reminders_of_view:
  "owns d u sid \<Longrightarrow> reminders_of d sid = filter (\<lambda>r. rmr_ScheduleID r = sid) (filter (\<lambda>r. owns d u (rmr_ScheduleID r)) (t_reminders d))"
  by (auto simp: reminders_of_def intro!: filter_cong)

lemma find_occurrence_view:
  "owns d u sid \<Longrightarrow> List.find (\<lambda>r. ocr_ScheduleID r = sid \<and> owns d u sid) (t_occurrences d)
    = List.find (\<lambda>r. ocr_ScheduleID r = sid) (filter (\<lambda>r. owns d u (ocr_ScheduleID r)) (t_occurrences d))"
  by (auto simp: find_filter_conj intro!: arg_cong[where f = "\<lambda>p. List.find p (t_occurrences d)"])

lemma occurrence_of_view:
  assumes "owns d u sid"
  shows "occurrence_of d u sid =
     (case List.find (\<lambda>r. ocr_ScheduleID r = sid) (filter (\<lambda>r. owns d u (ocr_ScheduleID r)) (t_occurrences d)) of
        None \<Rightarrow> None
      | Some r \<Rightarrow> map_option (\<lambda>z. (ocr_SeriesID r, ocr_Index r, ser_Recurrence z))
          (List.find (\<lambda>z. ser_SeriesID z = ocr_SeriesID r) (t_series d)))"
  by (simp only: occurrence_of_def find_occurrence_view[OF assms])

lemma schedule_row_of_view:
  "schedule_row_of d u sid = List.find (\<lambda>s. sr_ID s = sid) (filter (\<lambda>s. sr_UserID s = u) (t_schedules d))"
  by (simp add: schedule_row_of_def find_filter_conj conj_commute)

text \<open>What a user sees of a schedule depends on that user's own data only.\<close>

lemma schedule_of_view:
  assumes wf: "db_wf a" "db_wf b" and view: "user_view u a = user_view u b"
  shows "schedule_of a u sid = schedule_of b u sid"
proof -
  have sch: "filter (\<lambda>s. sr_UserID s = u) (t_schedules a) = filter (\<lambda>s. sr_UserID s = u) (t_schedules b)"
    and rem: "filter (\<lambda>r. owns a u (rmr_ScheduleID r)) (t_reminders a) = filter (\<lambda>r. owns b u (rmr_ScheduleID r)) (t_reminders b)"
    and ser: "filter (\<lambda>z. ser_UserID z = u) (t_series a) = filter (\<lambda>z. ser_UserID z = u) (t_series b)"
    and occ: "filter (\<lambda>r. owns a u (ocr_ScheduleID r)) (t_occurrences a) = filter (\<lambda>r. owns b u (ocr_ScheduleID r)) (t_occurrences b)"
    using view by (simp_all add: user_view_def)
  have rows: "schedule_row_of a u sid = schedule_row_of b u sid" by (simp only: schedule_row_of_view sch)
  show ?thesis
  proof (cases "owns a u sid")
    case False
    then show ?thesis
      using rows schedule_row_of_None[of a u sid] by (simp add: schedule_of_def)
  next
    case True
    with rows have b: "owns b u sid" by (metis schedule_row_of_None)
    have rems: "reminders_of a sid = reminders_of b sid"
      by (simp only: reminders_of_view[OF True] reminders_of_view[OF b] rem)
    have "occurrence_of a u sid = occurrence_of b u sid"
    proof (cases "List.find (\<lambda>r. ocr_ScheduleID r = sid) (filter (\<lambda>r. owns a u (ocr_ScheduleID r)) (t_occurrences a))")
      case None
      with occ show ?thesis by (simp add: occurrence_of_view True b)
    next
      case (Some r)
      then have ra: "r \<in> set (filter (\<lambda>r. owns a u (ocr_ScheduleID r)) (t_occurrences a))"
        by (blast dest: find_Some_iff_mem)
      then have rb: "r \<in> set (filter (\<lambda>r. owns b u (ocr_ScheduleID r)) (t_occurrences b))"
        by (simp only: occ)
      have "List.find (\<lambda>z. ser_SeriesID z = ocr_SeriesID r) (t_series a) = List.find (\<lambda>z. ser_SeriesID z = ocr_SeriesID r) (t_series b)"
        using ra rb ser find_series_of_view[OF wf(1), of r u] find_series_of_view[OF wf(2), of r u] by auto
      with Some occ show ?thesis by (simp add: occurrence_of_view True b)
    qed
    then show ?thesis by (simp add: schedule_of_def rows sorted_reminders_def rems)
  qed
qed

text \<open>
  C25: Reading is scoped to the user. When the database answers, a schedule of another user is not
  found, exactly like one that does not exist; an own schedule is returned. The answer is a function
  of the data the tables hold for that user: two databases that agree on it give the same answer,
  whatever they hold for others.
\<close>

theorem GetSchedule_scoped:
  assumes "db_wf (w_db w)" and "db_wf (w_db v)" and "user_view u (w_db w) = user_view u (w_db v)"
    and "\<And>n. \<not> fault_at e n"
  shows "fst (GetSchedule u sid e w) = fst (GetSchedule u sid e v)
     \<and> (\<not> owns (w_db w) u sid \<longrightarrow> fst (GetSchedule u sid e w) = Inl ErrNotFound)
     \<and> (owns (w_db w) u sid \<longrightarrow> (\<exists>s. fst (GetSchedule u sid e w) = Inr s \<and> s_ID s = sid \<and> s_UserID s = u))"
proof -
  have res: "fst (GetSchedule u sid e x) = (case schedule_of (w_db x) u sid of None \<Rightarrow> Inl ErrNotFound | Some s \<Rightarrow> Inr s)" for x
  proof (cases "schedule_of (w_db x) u sid")
    case None
    then have "schedule_row_of (w_db x) u sid = None" by (simp add: schedule_of_def)
    then show ?thesis
      using None assms(4)
      by (simp add: GetSchedule_def getSchedule_def repo_GetSchedule_def bnd_def query_def sql_def fail_def Let_def
          schedule_row_of_def)
  next
    case (Some s)
    then have "getSchedule u sid e x = (Inr s, x\<lparr>w_step := w_step x + 3\<rparr>)"
      using assms(4) by (simp add: getSchedule_run)
    then show ?thesis using Some by (simp add: GetSchedule_def)
  qed
  have "schedule_of (w_db w) u sid = None \<longleftrightarrow> \<not> owns (w_db w) u sid"
    by (simp add: schedule_of_def schedule_row_of_None)
  then show ?thesis
    using schedule_of_view[OF assms(1-3), of sid] schedule_of_key[of "w_db w" u sid]
    by (auto simp: res split: option.splits)
qed

theorem GetSchedule_scoped_witness:
  "fst (GetSchedule 1 12 sample_env (sample_world sample_db)) = Inl ErrNotFound
   \<and> (\<exists>s. fst (GetSchedule 1 11 sample_env (sample_world sample_db)) = Inr s \<and> s_ID s = 11 \<and> s_UserID s = 1)"
proof -
  have "\<not> owns sample_db 1 12" "owns sample_db 1 11"
    by (simp_all add: owns_def sample_defs)
  then show ?thesis
    using GetSchedule_scoped[of "sample_world sample_db" "sample_world sample_db" 1 sample_env 12]
      GetSchedule_scoped[of "sample_world sample_db" "sample_world sample_db" 1 sample_env 11] sample_db_wf
    by simp
qed

section \<open>Pagination\<close>

lemma filter_ins_by:
  assumes "\<And>a b c. le a b \<Longrightarrow> le b c \<Longrightarrow> le a c" and "sorted_wrt le ys"
  shows "filter q (ins_by le x ys) = (if q x then ins_by le x (filter q ys) else filter q ys)"
  using assms(2)
proof (induction ys)
  case Nil
  then show ?case by simp
next
  case (Cons y ys)
  have "ins_by le x (filter q ys) = x # filter q ys" if "le x y"
    using that Cons.prems assms(1) by (cases "filter q ys") (auto dest!: filter_eq_ConsD)
  with Cons show ?case by auto
qed

lemma sort_by_filter:
  assumes "\<And>a b. le a b \<or> le b a" and "\<And>a b c. le a b \<Longrightarrow> le b c \<Longrightarrow> le a c"
  shows "sort_by le (filter q xs) = filter q (sort_by le xs)"
  by (induction xs) (simp_all add: filter_ins_by[where le = le, OF assms(2) sorted_wrt_sort_by[where le = le, OF assms]])

lemma start_id_le_order:
  "start_id_le a b \<or> start_id_le b a" "start_id_le a b \<Longrightarrow> start_id_le b c \<Longrightarrow> start_id_le a c"
  by (auto simp: start_id_le_def)

definition page_list :: "env \<Rightarrow> ListSchedulesPageParams \<Rightarrow> db \<Rightarrow> schedule_row list" where
  "page_list e p d = sort_by start_id_le (filter (page_match e p) (t_schedules d))"

lemma page_list_sorted: "sorted_wrt start_id_le (page_list e p d)"
  unfolding page_list_def by (rule sorted_wrt_sort_by) (auto simp: start_id_le_def)

lemma page_list_distinct: "db_wf d \<Longrightarrow> distinct (map sr_ID (page_list e p d))"
  by (auto simp: page_list_def db_wf_def keys_ok_def)

lemma filter_after_nth:
  assumes "sorted_wrt start_id_le rows" and "distinct (map sr_ID rows)" and "i < length rows"
    and t: "arg_time e (sr_StartAt (rows ! i)) = sr_StartAt (rows ! i)"
  shows "filter (page_after e (Some (sr_StartAt (rows ! i), sr_ID (rows ! i)))) rows = drop (Suc i) rows"
proof -
  let ?q = "page_after e (Some (sr_StartAt (rows ! i), sr_ID (rows ! i)))"
  have "filter ?q (take (Suc i) rows) = []"
  proof -
    have "start_id_le r (rows ! i)" if r: "r \<in> set (take (Suc i) rows)" for r
    proof -
      obtain j where "j < length (take (Suc i) rows)" "take (Suc i) rows ! j = r"
        using r unfolding in_set_conv_nth by blast
      then have "j \<le> i" "r = rows ! j" by auto
      then show ?thesis
        using sorted_wrt_nth_less[OF assms(1), of j i] assms(3) by (cases "j = i") (auto simp: start_id_le_def)
    qed
    then show ?thesis by (fastforce simp: filter_empty_conv page_after_def t start_id_le_def)
  qed
  moreover have "filter ?q (drop (Suc i) rows) = drop (Suc i) rows"
  proof (rule filter_True, rule ballI)
    fix r assume "r \<in> set (drop (Suc i) rows)"
    then obtain j where "j < length (drop (Suc i) rows)" "drop (Suc i) rows ! j = r"
      unfolding in_set_conv_nth by blast
    then have j: "Suc i + j < length rows" "r = rows ! (Suc i + j)" by auto
    have "start_id_le (rows ! i) r" and "sr_ID (rows ! i) \<noteq> sr_ID r"
      using j sorted_wrt_nth_less[OF assms(1), of i "Suc i + j"] nth_eq_iff_index_eq[OF assms(2), of i "Suc i + j"] by auto
    then show "?q r" by (auto simp: page_after_def t start_id_le_def)
  qed
  ultimately show ?thesis by (metis append_take_drop_id filter_append append_Nil)
qed

text \<open>The cursor that the client passes on after having seen the first \<open>i\<close> rows.\<close>

definition cursor_at :: "schedule_row list \<Rightarrow> nat \<Rightarrow> ScheduleCursor option" where
  "cursor_at rows i = (if i = 0 then None
     else Some \<lparr>cur_StartAt = sr_StartAt (rows ! (i - 1)), cur_ID = sr_ID (rows ! (i - 1))\<rparr>)"

lemma read_start: "s_StartAt (with_occurrence m (mapSchedule row rems)) = sr_StartAt row"
  by (simp add: with_occurrence_def mapSchedule_def split: option.split prod.split)

lemma collect_metadata_run:
  "collect rows (\<lambda>row. loadOccurrenceMetadata (mapSchedule row [])) e w = (Inr ss, w') \<Longrightarrow>
   map s_ID ss = map sr_ID rows \<and> map s_StartAt ss = map sr_StartAt rows \<and> w_db w' = w_db w"
  by (induction rows arbitrary: w ss) (auto simp: tx_run read_start)

lemma page_match_params:
  "page_match e (page_params u from until fd td st q c k) = page_match e (page_params u from until fd td st q c' k')"
  by (simp add: fun_eq_iff page_match_def page_range_def page_params_def split: option.split)

text \<open>
  Following the cursors lists every matching schedule exactly once and in order. With the cursor
  of the last row seen, the page is the next \<open>limit\<close> rows of the full result, ordered by start and
  identifier, and \<open>hasMore\<close> says whether rows remain. (A stored start time survives being sent as
  an argument.)
\<close>

theorem ListSchedulesPage_pages:
  assumes run: "ListSchedulesPage u from until fd td st q (cursor_at rows i) limit e w = (Inr (page, hasMore), w')"
    and rows: "rows = page_list e (page_params u from until fd td st q None limit) (w_db w)"
    and i: "i \<le> length rows" and wf: "db_wf (w_db w)" and lim: "limit < 2 ^ 31 - 1"
    and exact: "\<And>s. s \<in> set (t_schedules (w_db w)) \<Longrightarrow> arg_time e (sr_StartAt s) = sr_StartAt s"
  shows "map s_ID page = map sr_ID (take limit (drop i rows)) \<and> map s_StartAt page = map sr_StartAt (take limit (drop i rows))
     \<and> (hasMore \<longleftrightarrow> i + limit < length rows)
     \<and> sorted_wrt start_id_le rows \<and> distinct (map sr_ID rows) \<and> w_db w' = w_db w"
proof -
  let ?p = "page_params u from until fd td st q (cursor_at rows i) limit"
  have sorted: "sorted_wrt start_id_le rows" and dist: "distinct (map sr_ID rows)"
    by (simp_all add: rows page_list_sorted page_list_distinct wf)
  have "filter (page_after e (lp_Cursor ?p)) rows = drop i rows"
  proof (cases i)
    case 0
    then show ?thesis by (simp add: cursor_at_def page_params_def page_after_def)
  next
    case (Suc j)
    then have "rows ! j \<in> set (t_schedules (w_db w))"
      using i nth_mem[of j rows] by (auto simp: rows page_list_def)
    then show ?thesis
      using Suc i filter_after_nth[OF sorted dist, of j e] exact by (simp add: cursor_at_def page_params_def)
  qed
  moreover have "page_match e ?p = page_match e (page_params u from until fd td st q None limit)"
    by (rule page_match_params)
  moreover have "filter (\<lambda>s. page_match e ?p s \<and> page_after e (lp_Cursor ?p) s) xs
      = filter (page_after e (lp_Cursor ?p)) (filter (page_match e ?p) xs)" for xs
    by (simp add: conj_commute)
  ultimately have sel: "sort_by start_id_le (filter (\<lambda>s. page_match e ?p s \<and> page_after e (lp_Cursor ?p) s) (t_schedules (w_db w)))
      = drop i rows"
    by (simp only: rows page_list_def sort_by_filter[of start_id_le, OF start_id_le_order])
  have limit: "nat (lp_Limit ?p) = Suc limit"
    using lim by (simp add: page_params_def)
  from run show ?thesis
    using sorted dist i
    by (auto simp: ListSchedulesPage_def repo_ListSchedulesPage_def tx_run sel limit Let_def min_def take_map
        dest!: collect_metadata_run split: if_splits)
qed

theorem ListSchedulesPage_pages_witness:
  "\<exists>page hasMore w'. ListSchedulesPage 1 0 hour [] [] None [] None 10 sample_env (sample_world sample_db) = (Inr (page, hasMore), w')
     \<and> map s_ID page = [11] \<and> \<not> hasMore"
proof -
  let ?rows = "page_list sample_env (page_params 1 0 hour [] [] None [] None 10) sample_db"
  have "page_range sample_env (page_params 1 0 hour [] [] None [] None 10) sample_schedule"
    by (simp add: page_range_def sample_defs page_params_def)
  then have rows: "?rows = [sample_schedule]"
    by (simp add: page_list_def page_match_def page_params_def sample_defs)
  obtain res w' where run: "ListSchedulesPage 1 0 hour [] [] None [] None 10 sample_env (sample_world sample_db)
      = (Inr res, w')"
    by (simp add: ListSchedulesPage_def repo_ListSchedulesPage_def loadOccurrenceMetadata_def
        repo_GetScheduleOccurrence_def bnd_def query_def sql_def ret_def Let_def sample_defs page_match_def page_range_def
        page_after_def page_params_def)
  from ListSchedulesPage_pages[of 1 0 hour "[]" "[]" None "[]" ?rows 0 10 sample_env "sample_world sample_db"] run
  show ?thesis by (cases res) (simp add: rows cursor_at_def sample_db_wf, simp add: sample_schedule_def exI[of _ False])
qed

end
