(* ===== verification/Idempotency.thy ===== *)
theory Idempotency
  imports Lookup
begin

text \<open>
  Idempotency keys (\<open>internal/service/schedules.go\<close>). A mutation with a key first claims it: it
  deletes an expired claim, inserts its own, and on a duplicate key compares the saved request with
  its own and returns the saved response. The claim, the mutation and the response commit together.
  The key column of the create requests compares binary; that of the mutation requests uses the
  default collation of the schema (\<open>key_collate\<close>).
\<close>

section \<open>Definitions\<close>

definition create_hit :: "uuid \<Rightarrow> string \<Rightarrow> create_request_row \<Rightarrow> bool" where
  "create_hit userID key r \<longleftrightarrow> cr_UserID r = userID \<and> cr_Key r = key"

definition insert_create_request :: "uuid \<Rightarrow> string \<Rightarrow> hash \<Rightarrow> unit tx" where
  "insert_create_request userID key h = sql (\<lambda>e n d.
     if \<exists>r \<in> set (t_create_requests d). create_hit userID key r then Inl MySQLDuplicate
     else Inr ((), d\<lparr>t_create_requests := t_create_requests d @
       [\<lparr>cr_UserID = userID, cr_Key = key, cr_Hash = h, cr_Response = None,
         cr_ExpiresAt = now_at e n + 24 * hour\<rparr>]\<rparr>))"

text \<open>The hash of the request without its key.\<close>

definition request_hash :: "env \<Rightarrow> CreateScheduleInput \<Rightarrow> hash option" where
  "request_hash e inp = map_option (sha256 e) (json_input e (inp\<lparr>in_IdempotencyKey := []\<rparr>))"

definition claimScheduleCreate :: "uuid \<Rightarrow> CreateScheduleInput \<Rightarrow> Schedule option tx" where
  "claimScheduleCreate userID inp =
     (let key = in_IdempotencyKey inp
      in bnd (ask (\<lambda>e. request_hash e inp)) (\<lambda>request.
         case request of
           None \<Rightarrow> fail JSONError
         | Some h \<Rightarrow>
             bnd (exec_now (\<lambda>now d. d\<lparr>t_create_requests :=
               filter (\<lambda>r. \<not> (create_hit userID key r \<and> cr_ExpiresAt r \<le> now)) (t_create_requests d)\<rparr>)) (\<lambda>_.
             rescue (bnd (insert_create_request userID key h) (\<lambda>_. ret None)) (\<lambda>er.
               if er \<noteq> MySQLDuplicate then fail er
               else bnd (query (\<lambda>d. List.find (create_hit userID key) (t_create_requests d))) (\<lambda>saved.
                 case saved of
                   None \<Rightarrow> fail DBError
                 | Some r \<Rightarrow>
                     if cr_Hash r \<noteq> h then fail ErrIdempotencyConflict
                     else (case cr_Response r of
                         Some (RSchedule sch) \<Rightarrow>
                           bnd (query (\<lambda>d. owns d userID (s_ID sch))) (\<lambda>exists.
                           if exists then ret (Some sch) else fail ErrIdempotencyConflict)
                       | _ \<Rightarrow> fail JSONError))))))"

definition save_create_response :: "uuid \<Rightarrow> string \<Rightarrow> Schedule \<Rightarrow> unit tx" where
  "save_create_response userID key sch =
     bnd (guard (json_Schedule_ok sch) JSONError) (\<lambda>_.
     exec (\<lambda>d. d\<lparr>t_create_requests := upd_where (create_hit userID key)
       (\<lambda>r. r\<lparr>cr_Response := Some (RSchedule sch)\<rparr>) (t_create_requests d)\<rparr>))"

text \<open>\<open>ck\<close> is the key as the column compares it.\<close>

definition mutation_hit :: "uuid \<Rightarrow> string \<Rightarrow> string \<Rightarrow> mutation_request_row \<Rightarrow> bool" where
  "mutation_hit userID operation ck r \<longleftrightarrow> mr_UserID r = userID \<and> mr_Operation r = operation \<and> mr_Key r = ck"

definition insert_mutation_request :: "uuid \<Rightarrow> uuid \<Rightarrow> string \<Rightarrow> string \<Rightarrow> hash \<Rightarrow> unit tx" where
  "insert_mutation_request userID scheduleID operation ck h = sql (\<lambda>e n d.
     if \<exists>r \<in> set (t_mutation_requests d). mutation_hit userID operation ck r then Inl MySQLDuplicate
     else Inr ((), d\<lparr>t_mutation_requests := t_mutation_requests d @
       [\<lparr>mr_UserID = userID, mr_Operation = operation, mr_Key = ck, mr_ScheduleID = scheduleID, mr_Hash = h,
         mr_Response = None, mr_ExpiresAt = now_at e n + 24 * hour\<rparr>]\<rparr>))"

text \<open>\<open>Some response\<close> is a replay, \<open>None\<close> a fresh claim.\<close>

definition claimScheduleMutation :: "uuid \<Rightarrow> uuid \<Rightarrow> string \<Rightarrow> string \<Rightarrow> hash \<Rightarrow> response option option tx" where
  "claimScheduleMutation userID scheduleID operation key requestHash =
     bnd (ask (\<lambda>e. key_collate e key)) (\<lambda>ck.
     bnd (exec_now (\<lambda>now d. d\<lparr>t_mutation_requests :=
       filter (\<lambda>r. \<not> (mutation_hit userID operation ck r \<and> mr_ExpiresAt r \<le> now)) (t_mutation_requests d)\<rparr>)) (\<lambda>_.
     rescue (bnd (insert_mutation_request userID scheduleID operation ck requestHash) (\<lambda>_. ret None)) (\<lambda>er.
       if er \<noteq> MySQLDuplicate then fail er
       else bnd (query (\<lambda>d. List.find (mutation_hit userID operation ck) (t_mutation_requests d))) (\<lambda>saved.
         case saved of
           None \<Rightarrow> fail DBError
         | Some r \<Rightarrow>
             if mr_ScheduleID r \<noteq> scheduleID \<or> mr_Hash r \<noteq> requestHash then fail ErrIdempotencyConflict
             else ret (Some (mr_Response r))))))"

definition save_mutation_response :: "uuid \<Rightarrow> string \<Rightarrow> string \<Rightarrow> response \<Rightarrow> unit tx" where
  "save_mutation_response userID operation key resp =
     bnd (ask (\<lambda>e. key_collate e key)) (\<lambda>ck.
     exec (\<lambda>d. d\<lparr>t_mutation_requests := upd_where (mutation_hit userID operation ck)
       (\<lambda>r. r\<lparr>mr_Response := Some resp\<rparr>) (t_mutation_requests d)\<rparr>))"

definition ReplayScheduleUpdate :: "uuid \<Rightarrow> uuid \<Rightarrow> string \<Rightarrow> hash \<Rightarrow> Schedule option tx" where
  "ReplayScheduleUpdate userID sid key requestHash =
     (if key = [] then ret None
      else bnd (ask (\<lambda>e. key_collate e key)) (\<lambda>ck.
        bnd (sql (\<lambda>e n d. Inr (List.find (\<lambda>r. mutation_hit userID ''update'' ck r \<and> now_at e n < mr_ExpiresAt r)
          (t_mutation_requests d), d))) (\<lambda>saved.
        case saved of
          None \<Rightarrow> ret None
        | Some r \<Rightarrow>
            if mr_ScheduleID r \<noteq> sid \<or> mr_Hash r \<noteq> requestHash then fail ErrIdempotencyConflict
            else bnd (GetSchedule userID sid) (\<lambda>_.
              case mr_Response r of
                Some (RSchedule sch) \<Rightarrow> ret (Some sch)
              | _ \<Rightarrow> fail JSONError))))"

section \<open>Claims keep the tables in order\<close>

lemma hit_user:
  "create_hit u k r \<Longrightarrow> cr_UserID r = u" "mutation_hit u op ck m \<Longrightarrow> mr_UserID m = u"
  by (simp_all add: create_hit_def mutation_hit_def)

text \<open>The outcomes of a claim.\<close>

definition live_creates :: "uuid \<Rightarrow> string \<Rightarrow> time \<Rightarrow> db \<Rightarrow> create_request_row list" where
  "live_creates u k now d = filter (\<lambda>r. \<not> (create_hit u k r \<and> cr_ExpiresAt r \<le> now)) (t_create_requests d)"

definition live_mutations :: "uuid \<Rightarrow> string \<Rightarrow> string \<Rightarrow> time \<Rightarrow> db \<Rightarrow> mutation_request_row list" where
  "live_mutations u op ck now d = filter (\<lambda>r. \<not> (mutation_hit u op ck r \<and> mr_ExpiresAt r \<le> now)) (t_mutation_requests d)"

lemma claimScheduleCreate_run:
  assumes "claimScheduleCreate u inp e w = (Inr res, w')"
  shows "\<exists>h. request_hash e inp = Some h
     \<and> (let k = in_IdempotencyKey inp; rows = live_creates u k (now_at e (w_step w)) (w_db w)
        in (res = None \<and> (\<forall>r \<in> set rows. \<not> create_hit u k r)
             \<and> w_db w' = (w_db w)\<lparr>t_create_requests := rows @ [\<lparr>cr_UserID = u, cr_Key = k, cr_Hash = h,
                 cr_Response = None, cr_ExpiresAt = now_at e (Suc (w_step w)) + 24 * hour\<rparr>]\<rparr>)
         \<or> (\<exists>r sch. List.find (create_hit u k) rows = Some r \<and> cr_Hash r = h \<and> cr_Response r = Some (RSchedule sch)
             \<and> res = Some sch \<and> owns (w_db w) u (s_ID sch) \<and> w_db w' = (w_db w)\<lparr>t_create_requests := rows\<rparr>))"
proof -
  from assms obtain h where h: "request_hash e inp = Some h"
    by (auto simp: claimScheduleCreate_def bnd_run ask_run fail_run Let_def split: option.splits)
  show ?thesis
    using assms unfolding claimScheduleCreate_def Let_def
    by (auto simp: h bnd_def ask_def exec_now_def rescue_def insert_create_request_def ret_def fail_def query_def sql_def
        Let_def live_creates_def split: if_splits option.splits response.splits)
qed

lemma claimScheduleMutation_run:
  assumes "claimScheduleMutation u sid op key h e w = (Inr res, w')"
  shows "(let ck = key_collate e key; rows = live_mutations u op ck (now_at e (w_step w)) (w_db w)
     in (res = None \<and> (\<forall>r \<in> set rows. \<not> mutation_hit u op ck r)
          \<and> w_db w' = (w_db w)\<lparr>t_mutation_requests := rows @ [\<lparr>mr_UserID = u, mr_Operation = op, mr_Key = ck,
              mr_ScheduleID = sid, mr_Hash = h, mr_Response = None, mr_ExpiresAt = now_at e (Suc (w_step w)) + 24 * hour\<rparr>]\<rparr>)
      \<or> (\<exists>r. List.find (mutation_hit u op ck) rows = Some r \<and> mr_ScheduleID r = sid \<and> mr_Hash r = h
          \<and> res = Some (mr_Response r) \<and> w_db w' = (w_db w)\<lparr>t_mutation_requests := rows\<rparr>))"
  using assms unfolding claimScheduleMutation_def
  by (auto simp: bnd_def ask_def exec_now_def rescue_def insert_mutation_request_def ret_def fail_def query_def sql_def
      Let_def live_mutations_def split: if_splits option.splits)

context user_store
begin

lemma keys_distinct:
  "I d \<Longrightarrow> distinct (map (\<lambda>r. (cr_UserID r, cr_Key r)) (t_create_requests d))"
  "I d \<Longrightarrow> distinct (map (\<lambda>r. (mr_UserID r, mr_Operation r, mr_Key r)) (t_mutation_requests d))"
  using wf[of d] by (simp_all add: db_wf_def keys_ok_def)

lemma drop_create_requests: "I d \<Longrightarrow>
    I (d\<lparr>t_create_requests := filter (\<lambda>r. \<not> (create_hit u k r \<and> q r)) (t_create_requests d)\<rparr>)"
  using keys_distinct(1)[of d]
  by (intro create_requests) (auto dest: hit_user intro!: filter_cong distinct_map_filter)

lemma drop_mutation_requests: "I d \<Longrightarrow>
    I (d\<lparr>t_mutation_requests := filter (\<lambda>r. \<not> (mutation_hit u op ck r \<and> q r)) (t_mutation_requests d)\<rparr>)"
  using keys_distinct(2)[of d]
  by (intro mutation_requests) (auto dest: hit_user intro!: filter_cong distinct_map_filter)

lemma add_create_request: "I d \<Longrightarrow> \<not> (\<exists>r \<in> set (t_create_requests d). create_hit u k r) \<Longrightarrow>
    cr_UserID c = u \<Longrightarrow> cr_Key c = k \<Longrightarrow> I (d\<lparr>t_create_requests := t_create_requests d @ [c]\<rparr>)"
  using keys_distinct(1)[of d] by (intro create_requests) (auto simp: create_hit_def)

lemma add_mutation_request: "I d \<Longrightarrow> \<not> (\<exists>r \<in> set (t_mutation_requests d). mutation_hit u op ck r) \<Longrightarrow>
    mr_UserID c = u \<Longrightarrow> mr_Operation c = op \<Longrightarrow> mr_Key c = ck \<Longrightarrow>
    I (d\<lparr>t_mutation_requests := t_mutation_requests d @ [c]\<rparr>)"
  using keys_distinct(2)[of d] by (intro mutation_requests) (auto simp: mutation_hit_def)

lemma hoare_claimScheduleCreate: "hoare I (claimScheduleCreate u inp) (\<lambda>_. I)"
  unfolding hoare_def
proof (intro allI impI)
  fix e w res w' assume I: "I (w_db w)" and run: "claimScheduleCreate u inp e w = (Inr res, w')"
  let ?k = "in_IdempotencyKey inp"
  let ?rows = "live_creates u ?k (now_at e (w_step w)) (w_db w)"
  have "I ((w_db w)\<lparr>t_create_requests := ?rows\<rparr>)"
    unfolding live_creates_def by (rule drop_create_requests[OF I])
  moreover from this have "I ((w_db w)\<lparr>t_create_requests := ?rows @ [c]\<rparr>)"
    if "\<forall>r \<in> set ?rows. \<not> create_hit u ?k r" "cr_UserID c = u" "cr_Key c = ?k" for c
    using add_create_request[of "(w_db w)\<lparr>t_create_requests := ?rows\<rparr>" ?k c] that by simp
  ultimately show "I (w_db w')"
    using claimScheduleCreate_run[OF run] by (auto simp: Let_def)
qed

lemma hoare_claimScheduleMutation: "hoare I (claimScheduleMutation u sid op key h) (\<lambda>_. I)"
  unfolding hoare_def
proof (intro allI impI)
  fix e w res w' assume I: "I (w_db w)" and run: "claimScheduleMutation u sid op key h e w = (Inr res, w')"
  let ?ck = "key_collate e key"
  let ?rows = "live_mutations u op ?ck (now_at e (w_step w)) (w_db w)"
  have "I ((w_db w)\<lparr>t_mutation_requests := ?rows\<rparr>)"
    unfolding live_mutations_def by (rule drop_mutation_requests[OF I])
  moreover from this have "I ((w_db w)\<lparr>t_mutation_requests := ?rows @ [c]\<rparr>)"
    if "\<forall>r \<in> set ?rows. \<not> mutation_hit u op ?ck r" "mr_UserID c = u" "mr_Operation c = op" "mr_Key c = ?ck" for c
    using add_mutation_request[of "(w_db w)\<lparr>t_mutation_requests := ?rows\<rparr>" op ?ck c] that by simp
  ultimately show "I (w_db w')"
    using claimScheduleMutation_run[OF run] by (auto simp: Let_def)
qed

lemma hoare_save_create_response: "hoare I (save_create_response u k sch) (\<lambda>_. I)"
proof -
  have "I (d\<lparr>t_create_requests := upd_where (create_hit u k) (\<lambda>r. r\<lparr>cr_Response := x\<rparr>) (t_create_requests d)\<rparr>)" if "I d" for d x
    using keys_distinct(1)[OF that] that
    by (intro create_requests) (auto simp: map_upd_where create_hit_def intro!: filter_upd_where_other)
  then show ?thesis
    unfolding save_create_response_def by (intro hoare_seq hoare_idle hoare_exec)
qed

lemma hoare_save_mutation_response: "hoare I (save_mutation_response u op k resp) (\<lambda>_. I)"
proof -
  have "I (d\<lparr>t_mutation_requests := upd_where (mutation_hit u op ck) (\<lambda>r. r\<lparr>mr_Response := x\<rparr>) (t_mutation_requests d)\<rparr>)"
    if "I d" for d x ck
    using keys_distinct(2)[OF that] that
    by (intro mutation_requests) (auto simp: map_upd_where mutation_hit_def intro!: filter_upd_where_other)
  then show ?thesis
    unfolding save_mutation_response_def by (intro hoare_seq hoare_idle hoare_exec)
qed

end

section \<open>The frame of a mutation\<close>

text \<open>
  Every mutation runs a transaction, counts what it did after the commit, and tries to dispatch one
  event; a replay returns before the commit and does neither.
\<close>

definition mutation :: "'a outcome tx \<Rightarrow> ('a \<Rightarrow> unit tx) \<Rightarrow> 'a tx" where
  "mutation body count = bnd (run_tx body) (\<lambda>r. case r of
     Early x \<Rightarrow> ret x
   | Commit x \<Rightarrow> bnd (count x) (\<lambda>_. bnd dispatchOutbox (\<lambda>_. ret x)))"

definition metrics_only :: "unit tx \<Rightarrow> bool" where
  "metrics_only p \<longleftrightarrow> (\<forall>e w. fst (p e w) = Inr () \<and> w_db (snd (p e w)) = w_db w)"

lemma metrics_only_simps [simp]:
  "metrics_only (ret ())" "metrics_only (count_mutation op n)"
  "metrics_only (if b then p else q) \<longleftrightarrow> (if b then metrics_only p else metrics_only q)"
  by (simp_all add: metrics_only_def ret_def count_mutation_def)

lemma after_commit_total:
  assumes "\<And>x. metrics_only (count x)"
  shows "\<exists>x w3. (case y of Early x \<Rightarrow> ret x | Commit x \<Rightarrow> bnd (count x) (\<lambda>_. bnd dispatchOutbox (\<lambda>_. ret x))) e w1 = (Inr x, w3)"
proof -
  have "\<exists>w2. count x e w1 = (Inr (), w2)" for x
    using assms[of x] unfolding metrics_only_def by (metis prod.collapse)
  moreover have "\<exists>w3. dispatchOutbox e w2 = (Inr (), w3)" for w2
    using dispatchOutbox_total[of e w2] by (metis prod.collapse)
  ultimately show ?thesis
    by (cases y) (simp_all add: ret_def bnd_run ret_run, metis)
qed

lemma mutation_error:
  assumes "mutation body count e w = (Inl er, w')" and "\<And>x. metrics_only (count x)"
  shows "run_tx body e w = (Inl er, w') \<and> w_db w' = w_db w"
proof -
  obtain r w1 where r: "run_tx body e w = (r, w1)" by fastforce
  obtain er' where er': "r = Inl er'"
    using after_commit_total[of count _ e w1, OF assms(2)] assms(1) r
    by (cases r) (auto simp: mutation_def bnd_def, metis Inl_Inr_False prod.inject)
  with assms(1) r have "w' = w1" "er' = er" by (simp_all add: mutation_def bnd_def)
  with r er' run_tx_error[OF r[unfolded er']] show ?thesis by simp
qed

lemma mutation_total:
  assumes "\<And>x. metrics_only (count x)" and "\<not> isl (fst (run_tx body e w))"
  shows "\<not> isl (fst (mutation body count e w))"
proof
  assume "isl (fst (mutation body count e w))"
  then obtain er w' where "mutation body count e w = (Inl er, w')" by (metis isl_def prod.collapse)
  from mutation_error[OF this assms(1)] assms(2) show False by simp
qed

lemma mutation_success:
  assumes "mutation body count e w = (Inr x, w')" and "\<And>x. metrics_only (count x)"
  obtains (replayed) w1 where "run_tx body e w = (Inr (Early x), w1)" and "w_db w' = w_db w" and "w' = w1"
    | (committed) w1 where "run_tx body e w = (Inr (Commit x), w1)" and "lease_only (w_db w1) (w_db w')"
proof -
  from assms(1) obtain r w1 where r: "run_tx body e w = (Inr r, w1)"
    and rest: "(case r of Early x \<Rightarrow> ret x | Commit x \<Rightarrow> bnd (count x) (\<lambda>_. bnd dispatchOutbox (\<lambda>_. ret x))) e w1 = (Inr x, w')"
    by (auto simp: mutation_def bnd_run)
  show thesis
  proof (cases r)
    case (Early y)
    with r rest run_tx_early_db[of body e w y w1] show thesis by (intro replayed) (auto simp: ret_run)
  next
    case (Commit y)
    with rest obtain w2 w3 where w2: "count y e w1 = (Inr (), w2)" and w3: "dispatchOutbox e w2 = (Inr (), w3)"
      and x: "x = y" "w' = w3"
      by (auto simp: bnd_run ret_run)
    have "w_db w2 = w_db w1" using assms(2)[of y] w2 by (metis metrics_only_def snd_conv)
    with stepsD[OF lease_steps_dispatchOutbox w3] have "lease_only (w_db w1) (w_db w')" by (simp add: x)
    with r Commit x show thesis by (intro committed) auto
  qed
qed

lemma mutation_tombstone:
  assumes "u \<in> set (t_tombstones (w_db w))" and "\<not> fault_at e (w_step w)" and "\<not> fault_at e (Suc (w_step w))"
  shows "mutation (bnd (ensureAccountNotDeleted u) k) count e w = (Inl ErrAccountDeleted, w\<lparr>w_step := w_step w + 2\<rparr>)"
  by (simp add: mutation_def bnd_def run_tx_tombstone[OF assms, unfolded bnd_def])

context user_store
begin

lemma steps_mutation:
  assumes "hoare I body (committed I)" and "\<And>x. metrics_only (count x)"
  shows "steps (keeps I) (mutation body count)"
proof -
  have "steps (keeps I) (count x)" for x
    using assms(2)[of x] by (simp add: steps_def metrics_only_def keeps_def)
  then show ?thesis
    unfolding mutation_def
    by (intro keeps.steps_bnd keeps.steps_outcome keeps.steps_ret steps_run_tx_hoare assms keeps_dispatchOutbox)
qed

end

end
