(* ===== verification/Reminders.thy ===== *)
theory Reminders
  imports Idempotency
begin

text \<open>
  Reminders (\<open>internal/service/reminders.go\<close>): the check of a set of reminders, and adding and
  deleting one. Both mutations take the schedule's row lock, increment its revision and put the event
  with the full set of reminders into the outbox within the same transaction.
\<close>

section \<open>Definitions\<close>

definition maxScheduleReminders :: nat where
  "maxScheduleReminders = 5"

definition maxReminderMinutes :: int where
  "maxReminderMinutes = 10080"

definition reminder_key :: "int \<Rightarrow> string \<Rightarrow> string" where
  "reminder_key minutesBefore channel = append_int minutesBefore 0 @ '':'' @ channel"

fun validate_each :: "string list \<Rightarrow> ReminderInput list \<Rightarrow> err + unit" where
  "validate_each seen [] = Inr ()"
| "validate_each seen (r # rs) =
     (if ri_MinutesBefore r < 0 \<or> ri_MinutesBefore r > maxReminderMinutes then Inl ErrInvalidReminder
      else if ri_Channel r \<noteq> ''telegram'' then Inl ErrInvalidReminder
      else let key = reminder_key (ri_MinutesBefore r) (ri_Channel r)
           in if key \<in> set seen then Inl ErrDuplicateReminder else validate_each (key # seen) rs)"

definition validateReminderSet :: "ReminderInput list \<Rightarrow> err + unit" where
  "validateReminderSet reminders =
     (if length reminders > maxScheduleReminders then Inl ErrReminderLimit else validate_each [] reminders)"

definition ListReminders :: "uuid \<Rightarrow> uuid \<Rightarrow> Reminder list tx" where
  "ListReminders userID scheduleID =
     bnd (GetSchedule userID scheduleID) (\<lambda>_.
     bnd (repo_ListReminders scheduleID) (\<lambda>rows. ret (map mapReminder rows)))"

definition bump_revision :: "uuid \<Rightarrow> uuid \<Rightarrow> unit tx" where
  "bump_revision userID scheduleID = sql (\<lambda>e n d.
     let hit = (\<lambda>s. sr_ID s = scheduleID \<and> sr_UserID s = userID)
     in if \<exists>s \<in> set (t_schedules d). hit s \<and> max_int64 \<le> sr_Revision s then Inl DBError
        else Inr ((), d\<lparr>t_schedules := upd_where hit
          (\<lambda>s. s\<lparr>sr_Revision := sr_Revision s + 1, sr_UpdatedAt := now_at e n\<rparr>) (t_schedules d)\<rparr>))"

definition claim_key :: "uuid \<Rightarrow> uuid \<Rightarrow> string \<Rightarrow> string \<Rightarrow> hash \<Rightarrow> response option option tx" where
  "claim_key userID scheduleID operation key requestHash =
     (if key = [] then ret None else claimScheduleMutation userID scheduleID operation key requestHash)"

definition add_reminder_replay :: "uuid \<Rightarrow> uuid \<Rightarrow> response option \<Rightarrow> Reminder outcome tx" where
  "add_reminder_replay userID scheduleID resp =
     (case resp of
        Some (RReminder saved) \<Rightarrow>
          bnd (lockScheduleRevision userID scheduleID) (\<lambda>_.
          bnd (query (\<lambda>d. \<exists>r \<in> set (t_reminders d). rmr_ID r = rem_ID saved \<and> rmr_ScheduleID r = scheduleID)) (\<lambda>exists.
          if exists then ret (Early saved) else fail ErrIdempotencyConflict))
      | _ \<Rightarrow> fail JSONError)"

definition add_reminder_fresh :: "uuid \<Rightarrow> uuid \<Rightarrow> int \<Rightarrow> string \<Rightarrow> string \<Rightarrow> Reminder outcome tx" where
  "add_reminder_fresh userID scheduleID minutesBefore channel key =
     bnd (lockScheduleRevision userID scheduleID) (\<lambda>_.
     bnd (getSchedule userID scheduleID) (\<lambda>sch.
     bnd (repo_ListReminders scheduleID) (\<lambda>rows.
     bnd (guard (length rows < maxScheduleReminders) ErrReminderLimit) (\<lambda>_.
     bnd (guard (\<not> (\<exists>row \<in> set rows. rmr_MinutesBefore row = minutesBefore \<and> rmr_Channel row = channel)) ErrDuplicateReminder) (\<lambda>_.
     bnd new_uuid (\<lambda>rid.
     bnd (repo_AddReminder rid scheduleID minutesBefore channel) (\<lambda>_.
     bnd (repo_ListReminders scheduleID) (\<lambda>rows.
     let reminders = mapReminders rows
     in case List.find (\<lambda>r. rem_ID r = rid) reminders of
          None \<Rightarrow> fail ErrNotFound
        | Some created \<Rightarrow>
            bnd (bump_revision userID scheduleID) (\<lambda>_.
            bnd (enqueueScheduleEvent SubjectScheduleUpdated
              (sch\<lparr>s_Reminders := reminders, s_Revision := int64 (s_Revision sch + 1)\<rparr>)) (\<lambda>_.
            bnd (if key = [] then ret ()
                 else bnd (guard (json_Reminder_ok created) JSONError) (\<lambda>_.
                   save_mutation_response userID ''reminder-add'' key (RReminder created))) (\<lambda>_.
            ret (Commit created))))))))))))"

definition AddReminder :: "uuid \<Rightarrow> uuid \<Rightarrow> int \<Rightarrow> string \<Rightarrow> string \<Rightarrow> hash \<Rightarrow> Reminder tx" where
  "AddReminder userID scheduleID minutesBefore channel key requestHash =
     bnd (lift (validateReminderSet [\<lparr>ri_MinutesBefore = minutesBefore, ri_Channel = channel\<rparr>])) (\<lambda>_.
     mutation
       (bnd (ensureAccountNotDeleted userID) (\<lambda>_.
        bnd (claim_key userID scheduleID ''reminder-add'' key requestHash) (\<lambda>replay.
        case replay of
          Some resp \<Rightarrow> add_reminder_replay userID scheduleID resp
        | None \<Rightarrow> add_reminder_fresh userID scheduleID minutesBefore channel key)))
       (\<lambda>_. ret ()))"

text \<open>The sixteen bytes of an identifier, as they are hashed.\<close>

definition idBytes :: "uuid \<Rightarrow> string" where
  "idBytes i = map (\<lambda>k. char_of (unat i div 256 ^ (15 - k) mod 256)) [0..<16]"

definition delete_reminder_fresh :: "uuid \<Rightarrow> uuid \<Rightarrow> uuid \<Rightarrow> unit outcome tx" where
  "delete_reminder_fresh userID scheduleID reminderID =
     bnd (lockScheduleRevision userID scheduleID) (\<lambda>_.
     bnd (getSchedule userID scheduleID) (\<lambda>sch.
     bnd (repo_DeleteReminder reminderID scheduleID) (\<lambda>n.
     bnd (guard (n \<noteq> 0) ErrNotFound) (\<lambda>_.
     bnd (repo_ListReminders scheduleID) (\<lambda>rows.
     bnd (bump_revision userID scheduleID) (\<lambda>_.
     bnd (enqueueScheduleEvent SubjectScheduleUpdated
       (sch\<lparr>s_Reminders := mapReminders rows, s_Revision := int64 (s_Revision sch + 1)\<rparr>)) (\<lambda>_.
     ret (Commit ()))))))))"

definition DeleteReminder :: "uuid \<Rightarrow> uuid \<Rightarrow> uuid \<Rightarrow> string \<Rightarrow> unit tx" where
  "DeleteReminder userID scheduleID reminderID key =
     bnd (ask (\<lambda>e. sha256 e (idBytes reminderID))) (\<lambda>h.
     mutation
       (bnd (ensureAccountNotDeleted userID) (\<lambda>_.
        bnd (claim_key userID scheduleID ''reminder-delete'' key h) (\<lambda>replay.
        case replay of
          Some _ \<Rightarrow> ret (Early ())
        | None \<Rightarrow> delete_reminder_fresh userID scheduleID reminderID)))
       (\<lambda>_. ret ()))"

section \<open>Validation\<close>

lemma reminder_key_inj:
  assumes "0 \<le> a" and "0 \<le> b" and "reminder_key a c = reminder_key b c"
  shows "a = b"
proof -
  from assms have "nat_digits (nat a) = nat_digits (nat b)"
    by (simp add: reminder_key_def append_int_def Let_def)
  then have "nat a = nat b" by (metis dec_value_nat_digits)
  with assms(1,2) show ?thesis by simp
qed

definition reminder_in_range :: "ReminderInput \<Rightarrow> bool" where
  "reminder_in_range r \<longleftrightarrow> 0 \<le> ri_MinutesBefore r \<and> ri_MinutesBefore r \<le> 10080 \<and> ri_Channel r = ''telegram''"

lemma validate_each_iff:
  "validate_each seen rs = Inr () \<longleftrightarrow> list_all reminder_in_range rs
     \<and> distinct (map (\<lambda>r. reminder_key (ri_MinutesBefore r) (ri_Channel r)) rs)
     \<and> (\<lambda>r. reminder_key (ri_MinutesBefore r) (ri_Channel r)) ` set rs \<inter> set seen = {}"
  by (induction rs arbitrary: seen) (auto simp: reminder_in_range_def maxReminderMinutes_def Let_def)

lemma distinct_reminder_keys:
  assumes "list_all reminder_in_range rs"
  shows "distinct (map (\<lambda>r. reminder_key (ri_MinutesBefore r) (ri_Channel r)) rs) \<longleftrightarrow> distinct (map ri_MinutesBefore rs)"
  using assms
proof (induction rs)
  case Nil
  then show ?case by simp
next
  case (Cons r rs)
  have "ri_MinutesBefore q = ri_MinutesBefore r \<longleftrightarrow>
      reminder_key (ri_MinutesBefore q) (ri_Channel q) = reminder_key (ri_MinutesBefore r) (ri_Channel r)" if "q \<in> set rs" for q
    using that Cons.prems reminder_key_inj[of "ri_MinutesBefore q" "ri_MinutesBefore r" "''telegram''"]
    by (auto simp: list_all_iff reminder_in_range_def)
  with Cons show ?case by (auto simp: image_iff) metis+
qed

lemma validateReminderSet_ok:
  "validateReminderSet rs = Inr () \<longleftrightarrow> length rs \<le> 5 \<and> list_all reminder_in_range rs \<and> distinct (map ri_MinutesBefore rs)"
  using distinct_reminder_keys[of rs]
  by (auto simp: validateReminderSet_def validate_each_iff maxScheduleReminders_def)

section \<open>Both mutations keep the store in order\<close>

lemma hoare_claim_key:
  assumes "hoare P (claimScheduleMutation u sid op key h) (\<lambda>_. P)"
  shows "hoare P (claim_key u sid op key h) (\<lambda>_. P)"
  unfolding claim_key_def by (intro hoare_if hoare_ret assms)

text \<open>Steps that only read, and what they let the rest of the body assume.\<close>

lemma hoare_then_lock:
  "(\<And>n. hoare (\<lambda>d. P d \<and> owns d u sid) (k n) Q) \<Longrightarrow> hoare P (bnd (lockScheduleRevision u sid) k) Q"
  by (rule hoare_bnd[where Q = "\<lambda>_ d. P d \<and> owns d u sid"], rule hoare_conseq[OF hoare_lockScheduleRevision[of P]]) auto

lemma hoare_then_get: "(\<And>s. hoare P (k s) Q) \<Longrightarrow> hoare P (bnd (getSchedule u sid) k) Q"
  by (rule hoare_seq, rule hoare_conseq[OF hoare_getSchedule[of P]]) auto

lemma hoare_then_list:
  "(\<And>rows. hoare (\<lambda>d. P d \<and> rows = sorted_reminders d sid) (k rows) Q) \<Longrightarrow> hoare P (bnd (repo_ListReminders sid) k) Q"
  unfolding repo_ListReminders_def by (rule hoare_then_query) (simp add: sorted_reminders_def reminders_of_def)

lemma hoare_then_uuid: "(\<And>x. hoare P (k x) Q) \<Longrightarrow> hoare P (bnd new_uuid k) Q"
  by (rule hoare_seq[OF hoare_idle(2)])

lemmas hoare_then = hoare_then_lock hoare_then_get hoare_then_list hoare_then_uuid hoare_then_guard hoare_then_lift

lemma hoare_list_idle: "hoare P (repo_ListReminders sid) (\<lambda>_. P)"
  unfolding repo_ListReminders_def by (rule hoare_idle)

context user_store
begin

lemma hoare_bump_revision: "hoare I (bump_revision u sid) (\<lambda>_. I)"
  unfolding bump_revision_def Let_def
proof (rule hoare_sql)
  fix e n d x d'
  assume I: "I d" and run: "(if \<exists>s \<in> set (t_schedules d). (sr_ID s = sid \<and> sr_UserID s = u) \<and> max_int64 \<le> sr_Revision s then Inl DBError
        else Inr ((), d\<lparr>t_schedules := upd_where (\<lambda>s. sr_ID s = sid \<and> sr_UserID s = u)
          (\<lambda>s. s\<lparr>sr_Revision := sr_Revision s + 1, sr_UpdatedAt := now_at e n\<rparr>) (t_schedules d)\<rparr>)) = Inr (x, d')"
  have "row_ok (s\<lparr>sr_Revision := sr_Revision s + 1, sr_UpdatedAt := t\<rparr>)"
    if "s \<in> set (t_schedules d)" "sr_Revision s < max_int64" for s t
    using db_wfD(3)[OF wf[OF I] that(1)] that(2) by (simp add: row_ok_def)
  with I run show "I d'"
    by (auto split: if_splits intro!: update_schedule)
qed

lemma hoare_then_AddReminder:
  assumes "\<And>d. P d \<Longrightarrow> I d \<and> owns d u sid \<and> length (reminders_of d sid) < 5 \<and> 0 \<le> m \<and> m \<le> 10080 \<and> ch = ''telegram''
      \<and> (\<forall>q \<in> set (reminders_of d sid). \<not> (rmr_MinutesBefore q = m \<and> rmr_Channel q = ch))"
    and "hoare I (k ()) Q"
  shows "hoare P (bnd (repo_AddReminder rid sid m ch) k) Q"
proof (rule hoare_bnd)
  have "I (d\<lparr>t_reminders := t_reminders d @ [\<lparr>rmr_ID = rid, rmr_ScheduleID = sid, rmr_MinutesBefore = m,
      rmr_Channel = ch, rmr_CreatedAt = t\<rparr>]\<rparr>)" if "P d" "\<forall>r \<in> set (t_reminders d). rmr_ID r \<noteq> rid" for d t
    using assms(1)[OF that(1)] that(2) by (intro insert_reminder) (auto simp: reminder_fits_def)
  then show "hoare P (repo_AddReminder rid sid m ch) (\<lambda>_. I)"
    unfolding repo_AddReminder_def by (intro hoare_sql) (auto split: if_splits)
qed (use assms(2) in simp)

lemma hoare_then_DeleteReminder:
  assumes "\<And>d. P d \<Longrightarrow> I d \<and> owns d u sid" and "\<And>n. hoare I (k n) Q"
  shows "hoare P (bnd (repo_DeleteReminder rid sid) k) Q"
proof (rule hoare_bnd)
  have "I (d\<lparr>t_reminders := filter (\<lambda>r. \<not> (rmr_ID r = rid \<and> rmr_ScheduleID r = sid)) (t_reminders d)\<rparr>)" if "P d" for d
    using assms(1)[OF that] by (intro delete_reminders) auto
  then show "hoare P (repo_DeleteReminder rid sid) (\<lambda>_. I)"
    unfolding repo_DeleteReminder_def Let_def by (intro hoare_sql) auto
qed (rule assms(2))

lemma hoare_add_reminder_fresh:
  assumes m: "0 \<le> m" "m \<le> 10080" and ch: "ch = ''telegram''"
  shows "hoare I (add_reminder_fresh u sid m ch key) (committed I)"
  unfolding add_reminder_fresh_def Let_def
  by (intro hoare_then hoare_then_AddReminder hoare_seq[OF hoare_list_idle] hoare_seq[OF hoare_bump_revision]
      hoare_seq[OF hoare_enqueueScheduleEvent] hoare_rules hoare_seq hoare_ret hoare_idle hoare_save_mutation_response)
    (use m ch in \<open>auto simp: sorted_reminders_def maxScheduleReminders_def\<close>)

lemma hoare_add_reminder_replay: "hoare I (add_reminder_replay u sid resp) (committed I)"
  unfolding add_reminder_replay_def
  by (auto simp: hoare_def tx_run split: option.splits response.splits if_splits)

lemma keeps_AddReminder: "steps (keeps I) (AddReminder u sid m ch key h)"
proof (cases "validateReminderSet [\<lparr>ri_MinutesBefore = m, ri_Channel = ch\<rparr>]")
  case (Inl er)
  then show ?thesis by (simp add: AddReminder_def steps_def lift_def bnd_def keeps_def)
next
  case (Inr x)
  then have "0 \<le> m" "m \<le> 10080" "ch = ''telegram''"
    by (auto simp: validateReminderSet_ok reminder_in_range_def)
  then show ?thesis
    unfolding AddReminder_def
    by (intro keeps.steps_bnd keeps.steps_lift steps_mutation hoare_seq[OF hoare_ensureAccountNotDeleted]
        hoare_seq[OF hoare_claim_key[OF hoare_claimScheduleMutation]] hoare_option hoare_add_reminder_replay
        hoare_add_reminder_fresh) simp_all
qed

lemma hoare_delete_reminder_fresh: "hoare I (delete_reminder_fresh u sid rid) (committed I)"
  unfolding delete_reminder_fresh_def
  by (intro hoare_then_lock hoare_then_get hoare_then_guard hoare_then_DeleteReminder hoare_seq[OF hoare_list_idle]
      hoare_seq[OF hoare_bump_revision] hoare_seq[OF hoare_enqueueScheduleEvent] hoare_ret) auto

lemma keeps_DeleteReminder: "steps (keeps I) (DeleteReminder u sid rid key)"
  unfolding DeleteReminder_def
  by (intro keeps.steps_bnd keeps.steps_ask steps_mutation hoare_seq[OF hoare_ensureAccountNotDeleted]
      hoare_seq[OF hoare_claim_key[OF hoare_claimScheduleMutation]] hoare_option hoare_delete_reminder_fresh hoare_ret) simp_all

end

section \<open>Effects\<close>

lemma bump_revision_run [tx_run]:
  "bump_revision u sid e w = (Inr (), w') \<longleftrightarrow> \<not> fault_at e (w_step w)
     \<and> (\<forall>s \<in> set (t_schedules (w_db w)). sr_ID s = sid \<and> sr_UserID s = u \<longrightarrow> sr_Revision s < max_int64)
     \<and> w' = w\<lparr>w_step := Suc (w_step w), w_db := (w_db w)\<lparr>t_schedules := upd_where (\<lambda>s. sr_ID s = sid \<and> sr_UserID s = u)
          (\<lambda>s. s\<lparr>sr_Revision := sr_Revision s + 1, sr_UpdatedAt := now_at e (w_step w)\<rparr>) (t_schedules (w_db w))\<rparr>\<rparr>"
  by (auto simp: bump_revision_def Let_def tx_run split: if_splits)

lemma repo_ListReminders_run [tx_run]:
  "repo_ListReminders sid e w = (Inr rows, w') \<longleftrightarrow> \<not> fault_at e (w_step w) \<and> rows = sorted_reminders (w_db w) sid
     \<and> w' = w\<lparr>w_step := Suc (w_step w)\<rparr>"
  by (auto simp: repo_ListReminders_def query_run sorted_reminders_def reminders_of_def)

lemma repo_AddReminder_effect:
  assumes "repo_AddReminder rid sid m ch e w = (Inr (), w')"
  obtains r where "w_db w' = (w_db w)\<lparr>t_reminders := t_reminders (w_db w) @ [r]\<rparr>" and "rmr_ID r = rid" and "rmr_ScheduleID r = sid"
    and "rmr_MinutesBefore r = m" and "rmr_Channel r = ch" and "\<forall>q \<in> set (t_reminders (w_db w)). rmr_ID q \<noteq> rid"
proof -
  from assms obtain t where "w_db w' = (w_db w)\<lparr>t_reminders := t_reminders (w_db w) @ [\<lparr>rmr_ID = rid, rmr_ScheduleID = sid,
      rmr_MinutesBefore = m, rmr_Channel = ch, rmr_CreatedAt = t\<rparr>]\<rparr>" "\<forall>q \<in> set (t_reminders (w_db w)). rmr_ID q \<noteq> rid"
    by (auto simp: repo_AddReminder_def sql_run split: if_splits)
  then show thesis by (intro that) auto
qed

lemma schedule_row_of_upd:
  assumes "\<And>s. sr_ID (f s) = sr_ID s \<and> sr_UserID (f s) = sr_UserID s"
  shows "schedule_row_of (d\<lparr>t_schedules := upd_where (\<lambda>s. sr_ID s = sid \<and> sr_UserID s = u) f (t_schedules d)\<rparr>) u sid
    = map_option f (schedule_row_of d u sid)"
  unfolding schedule_row_of_def using assms by (simp add: find_upd_where)

lemma lease_only_tables:
  assumes "lease_only a b"
  shows "t_schedules b = t_schedules a" "t_reminders b = t_reminders a" "t_series b = t_series a"
    "t_occurrences b = t_occurrences a" "t_create_requests b = t_create_requests a"
    "t_mutation_requests b = t_mutation_requests a" "t_tombstones b = t_tombstones a"
    "map outbox_identity (t_outbox b) = map outbox_identity (t_outbox a)"
    "t_ai_users b = t_ai_users a" "t_admissions b = t_admissions a" "t_extractions b = t_extractions a"
  using assms by (auto simp: lease_only_def dest: arg_cong[where f = t_schedules] arg_cong[where f = t_reminders]
      arg_cong[where f = t_series] arg_cong[where f = t_occurrences] arg_cong[where f = t_create_requests]
      arg_cong[where f = t_mutation_requests] arg_cong[where f = t_tombstones]
      arg_cong[where f = t_ai_users] arg_cong[where f = t_admissions] arg_cong[where f = t_extractions])

lemma add_reminder_fresh_effect:
  assumes "add_reminder_fresh u sid m ch [] e w = (Inr c, w')" and wf: "db_wf (w_db w)"
  obtains row sch r ob t where "c = Commit (mapReminder r)" and "schedule_of (w_db w) u sid = Some sch"
    and "schedule_row_of (w_db w) u sid = Some row" and "sr_Revision row < max_int64"
    and "rmr_ScheduleID r = sid" and "rmr_MinutesBefore r = m" and "rmr_Channel r = ch"
    and "length (reminders_of (w_db w) sid) < 5"
    and "\<forall>q \<in> set (reminders_of (w_db w) sid). \<not> (rmr_MinutesBefore q = m \<and> rmr_Channel q = ch)"
    and "t_reminders (w_db w') = t_reminders (w_db w) @ [r]"
    and "schedule_row_of (w_db w') u sid = Some (row\<lparr>sr_Revision := sr_Revision row + 1, sr_UpdatedAt := t\<rparr>)"
    and "t_outbox (w_db w') = t_outbox (w_db w) @ [ob]"
    and "schedule_event e SubjectScheduleUpdated (sch\<lparr>s_Reminders := map mapReminder (sorted_reminders (w_db w') sid),
           s_Revision := int64 (s_Revision sch + 1)\<rparr>) ob"
proof -
  from assms(1) obtain n w1 sch w2 rows w3 w4 w5 rid w6 w7 created w8 w9 w10 where
    guards: "length rows < maxScheduleReminders" "\<not> (\<exists>row \<in> set rows. rmr_MinutesBefore row = m \<and> rmr_Channel row = ch)"
    and chain: "lockScheduleRevision u sid e w = (Inr n, w1)" "getSchedule u sid e w1 = (Inr sch, w2)"
      "repo_ListReminders sid e w2 = (Inr rows, w3)" "w4 = w3" "w5 = w4" "new_uuid e w5 = (Inr rid, w6)"
      "repo_AddReminder rid sid m ch e w6 = (Inr (), w7)"
      "repo_ListReminders sid e w7 = (Inr (sorted_reminders (w_db w7) sid), w8)"
      "List.find (\<lambda>r. rem_ID r = rid) (mapReminders (sorted_reminders (w_db w7) sid)) = Some created"
      "bump_revision u sid e w8 = (Inr (), w9)"
      "enqueueScheduleEvent SubjectScheduleUpdated (sch\<lparr>s_Reminders := mapReminders (sorted_reminders (w_db w7) sid),
        s_Revision := int64 (s_Revision sch + 1)\<rparr>) e w9 = (Inr (), w10)" "c = Commit created" "w' = w10"
    by (auto simp: add_reminder_fresh_def bnd_run ret_run guard_run fail_run Let_def repo_ListReminders_run
        split: option.splits if_splits)
  from chain obtain row where row: "schedule_row_of (w_db w) u sid = Some row" and sch: "schedule_of (w_db w) u sid = Some sch"
    and dbs: "w_db w6 = w_db w" "w_db w8 = w_db w7" "rows = sorted_reminders (w_db w) sid"
    by (auto simp: tx_run)
  obtain r where r: "w_db w7 = (w_db w6)\<lparr>t_reminders := t_reminders (w_db w6) @ [r]\<rparr>" "rmr_ID r = rid" "rmr_ScheduleID r = sid"
    "rmr_MinutesBefore r = m" "rmr_Channel r = ch" "\<forall>q \<in> set (t_reminders (w_db w6)). rmr_ID q \<noteq> rid"
    by (rule repo_AddReminder_effect[OF chain(7)])
  have created: "created = mapReminder r"
    using find_Some_iff_mem[OF chain(9)] r by (auto simp: mapReminders_def sorted_reminders_def mapReminder_def reminders_of_def)
  obtain ob where ob: "schedule_event e SubjectScheduleUpdated (sch\<lparr>s_Reminders := mapReminders (sorted_reminders (w_db w7) sid),
        s_Revision := int64 (s_Revision sch + 1)\<rparr>) ob" "w_db w10 = (w_db w9)\<lparr>t_outbox := t_outbox (w_db w9) @ [ob]\<rparr>"
    by (rule enqueueScheduleEvent_effect[OF chain(11)])
  let ?f = "\<lambda>s. s\<lparr>sr_Revision := sr_Revision s + 1, sr_UpdatedAt := now_at e (w_step w8)\<rparr>"
  have w9: "w_db w9 = (w_db w7)\<lparr>t_schedules := upd_where (\<lambda>s. sr_ID s = sid \<and> sr_UserID s = u) ?f (t_schedules (w_db w7))\<rparr>"
    and small: "\<forall>s \<in> set (t_schedules (w_db w7)). sr_ID s = sid \<and> sr_UserID s = u \<longrightarrow> sr_Revision s < max_int64"
    using chain(10) dbs(2) by (auto simp: bump_revision_run)
  have "schedule_row_of (w_db w9) u sid = Some (?f row)"
    unfolding w9 by (subst schedule_row_of_upd) (use row r(1) dbs(1) in \<open>auto simp: schedule_row_of_def\<close>)
  moreover have "sorted_reminders (w_db w') sid = sorted_reminders (w_db w7) sid"
    by (simp add: chain(13) ob(2) w9 sorted_reminders_def reminders_of_def)
  moreover have "sr_Revision row < max_int64"
    using small schedule_row_of_Some[OF row] r(1) dbs(1) by auto
  ultimately show thesis
    using that[of r sch row "now_at e (w_step w8)" ob] chain(12,13) created sch row r dbs ob w9 guards
    by (simp add: schedule_row_of_def mapReminders_def maxScheduleReminders_def sorted_reminders_def)
qed

lemma add_reminder_fresh_commits: "add_reminder_fresh u sid m ch k e w = (Inr c, w') \<Longrightarrow> \<exists>y. c = Commit y"
  by (auto simp: add_reminder_fresh_def bnd_run ret_run fail_run Let_def split: option.splits)

lemma mutation_committed:
  assumes "mutation (bnd (ensureAccountNotDeleted u) (\<lambda>_. body)) count e w = (Inr x, w')"
    and "\<And>x. metrics_only (count x)" and "\<And>w c w'. body e w = (Inr c, w') \<Longrightarrow> \<exists>y. c = Commit y"
  obtains w0 w1 where "body e w0 = (Inr (Commit x), w1)" and "w_db w0 = w_db w" and "lease_only (w_db w1) (w_db w')"
    and "u \<notin> set (t_tombstones (w_db w))"
  using assms(1,2)
proof (cases rule: mutation_success)
  case (replayed w1)
  then show ?thesis using assms(3) by (auto simp: run_tx_Early bnd_run)
next
  case (committed w1)
  then obtain w2 w3 where "body e w2 = (Inr (Commit x), w3)" "w_db w2 = w_db w" "w_db w3 = w_db w1"
    "u \<notin> set (t_tombstones (w_db w))"
    by (auto simp: run_tx_Commit bnd_run ensureAccountNotDeleted_run)
  then show ?thesis using committed(2) that by simp
qed

text \<open>
  \<open>announced\<close>: the mutation put exactly one event into the outbox, and the event is the snapshot of
  the schedule as it is read afterwards.
\<close>

definition announced :: "env \<Rightarrow> string \<Rightarrow> Schedule \<Rightarrow> db \<Rightarrow> db \<Rightarrow> bool" where
  "announced e subject s a b \<longleftrightarrow> (\<exists>ob. schedule_event e subject s ob
     \<and> map outbox_identity (t_outbox b) = map outbox_identity (t_outbox a) @ [outbox_identity ob])"

lemma toScheduleEvent_with_occurrence [simp]: "toScheduleEvent str (with_occurrence m s) t = toScheduleEvent str s t"
  by (simp add: toScheduleEvent_def with_occurrence_def split: option.split prod.split)

lemma schedule_event_cong:
  "s_ID s = s_ID s' \<Longrightarrow> (\<And>t. toScheduleEvent (uuid_string e) s t = toScheduleEvent (uuid_string e) s' t) \<Longrightarrow>
   schedule_event e subject s ob = schedule_event e subject s' ob"
  by (simp add: schedule_event_def)

lemmas schedule_of_unfold = schedule_of_def schedule_row_of_def sorted_reminders_def reminders_of_def occurrence_of_def owns_def

lemma schedule_of_lease:
  assumes "lease_only a b"
  shows "schedule_of b u sid = schedule_of a u sid"
  unfolding schedule_of_unfold lease_only_tables[OF assms] by (rule refl)

text \<open>The schedule after its reminders changed and its revision was incremented.\<close>

lemma snapshot_after_bump:
  assumes wf: "db_wf d" and row: "schedule_row_of d u sid = Some row" and sch: "schedule_of d u sid = Some sch"
    and row': "schedule_row_of d' u sid = Some (row\<lparr>sr_Revision := sr_Revision row + 1, sr_UpdatedAt := t\<rparr>)"
    and small: "sr_Revision row < max_int64"
  obtains s' where "schedule_of d' u sid = Some s'" and "s_Revision s' = s_Revision sch + 1"
    and "s_Reminders s' = map mapReminder (sorted_reminders d' sid)"
    and "\<And>subject ob. schedule_event e subject (sch\<lparr>s_Reminders := map mapReminder (sorted_reminders d' sid),
           s_Revision := int64 (s_Revision sch + 1)\<rparr>) ob \<Longrightarrow> schedule_event e subject s' ob"
proof -
  define s' where "s' = with_occurrence (occurrence_of d' u sid) (mapSchedule (row\<lparr>sr_Revision := sr_Revision row + 1, sr_UpdatedAt := t\<rparr>)
    (sorted_reminders d' sid))"
  have rev: "1 \<le> sr_Revision row" using wf schedule_row_of_Some[OF row] by (auto simp: db_wf_def row_ok_def)
  have sch': "sch = with_occurrence (occurrence_of d u sid) (mapSchedule row (sorted_reminders d sid))"
    using sch row by (simp add: schedule_of_def)
  have id: "s_ID sch = s_ID s'" "s_Revision sch = sr_Revision row"
    by (simp_all add: sch' s'_def)
  have "toScheduleEvent (uuid_string e) (sch\<lparr>s_Reminders := map mapReminder (sorted_reminders d' sid),
      s_Revision := int64 (s_Revision sch + 1)\<rparr>) x = toScheduleEvent (uuid_string e) s' x" for x
  proof -
    have "toScheduleEvent (uuid_string e) (sch\<lparr>s_Reminders := rs, s_Revision := v\<rparr>) x =
        toScheduleEvent (uuid_string e) ((mapSchedule row [])\<lparr>s_Reminders := rs, s_Revision := v\<rparr>) x" for rs v
      by (simp add: sch' toScheduleEvent_def with_occurrence_def mapSchedule_def split: option.split prod.split)
    moreover have "int64 (s_Revision sch + 1) = sr_Revision row + 1"
      using rev small id(2) by (subst int64_id) (simp_all add: max_int64_def)
    ultimately show ?thesis
      unfolding s'_def toScheduleEvent_with_occurrence by (simp add: toScheduleEvent_def mapSchedule_def)
  qed
  then have "schedule_event e subject (sch\<lparr>s_Reminders := map mapReminder (sorted_reminders d' sid),
           s_Revision := int64 (s_Revision sch + 1)\<rparr>) ob \<Longrightarrow> schedule_event e subject s' ob" for subject ob
    using id(1) by (simp add: schedule_event_def)
  moreover have "s_Reminders s' = map mapReminder (sorted_reminders d' sid)"
    by (simp add: s'_def with_occurrence_def mapSchedule_def split: option.split prod.split)
  ultimately show thesis
    using row' id(2) by (intro that[of s']) (simp_all add: schedule_of_def s'_def)
qed

text \<open>
  C27: Adding a reminder adds exactly that reminder to the user's own schedule, increments the
  revision by one and announces the schedule as it is read afterwards, with the complete set of its
  reminders, in one event; nothing else of the schedule changes. The schedule had fewer than five
  reminders and none like it.
\<close>

theorem AddReminder_effect:
  assumes run: "AddReminder u sid m ch [] h e w = (Inr created, w')" and wf: "db_wf (w_db w)"
  shows "\<exists>s s'. schedule_of (w_db w) u sid = Some s \<and> schedule_of (w_db w') u sid = Some s'
     \<and> s_Revision s' = s_Revision s + 1 \<and> set (s_Reminders s') = insert created (set (s_Reminders s))
     \<and> rem_MinutesBefore created = m \<and> rem_Channel created = ch \<and> rem_ScheduleID created = sid
     \<and> length (s_Reminders s) < 5 \<and> length (s_Reminders s') = length (s_Reminders s) + 1
     \<and> (\<forall>r \<in> set (s_Reminders s). (rem_MinutesBefore r, rem_Channel r) \<noteq> (m, ch))
     \<and> announced e SubjectScheduleUpdated s' (w_db w) (w_db w')"
proof -
  have "mutation (bnd (ensureAccountNotDeleted u) (\<lambda>_. add_reminder_fresh u sid m ch [])) (\<lambda>_. ret ()) e w = (Inr created, w')"
    using run by (auto simp: AddReminder_def bnd_run lift_run claim_key_def)
      (simp add: bnd_def ret_def)
  then obtain w0 w1 where fresh: "add_reminder_fresh u sid m ch [] e w0 = (Inr (Commit created), w1)"
    and w0: "w_db w0 = w_db w" and lease: "lease_only (w_db w1) (w_db w')"
    by (rule mutation_committed) (auto elim: add_reminder_fresh_commits)
  obtain row sch r ob t where eff: "Commit created = Commit (mapReminder r)" "schedule_of (w_db w0) u sid = Some sch"
      "schedule_row_of (w_db w0) u sid = Some row" "sr_Revision row < max_int64" "rmr_ScheduleID r = sid"
      "rmr_MinutesBefore r = m" "rmr_Channel r = ch" "length (reminders_of (w_db w0) sid) < 5"
      "\<forall>q \<in> set (reminders_of (w_db w0) sid). \<not> (rmr_MinutesBefore q = m \<and> rmr_Channel q = ch)"
      "t_reminders (w_db w1) = t_reminders (w_db w0) @ [r]"
      "schedule_row_of (w_db w1) u sid = Some (row\<lparr>sr_Revision := sr_Revision row + 1, sr_UpdatedAt := t\<rparr>)"
      "t_outbox (w_db w1) = t_outbox (w_db w0) @ [ob]"
      "schedule_event e SubjectScheduleUpdated (sch\<lparr>s_Reminders := map mapReminder (sorted_reminders (w_db w1) sid),
           s_Revision := int64 (s_Revision sch + 1)\<rparr>) ob"
    by (rule add_reminder_fresh_effect[OF fresh]) (simp add: w0 wf)
  note eff = eff[unfolded w0]
  obtain s' where s': "schedule_of (w_db w1) u sid = Some s'" "s_Revision s' = s_Revision sch + 1"
    "s_Reminders s' = map mapReminder (sorted_reminders (w_db w1) sid)" "schedule_event e SubjectScheduleUpdated s' ob"
    using snapshot_after_bump[OF wf eff(3,2,11,4)] eff(13) by metis
  have "s_Reminders sch = map mapReminder (sorted_reminders (w_db w) sid)"
    using eff(2,3) by (auto simp: schedule_of_def with_occurrence_def mapSchedule_def split: option.split prod.split)
  moreover have "reminders_of (w_db w1) sid = reminders_of (w_db w) sid @ [r]"
    by (simp add: reminders_of_def eff(5,10))
  moreover have "announced e SubjectScheduleUpdated s' (w_db w) (w_db w')"
    using s'(4) lease_only_tables(8)[OF lease] eff(12) by (auto simp: announced_def)
  ultimately show ?thesis
    using s' eff schedule_of_lease[OF lease]
    by (intro exI[of _ sch] exI[of _ s']) (auto simp: sorted_reminders_def mapReminder_def)
qed

theorem AddReminder_effect_witness:
  "\<exists>c w'. AddReminder 1 11 60 ''telegram'' [] 0 sample_env (sample_world sample_db) = (Inr c, w')
     \<and> rem_MinutesBefore c = 60 \<and> (\<exists>s'. schedule_of (w_db w') 1 11 = Some s' \<and> length (s_Reminders s') = 2
     \<and> announced sample_env SubjectScheduleUpdated s' sample_db (w_db w'))"
proof -
  have "\<not> isl (fst (AddReminder 1 11 60 ''telegram'' [] 0 sample_env (sample_world sample_db)))"
  proof -
    have "validateReminderSet [\<lparr>ri_MinutesBefore = 60, ri_Channel = ''telegram''\<rparr>] = Inr ()"
      by (simp add: validateReminderSet_ok reminder_in_range_def)
    then have eq: "AddReminder 1 11 60 ''telegram'' [] 0 = mutation (bnd (ensureAccountNotDeleted 1) (\<lambda>_.
        bnd (claim_key 1 11 ''reminder-add'' [] 0) (\<lambda>replay. case replay of
          Some resp \<Rightarrow> add_reminder_replay 1 11 resp | None \<Rightarrow> add_reminder_fresh 1 11 60 ''telegram'' []))) (\<lambda>_. ret ())"
      by (simp add: AddReminder_def bnd_def lift_def fun_eq_iff)
    show ?thesis
      unfolding eq
      by (rule mutation_total)
        (simp_all add: run_app sql_app run_tx_app Let_def ensureAccountNotDeleted_def claim_key_def add_reminder_fresh_def lockScheduleRevision_def
          getSchedule_def repo_GetSchedule_def repo_ListReminders_def loadOccurrenceMetadata_def repo_GetScheduleOccurrence_def
          repo_AddReminder_def bump_revision_def enqueueScheduleEvent_def occurredAtTx_def Enqueue_def sample_defs
          maxScheduleReminders_def channel_ok_def has_schedule_def mapReminders_def mapReminder_def mapSchedule_def
          with_occurrence_def toScheduleEvent_def max_int64_def)
  qed
  then obtain c w' where run: "AddReminder 1 11 60 ''telegram'' [] 0 sample_env (sample_world sample_db) = (Inr c, w')"
    by (auto dest: success_run)
  have one: "\<And>s. schedule_of sample_db 1 11 = Some s \<Longrightarrow> length (s_Reminders s) = 1"
  proof -
    have "map_option (\<lambda>s. length (s_Reminders s)) (schedule_of sample_db 1 11) = Some 1" by code_simp
    then show "\<And>s. schedule_of sample_db 1 11 = Some s \<Longrightarrow> length (s_Reminders s) = 1" by auto
  qed
  from AddReminder_effect[OF run] sample_db_wf one run show ?thesis by fastforce
qed

text \<open>
  A set of reminders is accepted exactly when there are at most five, each lies between zero
  minutes and a week before the start, each uses the Telegram channel, and no two have the same
  lead time; more than five is reported as the limit, whatever else is wrong.
\<close>

theorem validateReminderSet_spec:
  "(validateReminderSet rs = Inr () \<longleftrightarrow> length rs \<le> 5
      \<and> list_all (\<lambda>r. ri_MinutesBefore r \<in> {0..10080} \<and> ri_Channel r = ''telegram'') rs
      \<and> distinct (map ri_MinutesBefore rs))
   \<and> (validateReminderSet rs = Inl ErrReminderLimit \<longleftrightarrow> 5 < length rs)"
proof -
  have "validate_each seen rs \<noteq> Inl ErrReminderLimit" for seen
    by (induction rs arbitrary: seen) (auto simp: Let_def)
  then show ?thesis
    by (auto simp: validateReminderSet_ok reminder_in_range_def list_all_iff)
      (auto simp: validateReminderSet_def maxScheduleReminders_def split: if_splits)
qed

end
