(* ===== verification/Input.thy ===== *)
theory Input
  imports Json Recurrence Reminders
begin

text \<open>
  What a request carries and when it is accepted: the request types of \<open>internal/api/dto.go\<close> with
  their decoding, the checks of titles and texts, \<open>resolveScheduleTimes\<close> and \<open>writeTimeInputError\<close> of
  \<open>internal/api/schedules.go\<close>, \<open>resolveRecurrenceAnchorTimes\<close> of \<open>internal/api/recurrence.go\<close>,
  \<open>checkReminderChannel\<close> of \<open>internal/api/notification_channels.go\<close>, and the part of the handler
  \<open>CreateSchedule\<close> that turns a body into the arguments of the service. A refusal is the status and the
  message of the response.

  The record \<open>api\<close> holds what lies outside: the validator library, UUID texts, the JSON texts that
  are only hashed, the texts of library errors, the configuration and the answers of the other services.
\<close>

section \<open>Refusals\<close>

type_synonym problem = "int \<times> string"

definition andthen :: "'e + 'a \<Rightarrow> ('a \<Rightarrow> 'e + 'b) \<Rightarrow> 'e + 'b" where
  "andthen r k = (case r of Inl er \<Rightarrow> Inl er | Inr x \<Rightarrow> k x)"

definition refuse_if :: "bool \<Rightarrow> int \<Rightarrow> string \<Rightarrow> problem + unit" where
  "refuse_if b status message = (if b then Inl (status, message) else Inr ())"

definition or_refuse :: "'a option \<Rightarrow> int \<Rightarrow> string \<Rightarrow> problem + 'a" where
  "or_refuse v status message = (case v of None \<Rightarrow> Inl (status, message) | Some x \<Rightarrow> Inr x)"

lemma andthen_Inr [simp]: "andthen r k = Inr y \<longleftrightarrow> (\<exists>x. r = Inr x \<and> k x = Inr y)"
  by (simp add: andthen_def split: sum.split)

lemma refuse_if_Inr [simp]: "refuse_if b s m = Inr y \<longleftrightarrow> \<not> b"
  by (simp add: refuse_if_def)

lemma or_refuse_Inr [simp]: "or_refuse v s m = Inr y \<longleftrightarrow> v = Some y"
  by (simp add: or_refuse_def split: option.split)

section \<open>Texts\<close>

definition validStatuses :: "string \<Rightarrow> bool" where
  "validStatuses s \<longleftrightarrow> s \<in> {''confirmed'', ''tentative'', ''cancelled''}"

definition normalizeTitle :: "string \<Rightarrow> string \<times> bool" where
  "normalizeTitle title = (let t = TrimSpace title in (t, t \<noteq> [] \<and> RuneCountInString t \<le> 255))"

definition scheduleTextInputError :: "string option \<Rightarrow> string option \<Rightarrow> string" where
  "scheduleTextInputError description location =
     (if (case description of None \<Rightarrow> False | Some d \<Rightarrow> 10000 < RuneCountInString d) then ''description must contain at most 10000 characters''
      else if (case location of None \<Rightarrow> False | Some l \<Rightarrow> 255 < RuneCountInString l) then ''location must contain at most 255 characters''
      else [])"

definition scheduleInputError :: "string option \<Rightarrow> string option \<Rightarrow> time \<Rightarrow> time option \<Rightarrow> string" where
  "scheduleInputError description location start end =
     (let message = scheduleTextInputError description location in
      if message \<noteq> [] then message
      else if (case end of None \<Rightarrow> False | Some t \<Rightarrow> time_sub t start < millisecond) then ''end_at must be at least 1ms after start_at''
      else [])"

section \<open>Requests\<close>

record reminderRequest =
  rq_MinutesBefore :: int
  rq_Channel :: string

record createScheduleRequest =
  cq_Title :: string
  cq_Description :: "string option"
  cq_Location :: "string option"
  cq_StartAt :: "time option"
  cq_EndAt :: "time option"
  cq_AllDay :: bool
  cq_Timezone :: string
  cq_StartDate :: "string option"
  cq_EndDate :: "string option"
  cq_LocalStartAt :: "string option"
  cq_LocalEndAt :: "string option"
  cq_StartFold :: string
  cq_EndFold :: string
  cq_Status :: string
  cq_Source :: string
  cq_ExtractionID :: "string option"
  cq_Reminders :: "reminderRequest list"
  cq_Recurrence :: "RecurrenceRule option"

definition zero_reminder :: reminderRequest where
  "zero_reminder = \<lparr>rq_MinutesBefore = 0, rq_Channel = []\<rparr>"

definition zero_rule :: RecurrenceRule where
  "zero_rule = \<lparr>rr_Frequency = [], rr_Interval = 0, rr_Count = None, rr_Until = None, rr_Weekdays = [], rr_Exdates = []\<rparr>"

definition zero_create :: createScheduleRequest where
  "zero_create = \<lparr>cq_Title = [], cq_Description = None, cq_Location = None, cq_StartAt = None, cq_EndAt = None, cq_AllDay = False,
     cq_Timezone = [], cq_StartDate = None, cq_EndDate = None, cq_LocalStartAt = None, cq_LocalEndAt = None, cq_StartFold = [],
     cq_EndFold = [], cq_Status = [], cq_Source = [], cq_ExtractionID = None, cq_Reminders = [], cq_Recurrence = None\<rparr>"

abbreviation into_text :: "string option decoder" where "into_text \<equiv> into_pointer [] into_string"

definition into_reminder :: "reminderRequest decoder" where
  "into_reminder = into_struct
     [json_member ''minutes_before'' rq_MinutesBefore (\<lambda>v. rq_MinutesBefore_update (\<lambda>_. v)) (into_int 32),
      json_member ''channel'' rq_Channel (\<lambda>v. rq_Channel_update (\<lambda>_. v)) into_string]"

definition into_rule :: "RecurrenceRule decoder" where
  "into_rule = into_struct
     [json_member ''frequency'' rr_Frequency (\<lambda>v. rr_Frequency_update (\<lambda>_. v)) into_string,
      json_member ''interval'' rr_Interval (\<lambda>v. rr_Interval_update (\<lambda>_. v)) (into_int 64),
      json_member ''count'' rr_Count (\<lambda>v. rr_Count_update (\<lambda>_. v)) (into_pointer 0 (into_int 64)),
      json_member ''until'' rr_Until (\<lambda>v. rr_Until_update (\<lambda>_. v)) into_text,
      json_member ''weekdays'' rr_Weekdays (\<lambda>v. rr_Weekdays_update (\<lambda>_. v)) (into_slice [] into_string),
      json_member ''exdates'' rr_Exdates (\<lambda>v. rr_Exdates_update (\<lambda>_. v)) (into_slice [] into_string)]"

definition into_create :: "createScheduleRequest decoder" where
  "into_create = into_struct
     [json_member ''title'' cq_Title (\<lambda>v. cq_Title_update (\<lambda>_. v)) into_string,
      json_member ''description'' cq_Description (\<lambda>v. cq_Description_update (\<lambda>_. v)) into_text,
      json_member ''location'' cq_Location (\<lambda>v. cq_Location_update (\<lambda>_. v)) into_text,
      json_member ''start_at'' cq_StartAt (\<lambda>v. cq_StartAt_update (\<lambda>_. v)) (into_pointer zero_time into_time),
      json_member ''end_at'' cq_EndAt (\<lambda>v. cq_EndAt_update (\<lambda>_. v)) (into_pointer zero_time into_time),
      json_member ''all_day'' cq_AllDay (\<lambda>v. cq_AllDay_update (\<lambda>_. v)) into_bool,
      json_member ''timezone'' cq_Timezone (\<lambda>v. cq_Timezone_update (\<lambda>_. v)) into_string,
      json_member ''start_date'' cq_StartDate (\<lambda>v. cq_StartDate_update (\<lambda>_. v)) into_text,
      json_member ''end_date'' cq_EndDate (\<lambda>v. cq_EndDate_update (\<lambda>_. v)) into_text,
      json_member ''local_start_at'' cq_LocalStartAt (\<lambda>v. cq_LocalStartAt_update (\<lambda>_. v)) into_text,
      json_member ''local_end_at'' cq_LocalEndAt (\<lambda>v. cq_LocalEndAt_update (\<lambda>_. v)) into_text,
      json_member ''start_fold'' cq_StartFold (\<lambda>v. cq_StartFold_update (\<lambda>_. v)) into_string,
      json_member ''end_fold'' cq_EndFold (\<lambda>v. cq_EndFold_update (\<lambda>_. v)) into_string,
      json_member ''status'' cq_Status (\<lambda>v. cq_Status_update (\<lambda>_. v)) into_string,
      json_member ''source'' cq_Source (\<lambda>v. cq_Source_update (\<lambda>_. v)) into_string,
      json_member ''extraction_id'' cq_ExtractionID (\<lambda>v. cq_ExtractionID_update (\<lambda>_. v)) into_text,
      json_member ''reminders'' cq_Reminders (\<lambda>v. cq_Reminders_update (\<lambda>_. v)) (into_slice zero_reminder into_reminder),
      json_member ''recurrence'' cq_Recurrence (\<lambda>v. cq_Recurrence_update (\<lambda>_. v)) (into_pointer zero_rule into_rule)]"

definition into_bulk :: "string list decoder" where
  "into_bulk = into_struct [json_member ''ids'' (\<lambda>s. s) (\<lambda>v _. v) (into_slice [] into_string)]"

section \<open>What lies outside\<close>

text \<open>The answer of another service: its status, and its body if that is JSON.\<close>

record service_reply =
  sr_status :: int
  sr_body :: "json option"

record api =
  a_codec :: token_codec
  a_val_create :: "createScheduleRequest \<Rightarrow> string option"
  a_val_reminder :: "reminderRequest \<Rightarrow> string option"
  a_val_bulk :: "string list \<Rightarrow> string option"
  a_error_text :: "time_error \<Rightarrow> string"
  a_json_patch :: "json \<Rightarrow> string \<Rightarrow> string"
  a_json_strings :: "string list \<Rightarrow> string"
  a_json_reminder :: "reminderRequest \<Rightarrow> string"
  a_internalToken :: string
  a_notifyURL :: string
  a_statusURL :: string
  a_notify :: "uuid \<Rightarrow> service_reply option"
  a_account :: "uuid \<Rightarrow> service_reply option"

definition uuid_Parse :: "api \<Rightarrow> string \<Rightarrow> uuid option" where
  "uuid_Parse a s = tc_parse (a_codec a) s"

text \<open>What the tags of the request types ask of the validator.\<close>

definition reminder_tags :: "reminderRequest \<Rightarrow> bool" where
  "reminder_tags r \<longleftrightarrow> 0 \<le> rq_MinutesBefore r \<and> rq_MinutesBefore r \<le> 10080 \<and> rq_Channel r = ''telegram''"

definition create_tags :: "createScheduleRequest \<Rightarrow> bool" where
  "create_tags req \<longleftrightarrow> cq_Title req \<noteq> [] \<and> RuneCountInString (cq_Title req) \<le> 255
     \<and> (case cq_Location req of None \<Rightarrow> True | Some l \<Rightarrow> RuneCountInString l \<le> 255)
     \<and> cq_StartFold req \<in> {[], ''earlier'', ''later''} \<and> cq_EndFold req \<in> {[], ''earlier'', ''later''}
     \<and> cq_Status req \<in> {[], ''confirmed'', ''tentative'', ''cancelled''} \<and> cq_Source req \<in> {[], ''manual'', ''ai''}
     \<and> list_all reminder_tags (cq_Reminders req)"

section \<open>Times\<close>

type_synonym schedule_times = "time \<times> time option \<times> string option \<times> string option"

definition start_of_date :: "(string \<Rightarrow> location option) \<Rightarrow> string \<Rightarrow> string \<Rightarrow> time" where
  "start_of_date load date timezone = (case dateAtTimezoneMidnight load date timezone of Inr t \<Rightarrow> t | Inl _ \<Rightarrow> zero_time)"

text \<open>Given as dates.\<close>

definition date_times :: "(string \<Rightarrow> location option) \<Rightarrow> string option \<Rightarrow> string option \<Rightarrow> string \<Rightarrow> time_error + schedule_times" where
  "date_times load startDate endDate timezone =
     (case (startDate, endDate) of
        (Some sd, Some ed) \<Rightarrow>
          (case (dateAtTimezoneMidnight load sd timezone, dateAtTimezoneMidnight load ed timezone) of
             (Inr start, Inr end) \<Rightarrow> if start < end then Inr (start, Some end, startDate, endDate) else Inl errInvalidTimeFields
           | _ \<Rightarrow> Inl errInvalidTimeFields)
      | _ \<Rightarrow> Inl errInvalidTimeFields)"

text \<open>Given as local times.\<close>

definition local_times :: "(string \<Rightarrow> location option) \<Rightarrow> time option \<Rightarrow> string \<Rightarrow> string option \<Rightarrow> string \<Rightarrow> string \<Rightarrow> string
    \<Rightarrow> time_error + schedule_times" where
  "local_times load endAt localStartAt localEndAt timezone startFold endFold =
     andthen (resolveLocalDateTime load localStartAt timezone startFold) (\<lambda>start.
     andthen (case localEndAt of
         Some v \<Rightarrow> map_sum (\<lambda>x. x) Some (resolveLocalDateTime load v timezone endFold)
       | None \<Rightarrow> Inr endAt) (\<lambda>end. Inr (start, end, None, None)))"

text \<open>An all-day event given by instants: the local dates they fall on.\<close>

definition all_day_times :: "(string \<Rightarrow> location option) \<Rightarrow> time \<Rightarrow> time option \<Rightarrow> string \<Rightarrow> time_error + schedule_times" where
  "all_day_times load start end timezone =
     (case load timezone of
        None \<Rightarrow> Inl errInvalidTimeFields
      | Some zone \<Rightarrow>
          (let sd = format_date (date_in zone start);
               next_day = format_date (date_in zone (add_date zone start 0 0 1));
               ed = (case end of
                       None \<Rightarrow> next_day
                     | Some t \<Rightarrow> (let x = format_date (date_in zone t) in if str_le x sd then next_day else x))
           in Inr (start_of_date load sd timezone, Some (start_of_date load ed timezone), Some sd, Some ed)))"

definition resolveScheduleTimes :: "(string \<Rightarrow> location option) \<Rightarrow> time option \<Rightarrow> time option \<Rightarrow> string option \<Rightarrow> string option
    \<Rightarrow> string option \<Rightarrow> string option \<Rightarrow> bool \<Rightarrow> string \<Rightarrow> string \<Rightarrow> string \<Rightarrow> time_error + schedule_times" where
  "resolveScheduleTimes load startAt endAt localStartAt localEndAt startDate endDate allDay timezone startFold endFold =
     (if allDay \<and> (startDate \<noteq> None \<or> endDate \<noteq> None)
      then (if startDate = None \<or> endDate = None \<or> startAt \<noteq> None \<or> localStartAt \<noteq> None \<or> endAt \<noteq> None \<or> localEndAt \<noteq> None
            then Inl errInvalidTimeFields
            else date_times load startDate endDate timezone)
      else if startDate \<noteq> None \<or> endDate \<noteq> None then Inl errInvalidTimeFields
      else if localStartAt \<noteq> None \<or> localEndAt \<noteq> None
      then (case localStartAt of
              None \<Rightarrow> Inl errInvalidTimeFields
            | Some ls \<Rightarrow>
                if startAt \<noteq> None \<or> endAt \<noteq> None \<and> localEndAt \<noteq> None then Inl errInvalidTimeFields
                else local_times load endAt ls localEndAt timezone startFold endFold)
      else (case startAt of
              None \<Rightarrow> Inl errInvalidTimeFields
            | Some start \<Rightarrow>
                if allDay then all_day_times load start endAt timezone
                else if startFold \<noteq> [] \<or> endFold \<noteq> [] then Inl errInvalidTimeFields
                else Inr (start, endAt, None, None)))"

definition resolveRecurrenceAnchorTimes :: "(string \<Rightarrow> location option) \<Rightarrow> createScheduleRequest \<Rightarrow> string \<Rightarrow> time_error + schedule_times" where
  "resolveRecurrenceAnchorTimes load req timezone =
     (let resolve = resolveScheduleTimes load (cq_StartAt req) (cq_EndAt req) (cq_LocalStartAt req) (cq_LocalEndAt req)
            (cq_StartDate req) (cq_EndDate req) (cq_AllDay req) timezone;
          plain = resolve [] []
      in if plain = Inl errAmbiguousLocalTime \<and> (cq_StartFold req \<noteq> [] \<or> cq_EndFold req \<noteq> [])
         then resolve (cq_StartFold req) (cq_EndFold req) else plain)"

definition writeTimeInputError :: "time_error \<Rightarrow> problem" where
  "writeTimeInputError er =
     (if er = errNonexistentLocalTime then (422, ''local time does not exist in timezone'')
      else if er = errAmbiguousLocalTime then (422, ''local time is ambiguous; choose a fold'')
      else (400, ''invalid schedule time fields''))"

definition recurrence_problem :: "api \<Rightarrow> recurrence_error \<Rightarrow> problem" where
  "recurrence_problem a er =
     (case er of
        RecurrenceError message \<Rightarrow> (400, message)
      | OccurrenceError date which inner \<Rightarrow>
          if inner = errNonexistentLocalTime \<or> inner = errAmbiguousLocalTime then writeTimeInputError inner
          else (400, ''occurrence '' @ date @ '' '' @ which @ '': '' @ a_error_text a inner))"

section \<open>Reminder channels\<close>

record channel_entry =
  ch_Channel :: string
  ch_Verified :: bool
  ch_Consent :: bool

definition into_channel :: "channel_entry decoder" where
  "into_channel = into_struct
     [json_member ''channel'' ch_Channel (\<lambda>v. ch_Channel_update (\<lambda>_. v)) into_string,
      json_member ''verified'' ch_Verified (\<lambda>v. ch_Verified_update (\<lambda>_. v)) into_bool,
      json_member ''consent'' ch_Consent (\<lambda>v. ch_Consent_update (\<lambda>_. v)) into_bool]"

definition into_channels :: "(string \<times> channel_entry list) decoder" where
  "into_channels = into_struct
     [json_member ''user_id'' fst (\<lambda>v c. (v, snd c)) into_string,
      json_member ''channels'' snd (\<lambda>v c. (fst c, v)) (into_slice \<lparr>ch_Channel = [], ch_Verified = False, ch_Consent = False\<rparr> into_channel)]"

definition channels_unavailable :: problem where
  "channels_unavailable = (503, ''notification channel validation unavailable'')"

text \<open>\<open>user\<close> is the text of the user's identifier.\<close>

definition checkReminderChannel :: "api \<Rightarrow> string \<Rightarrow> uuid \<Rightarrow> reminderRequest list \<Rightarrow> problem + unit" where
  "checkReminderChannel a user userID reminders =
     (if \<exists>r \<in> set reminders. rq_Channel r \<noteq> ''telegram''
      then Inl (400, ''only a verified and consented telegram channel can receive reminders'')
      else if reminders = [] then Inr ()
      else if a_internalToken a = [] \<or> a_notifyURL a = [] then Inl channels_unavailable
      else case a_notify a userID of
          None \<Rightarrow> Inl channels_unavailable
        | Some reply \<Rightarrow>
            if sr_status reply \<noteq> 200 then Inl channels_unavailable
            else (case Option.bind (sr_body reply) (into_channels ([], [])) of
                    None \<Rightarrow> Inl channels_unavailable
                  | Some (owner, channels) \<Rightarrow>
                      if owner \<noteq> user then Inl channels_unavailable
                      else if \<exists>c \<in> set channels. ch_Channel c = ''telegram'' \<and> ch_Verified c \<and> ch_Consent c then Inr ()
                      else Inl (409, ''no verified and consented telegram channel is available'')))"

section \<open>Creating\<close>

definition with_defaults :: "createScheduleRequest \<Rightarrow> createScheduleRequest" where
  "with_defaults req = req\<lparr>cq_Status := (if cq_Status req = [] then ''confirmed'' else cq_Status req),
     cq_Source := (if cq_Source req = [] then ''manual'' else cq_Source req)\<rparr>"

definition request_timezone :: "createScheduleRequest \<Rightarrow> string" where
  "request_timezone req = (if cq_Timezone req = [] then ''UTC'' else cq_Timezone req)"

definition request_times :: "(string \<Rightarrow> location option) \<Rightarrow> createScheduleRequest \<Rightarrow> string \<Rightarrow> time_error + schedule_times" where
  "request_times load req timezone =
     (if cq_Recurrence req \<noteq> None then resolveRecurrenceAnchorTimes load req timezone
      else resolveScheduleTimes load (cq_StartAt req) (cq_EndAt req) (cq_LocalStartAt req) (cq_LocalEndAt req)
        (cq_StartDate req) (cq_EndDate req) (cq_AllDay req) timezone (cq_StartFold req) (cq_EndFold req))"

definition create_input :: "createScheduleRequest \<Rightarrow> string \<Rightarrow> string \<Rightarrow> schedule_times \<Rightarrow> uuid option \<Rightarrow> CreateScheduleInput" where
  "create_input req key timezone moments extractionID =
     (case moments of (startAt, endAt, startDate, endDate) \<Rightarrow>
       \<lparr>in_IdempotencyKey = key, in_Title = cq_Title req, in_Description = cq_Description req, in_Location = cq_Location req,
        in_StartAt = startAt, in_EndAt = endAt, in_AllDay = cq_AllDay req, in_Timezone = timezone,
        in_StartDate = startDate, in_EndDate = endDate, in_Status = cq_Status req, in_Source = cq_Source req,
        in_ExtractionID = extractionID,
        in_Reminders = map (\<lambda>r. \<lparr>ri_MinutesBefore = rq_MinutesBefore r, ri_Channel = rq_Channel r\<rparr>) (cq_Reminders req),
        in_Recurrence = cq_Recurrence req\<rparr>)"

definition service_occurrence :: "recurrenceOccurrence \<Rightarrow> ScheduleOccurrence" where
  "service_occurrence oc = \<lparr>occ_StartAt = ro_StartAt oc, occ_EndAt = ro_EndAt oc, occ_AllDay = ro_AllDay oc,
     occ_StartDate = ro_StartDate oc, occ_EndDate = ro_EndDate oc, occ_LocalStart = ro_LocalStart oc\<rparr>"

text \<open>The occurrences of a recurring request; \<open>None\<close> for a single schedule.\<close>

definition request_occurrences :: "api \<Rightarrow> (string \<Rightarrow> location option) \<Rightarrow> createScheduleRequest \<Rightarrow> string \<Rightarrow> schedule_times
    \<Rightarrow> problem + ScheduleOccurrence list option" where
  "request_occurrences a load req timezone moments =
     (case cq_Recurrence req of
        None \<Rightarrow> Inr None
      | Some rule \<Rightarrow>
          (case moments of (startAt, endAt, startDate, endDate) \<Rightarrow>
            (case generateOccurrences load startAt endAt (cq_AllDay req) startDate endDate timezone rule (cq_StartFold req) (cq_EndFold req) of
               Inl er \<Rightarrow> Inl (recurrence_problem a er)
             | Inr (occurrences, _) \<Rightarrow> Inr (Some (map service_occurrence occurrences)))))"

text \<open>From the decoded body and the header \<open>Idempotency-Key\<close> to the arguments of the service.\<close>

definition create_request :: "api \<Rightarrow> (string \<Rightarrow> location option) \<Rightarrow> string \<Rightarrow> uuid \<Rightarrow> createScheduleRequest \<Rightarrow> string
    \<Rightarrow> problem + CreateScheduleInput \<times> ScheduleOccurrence list option" where
  "create_request a load user userID body keyHeader =
     andthen (refuse_if (\<not> snd (normalizeTitle (cq_Title body))) 400 ''title must contain 1 to 255 characters'') (\<lambda>_.
     let req = with_defaults (body\<lparr>cq_Title := fst (normalizeTitle (cq_Title body))\<rparr>); timezone = request_timezone req in
     andthen (case a_val_create a req of None \<Rightarrow> Inr () | Some message \<Rightarrow> Inl (400, message)) (\<lambda>_.
     andthen (refuse_if (load timezone = None) 400 ''timezone must be an IANA timezone'') (\<lambda>_.
     andthen (map_sum writeTimeInputError (\<lambda>x. x) (request_times load req timezone)) (\<lambda>moments.
     let message = scheduleInputError (cq_Description req) (cq_Location req) (fst moments) (fst (snd moments)) in
     andthen (refuse_if (message \<noteq> []) 400 message) (\<lambda>_.
     andthen (refuse_if (\<not> snd (idempotencyKey keyHeader)) 400 ''invalid Idempotency-Key'') (\<lambda>_.
     andthen (case cq_ExtractionID req of
         None \<Rightarrow> Inr None
       | Some s \<Rightarrow> map_sum (\<lambda>x. x) Some (or_refuse (uuid_Parse a s) 400 ''invalid extraction_id'')) (\<lambda>extractionID.
     andthen (checkReminderChannel a user userID (cq_Reminders req)) (\<lambda>_.
     andthen (request_occurrences a load req timezone moments) (\<lambda>occurrences.
     Inr (create_input req (fst (idempotencyKey keyHeader)) timezone moments extractionID, occurrences))))))))))"

section \<open>What is accepted\<close>

text \<open>
  The input of the service is well formed: texts within their limits, known status and source, a time zone
  that loads, an end that is at least a millisecond after the start. An event that is not given by local
  times has dates exactly if it is all-day, and its instants are then the midnights that begin these dates.
\<close>

definition texts_ok :: "CreateScheduleInput \<Rightarrow> bool" where
  "texts_ok inp \<longleftrightarrow> in_Title inp \<noteq> [] \<and> TrimSpace (in_Title inp) = in_Title inp \<and> RuneCountInString (in_Title inp) \<le> 255
     \<and> pred_option (\<lambda>d. RuneCountInString d \<le> 10000) (in_Description inp)
     \<and> pred_option (\<lambda>l. RuneCountInString l \<le> 255) (in_Location inp)"

definition dated :: "(string \<Rightarrow> location option) \<Rightarrow> string \<Rightarrow> string option \<Rightarrow> time \<Rightarrow> bool" where
  "dated load timezone date t \<longleftrightarrow> (\<exists>d. date = Some d \<and> (\<forall>m. dateAtTimezoneMidnight load d timezone = Inr m \<longrightarrow> t = m))"

definition times_ok :: "(string \<Rightarrow> location option) \<Rightarrow> bool \<Rightarrow> string \<Rightarrow> schedule_times \<Rightarrow> bool" where
  "times_ok load dates timezone moments \<longleftrightarrow> (case moments of (start, end, startDate, endDate) \<Rightarrow>
     (if dates then dated load timezone startDate start \<and> (\<exists>t. end = Some t \<and> dated load timezone endDate t)
      else startDate = None \<and> endDate = None))"

definition input_ok :: "(string \<Rightarrow> location option) \<Rightarrow> CreateScheduleInput \<Rightarrow> bool" where
  "input_ok load inp \<longleftrightarrow> texts_ok inp \<and> status_ok (in_Status inp) \<and> source_ok (in_Source inp) \<and> load (in_Timezone inp) \<noteq> None
     \<and> (\<forall>r \<in> set (in_Reminders inp). 0 \<le> ri_MinutesBefore r \<and> ri_MinutesBefore r \<le> maxReminderMinutes \<and> ri_Channel r = ''telegram'')
     \<and> pred_option (\<lambda>t. in_StartAt inp + millisecond \<le> t) (in_EndAt inp)"

lemma resolveScheduleTimes_ok:
  assumes "resolveScheduleTimes load sa ea ls le sd ed allDay tz sf ef = Inr moments"
  shows "times_ok load (allDay \<and> ls = None) tz moments"
  using assms unfolding resolveScheduleTimes_def
  by (auto simp: times_ok_def date_times_def local_times_def all_day_times_def start_of_date_def dated_def Let_def
      split: if_splits option.splits sum.splits prod.splits)

lemma request_times_ok:
  "request_times load req tz = Inr moments \<Longrightarrow> times_ok load (cq_AllDay req \<and> cq_LocalStartAt req = None) tz moments"
  by (auto simp: request_times_def resolveRecurrenceAnchorTimes_def Let_def dest: resolveScheduleTimes_ok split: if_splits)

lemma scheduleInputError_none:
  "scheduleInputError d l start fin = [] \<Longrightarrow> pred_option (\<lambda>d. RuneCountInString d \<le> 10000) d
     \<and> pred_option (\<lambda>l. RuneCountInString l \<le> 255) l \<and> pred_option (\<lambda>t. start + millisecond \<le> t) fin"
  by (cases d; cases l; cases fin)
    (simp_all add: scheduleInputError_def scheduleTextInputError_def Let_def max_int64_def split: if_splits)

text \<open>
  C38: What the HTTP layer hands to the service when it accepts a request to create: trimmed and bounded texts,
  a known status and source, a time zone that loads, reminders in range on the supported channel, an end
  after the start, a valid idempotency key, dates with matching instants exactly for an all-day event
  (unless it is given by local times), and occurrences exactly for a recurring one, which are those
  of its rule.\<close>

theorem create_request_wellformed:
  assumes run: "create_request a load user u body key = Inr (inp, occurrences)"
    and validator: "\<And>req. a_val_create a req = None \<Longrightarrow> create_tags req"
  shows "input_ok load inp \<and> idempotencyKey key = (in_IdempotencyKey inp, True)
    \<and> in_AllDay inp = cq_AllDay body \<and> in_Title inp = TrimSpace (cq_Title body)
    \<and> times_ok load (in_AllDay inp \<and> cq_LocalStartAt body = None) (in_Timezone inp)
        (in_StartAt inp, in_EndAt inp, in_StartDate inp, in_EndDate inp)
    \<and> (case in_Recurrence inp of
         None \<Rightarrow> occurrences = None
       | Some rule \<Rightarrow> (\<exists>rs skipped. generateOccurrences load (in_StartAt inp) (in_EndAt inp) (in_AllDay inp) (in_StartDate inp) (in_EndDate inp)
             (in_Timezone inp) rule (cq_StartFold body) (cq_EndFold body) = Inr (rs, skipped) \<and> occurrences = Some (map service_occurrence rs)))"
proof -
  let ?req = "with_defaults (body\<lparr>cq_Title := TrimSpace (cq_Title body)\<rparr>)"
  obtain moments ext where title: "snd (normalizeTitle (cq_Title body))" and val: "a_val_create a ?req = None"
    and zone: "load (request_timezone ?req) \<noteq> None" and moments: "request_times load ?req (request_timezone ?req) = Inr moments"
    and texts: "scheduleInputError (cq_Description ?req) (cq_Location ?req) (fst moments) (fst (snd moments)) = []"
    and valid: "snd (idempotencyKey key)" and occ: "request_occurrences a load ?req (request_timezone ?req) moments = Inr occurrences"
    and inp: "inp = create_input ?req (fst (idempotencyKey key)) (request_timezone ?req) moments ext"
    using run by (auto simp: create_request_def Let_def normalizeTitle_def map_sum_def split: option.splits sum.splits)
  obtain start fin sd ed where m: "moments = (start, fin, sd, ed)" by (cases moments)
  have tags: "create_tags ?req" using validator val .
  have "texts_ok inp"
    using title scheduleInputError_none[OF texts]
    by (simp add: inp m texts_ok_def create_input_def with_defaults_def normalizeTitle_def Let_def TrimSpace_idem)
  moreover have "status_ok (in_Status inp)" "source_ok (in_Source inp)"
    using tags by (auto simp: inp m create_input_def create_tags_def status_ok_def source_ok_def with_defaults_def)
  moreover have "\<forall>r \<in> set (in_Reminders inp). 0 \<le> ri_MinutesBefore r \<and> ri_MinutesBefore r \<le> maxReminderMinutes \<and> ri_Channel r = ''telegram''"
    using tags by (auto simp: inp m create_input_def create_tags_def reminder_tags_def list_all_iff maxReminderMinutes_def)
  ultimately have "input_ok load inp"
    using zone scheduleInputError_none[OF texts] by (simp add: inp m input_ok_def create_input_def)
  moreover have "times_ok load (cq_AllDay body \<and> cq_LocalStartAt body = None) (in_Timezone inp)
        (in_StartAt inp, in_EndAt inp, in_StartDate inp, in_EndDate inp)"
    using request_times_ok[OF moments] by (simp add: inp m create_input_def with_defaults_def)
  moreover have "in_AllDay inp = cq_AllDay body" "in_Title inp = TrimSpace (cq_Title body)" "idempotencyKey key = (in_IdempotencyKey inp, True)"
    using valid by (simp_all add: inp m create_input_def with_defaults_def prod_eq_iff)
  moreover have "case in_Recurrence inp of
         None \<Rightarrow> occurrences = None
       | Some rule \<Rightarrow> (\<exists>rs skipped. generateOccurrences load (in_StartAt inp) (in_EndAt inp) (in_AllDay inp) (in_StartDate inp) (in_EndDate inp)
             (in_Timezone inp) rule (cq_StartFold body) (cq_EndFold body) = Inr (rs, skipped) \<and> occurrences = Some (map service_occurrence rs))"
  proof (cases "cq_Recurrence body")
    case None
    with occ show ?thesis by (simp add: inp m create_input_def with_defaults_def request_occurrences_def)
  next
    case (Some rule)
    let ?run = "generateOccurrences load start fin (cq_AllDay body) sd ed (request_timezone ?req) rule (cq_StartFold body) (cq_EndFold body)"
    from occ Some obtain rs skipped where "?run = Inr (rs, skipped)" "occurrences = Some (map service_occurrence rs)"
      by (cases ?run) (auto simp: m request_occurrences_def with_defaults_def)
    with Some show ?thesis by (simp add: inp m create_input_def with_defaults_def)
  qed
  ultimately show ?thesis by (simp only: simp_thms)
qed

definition sample_api :: api where
  "sample_api = \<lparr>a_codec = sample_codec, a_val_create = (\<lambda>req. if create_tags req then None else Some ''invalid''),
     a_val_reminder = (\<lambda>req. if reminder_tags req then None else Some ''invalid''), a_val_bulk = (\<lambda>_. None),
     a_error_text = (\<lambda>_. ''error''), a_json_patch = (\<lambda>_ tag. tag), a_json_strings = concat, a_json_reminder = (\<lambda>_. []),
     a_internalToken = ''secret'', a_notifyURL = ''http://notify'', a_statusURL = ''http://auth'',
     a_notify = (\<lambda>_. None), a_account = (\<lambda>_. None)\<rparr>"

definition sample_body :: createScheduleRequest where
  "sample_body = zero_create\<lparr>cq_Title := '' standup '', cq_StartAt := Some 0, cq_EndAt := Some hour\<rparr>"

lemma create_request_wellformed_witness:
  "\<exists>inp. create_request sample_api (load_location sample_env) ''1'' 1 sample_body ''key'' = Inr (inp, None)
     \<and> input_ok (load_location sample_env) inp \<and> in_Title inp = ''standup''"
proof -
  have "\<not> isl (create_request sample_api (load_location sample_env) ''1'' 1 sample_body ''key'')" by code_simp
  then obtain inp occs where run: "create_request sample_api (load_location sample_env) ''1'' 1 sample_body ''key'' = Inr (inp, occs)"
    by (metis isl_def old.sum.exhaust surj_pair)
  have val: "create_tags req" if "a_val_create sample_api req = None" for req
    using that by (simp add: sample_api_def split: if_splits)
  have "TrimSpace (cq_Title sample_body) = ''standup''" by code_simp
  moreover have "occs = None"
    using run by (auto simp: create_request_def Let_def request_occurrences_def sample_body_def with_defaults_def zero_create_def)
  ultimately show ?thesis using run create_request_wellformed[OF run val] by auto
qed

text \<open>
  An all-day event given by local times is accepted without dates, and no listing or export, which look for
  all-day events by their dates, ever shows it.
\<close>

lemma local_all_day_without_dates:
  assumes "resolveScheduleTimes load sa ea (Some ls) le sd ed True tz sf ef = Inr (start, fin, startDate, endDate)"
  shows "startDate = None \<and> endDate = None"
  using assms by (auto simp: resolveScheduleTimes_def local_times_def split: if_splits)

lemma all_day_without_dates_unlisted:
  "sr_AllDay s \<Longrightarrow> sr_StartDate s = None \<Longrightarrow> \<not> page_match e p s"
  by (simp add: page_match_def page_range_def)

end
