(* ===== verification/Create.thy ===== *)
theory Create
  imports Reminders
begin

text \<open>
  Creating schedules (\<open>internal/service/schedules.go\<close>: \<open>CreateSchedule\<close>, \<open>CreateRecurringSchedules\<close>).
  A recurring schedule is materialised: a series row, and for each occurrence a schedule row, its
  link to the series and its own copies of the reminders. The rows, one event for each schedule and the
  saved response commit together.
\<close>

section \<open>Definitions\<close>

definition create_defaults :: "CreateScheduleInput \<Rightarrow> CreateScheduleInput" where
  "create_defaults inp = inp\<lparr>in_Timezone := if in_Timezone inp = [] then ''UTC'' else in_Timezone inp,
     in_Status := if in_Status inp = [] then ''confirmed'' else in_Status inp,
     in_Source := if in_Source inp = [] then ''manual'' else in_Source inp\<rparr>"

definition single_params :: "uuid \<Rightarrow> uuid \<Rightarrow> CreateScheduleInput \<Rightarrow> CreateScheduleParams" where
  "single_params ident userID inp = \<lparr>cp_ID = ident, cp_UserID = userID, cp_Title = in_Title inp,
     cp_Description = in_Description inp, cp_Location = in_Location inp, cp_StartAt = in_StartAt inp,
     cp_EndAt = in_EndAt inp, cp_AllDay = in_AllDay inp, cp_Timezone = in_Timezone inp,
     cp_StartDate = nullDate (in_StartDate inp), cp_EndDate = nullDate (in_EndDate inp),
     cp_Status = in_Status inp, cp_Source = in_Source inp, cp_ExtractionID = in_ExtractionID inp\<rparr>"

definition add_reminders :: "uuid \<Rightarrow> ReminderInput list \<Rightarrow> unit tx" where
  "add_reminders ident reminders = foreach reminders (\<lambda>rem.
     bnd new_uuid (\<lambda>remID. repo_AddReminder remID ident (ri_MinutesBefore rem) (ri_Channel rem)))"

definition claim_create :: "uuid \<Rightarrow> CreateScheduleInput \<Rightarrow> Schedule option tx" where
  "claim_create userID inp = (if in_IdempotencyKey inp = [] then ret None else claimScheduleCreate userID inp)"

definition save_created :: "uuid \<Rightarrow> CreateScheduleInput \<Rightarrow> Schedule \<Rightarrow> unit tx" where
  "save_created userID inp sch =
     (if in_IdempotencyKey inp = [] then ret () else save_create_response userID (in_IdempotencyKey inp) sch)"

definition create_fresh :: "uuid \<Rightarrow> CreateScheduleInput \<Rightarrow> Schedule outcome tx" where
  "create_fresh userID inp =
     bnd new_uuid (\<lambda>ident.
     bnd (repo_CreateSchedule (single_params ident userID inp)) (\<lambda>_.
     bnd (add_reminders ident (in_Reminders inp)) (\<lambda>_.
     bnd (getSchedule userID ident) (\<lambda>sch.
     bnd (enqueueScheduleEvent SubjectScheduleCreated sch) (\<lambda>_.
     bnd (save_created userID inp sch) (\<lambda>_.
     ret (Commit sch)))))))"

definition CreateSchedule :: "uuid \<Rightarrow> CreateScheduleInput \<Rightarrow> Schedule tx" where
  "CreateSchedule userID inp0 =
     (let inp = create_defaults inp0
      in bnd (lift (validateReminderSet (in_Reminders inp))) (\<lambda>_.
         mutation
           (bnd (ensureAccountNotDeleted userID) (\<lambda>_.
            bnd (claim_create userID inp) (\<lambda>previous.
            case previous of Some sch \<Rightarrow> ret (Early sch) | None \<Rightarrow> create_fresh userID inp)))
           (\<lambda>_. count_mutation ''create'' 1)))"

definition insert_series_row :: "uuid \<Rightarrow> uuid \<Rightarrow> RecurrenceRule \<Rightarrow> unit tx" where
  "insert_series_row seriesID userID rule = sql (\<lambda>e n d.
     if \<exists>z \<in> set (t_series d). ser_SeriesID z = seriesID then Inl MySQLDuplicate
     else Inr ((), d\<lparr>t_series := t_series d @
       [\<lparr>ser_SeriesID = seriesID, ser_UserID = userID, ser_Recurrence = rule\<rparr>]\<rparr>))"

text \<open>\<open>LocalStart\<close> is a wall-clock reading; the date is sent as text, which MySQL parses.\<close>

definition insert_occurrence_row :: "uuid \<Rightarrow> uuid \<Rightarrow> int \<Rightarrow> time \<Rightarrow> unit tx" where
  "insert_occurrence_row scheduleID seriesID index localStart = sql (\<lambda>e n d.
     case parse_date (format_date (wall_day localStart)) of
       None \<Rightarrow> Inl DBError
     | Some date \<Rightarrow>
         if \<exists>q \<in> set (t_occurrences d). ocr_ScheduleID q = scheduleID \<or> ocr_SeriesID q = seriesID \<and> ocr_Index q = index
         then Inl MySQLDuplicate
         else if \<not> has_schedule d scheduleID \<or> \<not> (\<exists>z \<in> set (t_series d). ser_SeriesID z = seriesID) then Inl DBError
         else Inr ((), d\<lparr>t_occurrences := t_occurrences d @
           [\<lparr>ocr_ScheduleID = scheduleID, ocr_SeriesID = seriesID, ocr_Index = index,
             ocr_LocalStart = dt0 e localStart, ocr_LocalDate = date\<rparr>]\<rparr>))"

definition occurrence_params :: "uuid \<Rightarrow> uuid \<Rightarrow> CreateScheduleInput \<Rightarrow> ScheduleOccurrence \<Rightarrow> CreateScheduleParams" where
  "occurrence_params ident userID inp occ = \<lparr>cp_ID = ident, cp_UserID = userID, cp_Title = in_Title inp,
     cp_Description = in_Description inp, cp_Location = in_Location inp, cp_StartAt = occ_StartAt occ,
     cp_EndAt = occ_EndAt occ, cp_AllDay = occ_AllDay occ, cp_Timezone = in_Timezone inp,
     cp_StartDate = nullDate (occ_StartDate occ), cp_EndDate = nullDate (occ_EndDate occ),
     cp_Status = (if in_Status inp = [] then ''confirmed'' else in_Status inp),
     cp_Source = (if in_Source inp = [] then ''manual'' else in_Source inp), cp_ExtractionID = in_ExtractionID inp\<rparr>"

definition create_occurrence :: "uuid \<Rightarrow> CreateScheduleInput \<Rightarrow> uuid \<Rightarrow> nat \<times> ScheduleOccurrence \<Rightarrow> uuid tx" where
  "create_occurrence userID inp seriesID = (\<lambda>(index, occ).
     bnd new_uuid (\<lambda>ident.
     bnd (repo_CreateSchedule (occurrence_params ident userID inp occ)) (\<lambda>_.
     bnd (insert_occurrence_row ident seriesID (int index) (occ_LocalStart occ)) (\<lambda>_.
     bnd (add_reminders ident (in_Reminders inp)) (\<lambda>_.
     ret ident)))))"

definition announce_created :: "uuid \<Rightarrow> uuid \<Rightarrow> Schedule tx" where
  "announce_created userID ident =
     bnd (getSchedule userID ident) (\<lambda>sch.
     bnd (enqueueScheduleEvent SubjectScheduleCreated sch) (\<lambda>_. ret sch))"

definition create_series_fresh :: "uuid \<Rightarrow> CreateScheduleInput \<Rightarrow> RecurrenceRule \<Rightarrow> ScheduleOccurrence list \<Rightarrow> Schedule outcome tx" where
  "create_series_fresh userID inp rule occurrences =
     bnd new_uuid (\<lambda>seriesID.
     bnd (insert_series_row seriesID userID rule) (\<lambda>_.
     bnd (collect (enumerate 0 occurrences) (create_occurrence userID inp seriesID)) (\<lambda>ids.
     bnd (collect ids (announce_created userID)) (\<lambda>schedules.
     bnd (save_created userID inp (hd schedules)) (\<lambda>_.
     ret (Commit (hd schedules)))))))"

definition CreateRecurringSchedules :: "uuid \<Rightarrow> CreateScheduleInput \<Rightarrow> ScheduleOccurrence list \<Rightarrow> Schedule tx" where
  "CreateRecurringSchedules userID inp occurrences =
     (case in_Recurrence inp of
        None \<Rightarrow> fail ErrInvalidSchedule
      | Some rule \<Rightarrow>
          if occurrences = [] \<or> 100 < length occurrences then fail ErrInvalidSchedule
          else bnd (lift (validateReminderSet (in_Reminders inp))) (\<lambda>_.
            mutation
              (bnd (ensureAccountNotDeleted userID) (\<lambda>_.
               bnd (claim_create userID inp) (\<lambda>previous.
               case previous of Some sch \<Rightarrow> ret (Early sch) | None \<Rightarrow> create_series_fresh userID inp rule occurrences)))
              (\<lambda>_. count_mutation ''create'' (int (length occurrences)))))"

lemma create_defaults_same [simp]:
  "in_Reminders (create_defaults inp) = in_Reminders inp" "in_IdempotencyKey (create_defaults inp) = in_IdempotencyKey inp"
  by (simp_all add: create_defaults_def)

lemma bnd_ret: "bnd (ret x) k = k x"
  by (simp add: bnd_def ret_def)

section \<open>The store stays in order\<close>

definition same_reminders :: "reminder_row list \<Rightarrow> ReminderInput list \<Rightarrow> bool" where
  "same_reminders rows inputs \<longleftrightarrow>
     map (\<lambda>r. (rmr_MinutesBefore r, rmr_Channel r)) rows = map (\<lambda>r. (ri_MinutesBefore r, ri_Channel r)) inputs"

lemma same_reminders_length: "same_reminders rows inputs \<Longrightarrow> length rows = length inputs"
  unfolding same_reminders_def by (rule map_eq_imp_length_eq)

lemma same_reminders_mem:
  "same_reminders rows inputs \<Longrightarrow> q \<in> set rows \<Longrightarrow>
     \<exists>r \<in> set inputs. ri_MinutesBefore r = rmr_MinutesBefore q \<and> ri_Channel r = rmr_Channel q"
  unfolding same_reminders_def by (induction rows arbitrary: inputs) (auto simp: Cons_eq_map_conv)

lemma row_ok_new:
  "status_ok (cp_Status p) \<Longrightarrow> source_ok (cp_Source p) \<Longrightarrow> row_ok (new_schedule_row e t p)"
  by (simp add: row_ok_def new_schedule_row_def max_int64_def)

lemma new_schedule_row_key [simp]:
  "sr_ID (new_schedule_row e t p) = cp_ID p" "sr_UserID (new_schedule_row e t p) = cp_UserID p"
  by (simp_all add: new_schedule_row_def)

lemma wf_no_reminders: "db_wf d \<Longrightarrow> \<not> has_schedule d sid \<Longrightarrow> reminders_of d sid = []"
  by (auto simp: db_wf_def refs_ok_def reminders_of_def filter_empty_conv)

lemma wf_no_occurrence: "db_wf d \<Longrightarrow> \<not> has_schedule d sid \<Longrightarrow> r \<in> set (t_occurrences d) \<Longrightarrow> ocr_ScheduleID r \<noteq> sid"
  by (auto dest!: wf_linked simp: linked_def dest: owns_has_schedule)

context user_store
begin

lemma hoare_repo_CreateSchedule:
  assumes "cp_UserID p = u" and "\<And>d rows. K d \<Longrightarrow> K (d\<lparr>t_schedules := rows\<rparr>)"
  shows "hoare (\<lambda>d. I d \<and> K d) (repo_CreateSchedule p) (\<lambda>_ d. I d \<and> K d \<and> owns d u (cp_ID p) \<and> reminders_of d (cp_ID p) = [])"
  unfolding repo_CreateSchedule_def
proof (rule hoare_sql)
  fix e n d x d' assume pre: "I d \<and> K d"
    and run: "(if \<not> (status_ok (cp_Status p) \<and> source_ok (cp_Source p)) then Inl DBError
     else if has_schedule d (cp_ID p) then Inl MySQLDuplicate
     else Inr ((), d\<lparr>t_schedules := t_schedules d @ [new_schedule_row e (now_at e n) p]\<rparr>)) = Inr (x, d')"
  then have new: "\<not> has_schedule d (cp_ID p)" "status_ok (cp_Status p)" "source_ok (cp_Source p)"
    and d': "d' = d\<lparr>t_schedules := t_schedules d @ [new_schedule_row e (now_at e n) p]\<rparr>"
    by (auto split: if_splits)
  have "reminders_of d' (cp_ID p) = []"
    using wf_no_reminders[OF wf new(1)] pre by (simp add: d' reminders_of_def)
  moreover have "I d'"
    unfolding d' using pre new assms(1) by (intro insert_schedule) (auto simp: row_ok_new)
  ultimately show "I d' \<and> K d' \<and> owns d' u (cp_ID p) \<and> reminders_of d' (cp_ID p) = []"
    using pre assms by (auto simp: d')
qed

lemma hoare_add_reminders:
  assumes K: "\<And>d rows. K d \<Longrightarrow> K (d\<lparr>t_reminders := rows\<rparr>)"
    and valid: "validateReminderSet (old @ new) = Inr ()"
  shows "hoare (\<lambda>d. I d \<and> K d \<and> owns d u sid \<and> same_reminders (reminders_of d sid) old) (add_reminders sid new)
    (\<lambda>_ d. I d \<and> K d \<and> owns d u sid \<and> same_reminders (reminders_of d sid) (old @ new))"
  using valid
proof (induction new arbitrary: old)
  case Nil
  then show ?case by (auto simp: add_reminders_def intro!: hoare_ret)
next
  case (Cons r new)
  let ?P = "\<lambda>old d. I d \<and> K d \<and> owns d u sid \<and> same_reminders (reminders_of d sid) old"
  have ok: "reminder_in_range r" "length old < 5" "\<forall>q \<in> set old. ri_MinutesBefore q \<noteq> ri_MinutesBefore r"
    using Cons.prems by (auto simp: validateReminderSet_ok image_iff)
  have "hoare (?P old) (repo_AddReminder rid sid (ri_MinutesBefore r) (ri_Channel r)) (\<lambda>_. ?P (old @ [r]))" for rid
    unfolding repo_AddReminder_def
  proof (rule hoare_sql)
    fix e n d x d' assume pre: "?P old d"
      and run: "(if \<not> channel_ok (ri_Channel r) then Inl DBError
       else if \<exists>q \<in> set (t_reminders d). rmr_ID q = rid then Inl MySQLDuplicate
       else if \<not> has_schedule d sid then Inl DBError
       else Inr ((), d\<lparr>t_reminders := t_reminders d @ [\<lparr>rmr_ID = rid, rmr_ScheduleID = sid, rmr_MinutesBefore = ri_MinutesBefore r,
         rmr_Channel = ri_Channel r, rmr_CreatedAt = now_at e n\<rparr>]\<rparr>)) = Inr (x, d')"
    define row where "row = \<lparr>rmr_ID = rid, rmr_ScheduleID = sid, rmr_MinutesBefore = ri_MinutesBefore r,
         rmr_Channel = ri_Channel r, rmr_CreatedAt = now_at e n\<rparr>"
    have d': "d' = d\<lparr>t_reminders := t_reminders d @ [row]\<rparr>" and fresh: "\<forall>q \<in> set (t_reminders d). rmr_ID q \<noteq> rid"
      using run by (auto simp: row_def split: if_splits)
    have "length (reminders_of d sid) < 5" using pre ok(2) same_reminders_length[of "reminders_of d sid" old] by simp
    moreover have "rmr_MinutesBefore q \<noteq> ri_MinutesBefore r" if "q \<in> set (reminders_of d sid)" for q
      using same_reminders_mem[OF _ that, of old] pre ok(3) by auto
    ultimately have "reminder_fits d row"
      using ok(1) by (auto simp: reminder_fits_def row_def reminder_in_range_def)
    then have "I d'" unfolding d' using pre fresh by (intro insert_reminder) (auto simp: row_def)
    moreover have "reminders_of d' sid = reminders_of d sid @ [row]" by (simp add: d' reminders_of_def row_def)
    ultimately show "?P (old @ [r]) d'" using pre K by (auto simp: d' same_reminders_def row_def)
  qed
  moreover have "hoare (?P (old @ [r])) (add_reminders sid new) (\<lambda>_. ?P (old @ r # new))"
    using Cons.IH[of "old @ [r]"] Cons.prems by simp
  ultimately show ?case
    unfolding add_reminders_def foreach.simps by (intro hoare_bnd[where Q = "\<lambda>_. ?P (old @ [r])"] hoare_then_uuid) auto
qed

lemma hoare_claim_create: "hoare I (claim_create u inp) (\<lambda>_. I)"
  unfolding claim_create_def by (intro hoare_if hoare_ret hoare_claimScheduleCreate)

lemma hoare_save_created: "hoare I (save_created u inp sch) (\<lambda>_. I)"
  unfolding save_created_def by (intro hoare_if hoare_ret hoare_save_create_response)

lemma hoare_create_fresh:
  assumes "validateReminderSet (in_Reminders inp) = Inr ()"
  shows "hoare I (create_fresh u inp) (committed I)"
proof -
  let ?P = "\<lambda>ident rems d. I d \<and> True \<and> owns d u ident \<and> same_reminders (reminders_of d ident) rems"
  have a: "hoare I (repo_CreateSchedule (single_params ident u inp)) (\<lambda>_. ?P ident [])" for ident
    by (rule hoare_conseq[OF hoare_repo_CreateSchedule[of "single_params ident u inp" "\<lambda>_. True"]])
      (auto simp: same_reminders_def single_params_def)
  have b: "hoare (?P ident []) (add_reminders ident (in_Reminders inp)) (\<lambda>_. I)" for ident
    by (rule hoare_conseq[OF hoare_add_reminders[of "\<lambda>_. True" "[]" "in_Reminders inp" ident]]) (use assms in auto)
  have "hoare I (bnd (getSchedule u ident) (\<lambda>sch. bnd (enqueueScheduleEvent SubjectScheduleCreated sch) (\<lambda>_.
     bnd (save_created u inp sch) (\<lambda>_. ret (Commit sch))))) (committed I)" for ident
    by (intro hoare_then_get hoare_seq[OF hoare_enqueueScheduleEvent] hoare_seq[OF hoare_save_created] hoare_ret) simp
  then show ?thesis
    unfolding create_fresh_def by (intro hoare_then_uuid hoare_bnd[OF a hoare_bnd[OF b]])
qed

lemma keeps_CreateSchedule: "steps (keeps I) (CreateSchedule u inp)"
proof (cases "validateReminderSet (in_Reminders (create_defaults inp))")
  case (Inl er)
  then show ?thesis by (simp add: CreateSchedule_def steps_def lift_def bnd_def keeps_def)
next
  case (Inr x)
  then show ?thesis
    unfolding CreateSchedule_def Let_def
    by (intro keeps.steps_bnd keeps.steps_lift steps_mutation hoare_seq[OF hoare_ensureAccountNotDeleted]
        hoare_seq[OF hoare_claim_create] hoare_option hoare_ret hoare_create_fresh) simp_all
qed

lemma hoare_insert_series_row:
  "hoare I (insert_series_row seriesID u rule) (\<lambda>_ d. I d \<and> (\<exists>z \<in> set (t_series d). ser_SeriesID z = seriesID \<and> ser_UserID z = u))"
  unfolding insert_series_row_def
  by (rule hoare_sql) (auto split: if_splits intro!: insert_series)

lemma hoare_insert_occurrence_row:
  assumes "\<And>d rows. K d \<Longrightarrow> K (d\<lparr>t_occurrences := rows\<rparr>)" and "\<And>d. K d \<Longrightarrow> owns d u ident"
    and "\<And>d. K d \<Longrightarrow> \<exists>z \<in> set (t_series d). ser_SeriesID z = seriesID \<and> ser_UserID z = u"
  shows "hoare (\<lambda>d. I d \<and> K d) (insert_occurrence_row ident seriesID index ls) (\<lambda>_ d. I d \<and> K d)"
  unfolding insert_occurrence_row_def
  by (rule hoare_sql) (auto split: if_splits option.splits intro!: insert_occurrence dest: assms(3) simp: assms(1,2))

lemma hoare_create_occurrence:
  assumes "validateReminderSet (in_Reminders inp) = Inr ()"
  shows "hoare (\<lambda>d. I d \<and> (\<exists>z \<in> set (t_series d). ser_SeriesID z = seriesID \<and> ser_UserID z = u))
    (create_occurrence u inp seriesID io) (\<lambda>_ d. I d \<and> (\<exists>z \<in> set (t_series d). ser_SeriesID z = seriesID \<and> ser_UserID z = u))"
proof (cases io)
  case (Pair index occ)
  let ?S = "\<lambda>d. \<exists>z \<in> set (t_series d). ser_SeriesID z = seriesID \<and> ser_UserID z = u"
  let ?K = "\<lambda>ident d. ?S d \<and> owns d u ident \<and> reminders_of d ident = []"
  let ?P = "\<lambda>ident rems d. I d \<and> ?S d \<and> owns d u ident \<and> same_reminders (reminders_of d ident) rems"
  have "hoare (\<lambda>d. I d \<and> ?S d) (repo_CreateSchedule (occurrence_params ident u inp occ)) (\<lambda>_ d. I d \<and> ?K ident d)" for ident
    using hoare_repo_CreateSchedule[of "occurrence_params ident u inp occ" ?S] by (simp add: occurrence_params_def)
  moreover have "hoare (\<lambda>d. I d \<and> ?K ident d) (insert_occurrence_row ident seriesID (int index) (occ_LocalStart occ)) (\<lambda>_. ?P ident [])" for ident
    by (rule hoare_conseq[OF hoare_insert_occurrence_row[of "?K ident"]]) (auto simp: reminders_of_def same_reminders_def)
  moreover have "hoare (?P ident []) (add_reminders ident (in_Reminders inp)) (\<lambda>_ d. I d \<and> ?S d)" for ident
    by (rule hoare_conseq[OF hoare_add_reminders[of ?S "[]" "in_Reminders inp" ident]]) (use assms in auto)
  ultimately show ?thesis
    unfolding create_occurrence_def Pair prod.case
    by (intro hoare_then_uuid hoare_bnd[of "\<lambda>d. I d \<and> ?S d" "repo_CreateSchedule _"] hoare_bnd[of _ "insert_occurrence_row _ _ _ _"]
        hoare_bnd[of _ "add_reminders _ _"] hoare_ret) auto
qed

lemma hoare_announce_created: "hoare I (announce_created u ident) (\<lambda>_. I)"
  unfolding announce_created_def
  by (intro hoare_then_get hoare_seq[OF hoare_enqueueScheduleEvent] hoare_ret)

lemma hoare_create_series_fresh:
  assumes "validateReminderSet (in_Reminders inp) = Inr ()"
  shows "hoare I (create_series_fresh u inp rule occs) (committed I)"
proof -
  let ?S = "\<lambda>seriesID d. I d \<and> (\<exists>z \<in> set (t_series d). ser_SeriesID z = seriesID \<and> ser_UserID z = u)"
  have a: "hoare (?S seriesID) (collect xs (create_occurrence u inp seriesID)) (\<lambda>_. I)" for seriesID xs
    by (rule hoare_conseq[OF hoare_collect[OF hoare_create_occurrence[OF assms]]]) auto
  have "hoare I (bnd (collect ids (announce_created u)) (\<lambda>schedules. bnd (save_created u inp (hd schedules)) (\<lambda>_.
      ret (Commit (hd schedules))))) (committed I)" for ids
    by (intro hoare_seq[OF hoare_collect[OF hoare_announce_created]] hoare_seq[OF hoare_save_created] hoare_ret) simp
  then show ?thesis
    unfolding create_series_fresh_def by (intro hoare_then_uuid hoare_bnd[OF hoare_insert_series_row hoare_bnd[OF a]])
qed

lemma keeps_CreateRecurringSchedules: "steps (keeps I) (CreateRecurringSchedules u inp occs)"
proof (cases "validateReminderSet (in_Reminders inp)")
  case (Inl er)
  then show ?thesis by (simp add: CreateRecurringSchedules_def steps_def lift_def fail_def bnd_def keeps_def split: option.split)
next
  case (Inr x)
  then show ?thesis
    unfolding CreateRecurringSchedules_def
    by (intro keeps.steps_option keeps.steps_if keeps.steps_fail keeps.steps_bnd keeps.steps_lift steps_mutation
        hoare_seq[OF hoare_ensureAccountNotDeleted] hoare_seq[OF hoare_claim_create] hoare_option hoare_ret
        hoare_create_series_fresh) simp_all
qed

end

section \<open>Effects\<close>

lemma add_reminders_effect:
  assumes "add_reminders sid rems e w = (Inr (), w')"
  shows "\<exists>rs. w_db w' = (w_db w)\<lparr>t_reminders := t_reminders (w_db w) @ rs\<rparr> \<and> same_reminders rs rems
     \<and> (\<forall>r \<in> set rs. rmr_ScheduleID r = sid)"
  using assms
proof (induction rems arbitrary: w)
  case Nil
  then show ?case by (intro exI[of _ "[]"]) (auto simp: add_reminders_def ret_run same_reminders_def)
next
  case (Cons i rems)
  then obtain rid w1 w2 where "new_uuid e w = (Inr rid, w1)" and add: "repo_AddReminder rid sid (ri_MinutesBefore i) (ri_Channel i) e w1 = (Inr (), w2)"
    and rest: "add_reminders sid rems e w2 = (Inr (), w')"
    by (auto simp: add_reminders_def bnd_run)
  then have w1: "w_db w1 = w_db w" by (auto simp: new_uuid_run)
  obtain r where r: "w_db w2 = (w_db w1)\<lparr>t_reminders := t_reminders (w_db w1) @ [r]\<rparr>" "rmr_ScheduleID r = sid"
    "rmr_MinutesBefore r = ri_MinutesBefore i" "rmr_Channel r = ri_Channel i"
    using add by (rule repo_AddReminder_effect) blast
  obtain rs where "w_db w' = (w_db w2)\<lparr>t_reminders := t_reminders (w_db w2) @ rs\<rparr>" "same_reminders rs rems"
    "\<forall>r \<in> set rs. rmr_ScheduleID r = sid"
    using Cons.IH[OF rest] by blast
  with r w1 show ?case by (intro exI[of _ "r # rs"]) (simp add: same_reminders_def)
qed

lemma repo_CreateSchedule_run:
  "repo_CreateSchedule p e w = (Inr (), w') \<longleftrightarrow> \<not> fault_at e (w_step w) \<and> status_ok (cp_Status p) \<and> source_ok (cp_Source p)
     \<and> \<not> has_schedule (w_db w) (cp_ID p) \<and> w' = w\<lparr>w_step := Suc (w_step w),
         w_db := (w_db w)\<lparr>t_schedules := t_schedules (w_db w) @ [new_schedule_row e (now_at e (w_step w)) p]\<rparr>\<rparr>"
  by (auto simp: repo_CreateSchedule_def sql_run split: if_splits)

definition with_saved :: "uuid \<Rightarrow> CreateScheduleInput \<Rightarrow> Schedule \<Rightarrow> create_request_row list \<Rightarrow> create_request_row list" where
  "with_saved u inp sch rows = (if in_IdempotencyKey inp = [] then rows
     else upd_where (create_hit u (in_IdempotencyKey inp)) (\<lambda>r. r\<lparr>cr_Response := Some (RSchedule sch)\<rparr>) rows)"

lemma save_created_effect:
  "save_created u inp sch e w = (Inr (), w') \<Longrightarrow> w_db w' = (w_db w)\<lparr>t_create_requests := with_saved u inp sch (t_create_requests (w_db w))\<rparr>"
  by (auto simp: save_created_def save_create_response_def with_saved_def tx_run split: if_splits)

lemma schedule_of_tables:
  assumes "t_schedules a = t_schedules b" and "t_reminders a = t_reminders b" and "t_occurrences a = t_occurrences b"
    and "t_series a = t_series b"
  shows "schedule_of a u sid = schedule_of b u sid"
  unfolding schedule_of_unfold assms by (rule refl)

lemma schedule_of_owns: "schedule_of d u sid = Some s \<Longrightarrow> owns d u sid \<and> s_ID s = sid"
  using schedule_row_of_None[of d u sid] schedule_of_key[of d u sid s] by (auto simp: schedule_of_def)

lemma create_fresh_effect:
  assumes "create_fresh u inp e w = (Inr c, w')"
  obtains ident sch t rs ob where "c = Commit sch" and "\<not> has_schedule (w_db w) ident" and "schedule_event e SubjectScheduleCreated sch ob"
    and "w_db w' = (w_db w)\<lparr>t_schedules := t_schedules (w_db w) @ [new_schedule_row e t (single_params ident u inp)],
           t_reminders := t_reminders (w_db w) @ rs, t_outbox := t_outbox (w_db w) @ [ob],
           t_create_requests := with_saved u inp sch (t_create_requests (w_db w))\<rparr>"
    and "same_reminders rs (in_Reminders inp)" and "\<forall>r \<in> set rs. rmr_ScheduleID r = ident"
    and "schedule_of (w_db w') u ident = Some sch"
proof -
  from assms obtain ident w1 w2 w3 sch w4 w5 w6 where
    chain: "new_uuid e w = (Inr ident, w1)" "repo_CreateSchedule (single_params ident u inp) e w1 = (Inr (), w2)"
      "add_reminders ident (in_Reminders inp) e w2 = (Inr (), w3)" "getSchedule u ident e w3 = (Inr sch, w4)"
      "enqueueScheduleEvent SubjectScheduleCreated sch e w4 = (Inr (), w5)" "save_created u inp sch e w5 = (Inr (), w6)"
      "c = Commit sch" "w' = w6"
    by (auto simp: create_fresh_def bnd_run ret_run)
  have w1: "w_db w1 = w_db w" using chain(1) by (auto simp: new_uuid_run)
  note w2 = chain(2)[unfolded repo_CreateSchedule_run]
  obtain rs where rs: "w_db w3 = (w_db w2)\<lparr>t_reminders := t_reminders (w_db w2) @ rs\<rparr>" "same_reminders rs (in_Reminders inp)"
    "\<forall>r \<in> set rs. rmr_ScheduleID r = ident" using add_reminders_effect[OF chain(3)] by blast
  have w4: "w_db w4 = w_db w3" "schedule_of (w_db w3) u ident = Some sch" using chain(4) by (auto simp: getSchedule_run)
  obtain ob where ob: "schedule_event e SubjectScheduleCreated sch ob" "w_db w5 = (w_db w4)\<lparr>t_outbox := t_outbox (w_db w4) @ [ob]\<rparr>"
    by (rule enqueueScheduleEvent_effect[OF chain(5)])
  note w6 = save_created_effect[OF chain(6)]
  have "schedule_of (w_db w') u ident = Some sch"
    unfolding w4(2)[symmetric] chain(8) by (rule schedule_of_tables) (simp_all add: w6 ob w4)
  then show thesis
    by (rule that[rotated -1]) (use w1 w2 rs w4 ob w6 chain(7,8) in \<open>auto simp: single_params_def\<close>)
qed

lemma create_fresh_commits: "create_fresh u inp e w = (Inr c, w') \<Longrightarrow> \<exists>y. c = Commit y"
  by (auto simp: create_fresh_def bnd_run ret_run)

lemma new_schedule_view:
  assumes wf: "db_wf d" and new: "\<not> has_schedule d ident"
    and d': "t_schedules d' = t_schedules d @ [row]" "t_reminders d' = t_reminders d @ rs" "t_occurrences d' = t_occurrences d"
    and row: "sr_ID row = ident" "sr_UserID row = u" and rs: "\<forall>r \<in> set rs. rmr_ScheduleID r = ident"
  shows "schedule_of d' u ident = Some (mapSchedule row (sort_by (\<lambda>a b. rmr_MinutesBefore a \<le> rmr_MinutesBefore b) rs))"
proof -
  have "schedule_row_of d' u ident = Some row"
    using new row by (auto simp: schedule_row_of_def d' find_append has_schedule_def find_None_iff_all split: option.split
        dest!: find_Some_iff_mem)
  moreover have "reminders_of d' ident = rs"
    using wf_no_reminders[OF wf new] rs by (simp add: reminders_of_def d')
  moreover have "occurrence_of d' u ident = None"
    using wf_no_occurrence[OF wf new] by (auto simp: occurrence_of_def d' split: option.split dest!: find_Some_iff_mem)
  ultimately show ?thesis by (simp add: schedule_of_def sorted_reminders_def with_occurrence_def)
qed

text \<open>What a new schedule must look like, given the request.\<close>

definition created_as :: "env \<Rightarrow> uuid \<Rightarrow> CreateScheduleInput \<Rightarrow> Schedule \<Rightarrow> bool" where
  "created_as e u inp s \<longleftrightarrow> s_UserID s = u \<and> s_Title s = in_Title inp \<and> s_Description s = in_Description inp
     \<and> s_Location s = in_Location inp \<and> s_StartAt s = dt3 e (in_StartAt inp) \<and> s_EndAt s = map_option (dt3 e) (in_EndAt inp)
     \<and> s_AllDay s = in_AllDay inp \<and> s_Timezone s = (if in_Timezone inp = [] then ''UTC'' else in_Timezone inp)
     \<and> s_Status s = (if in_Status inp = [] then ''confirmed'' else in_Status inp)
     \<and> s_Source s = (if in_Source inp = [] then ''manual'' else in_Source inp)
     \<and> s_Revision s = 1 \<and> s_SeriesID s = None
     \<and> sorted (map rem_MinutesBefore (s_Reminders s)) \<and> length (s_Reminders s) = length (in_Reminders inp)
     \<and> (\<lambda>r. (rem_MinutesBefore r, rem_Channel r)) ` set (s_Reminders s)
         = (\<lambda>r. (ri_MinutesBefore r, ri_Channel r)) ` set (in_Reminders inp)"

lemma created_as_view:
  assumes "same_reminders rs (in_Reminders inp)"
  shows "created_as e u inp (mapSchedule (new_schedule_row e t (single_params ident u (create_defaults inp)))
     (sort_by (\<lambda>a b. rmr_MinutesBefore a \<le> rmr_MinutesBefore b) rs))"
proof -
  let ?rs = "sort_by (\<lambda>a b. rmr_MinutesBefore a \<le> rmr_MinutesBefore b) rs"
  have "sorted_wrt (\<lambda>a b. rmr_MinutesBefore a \<le> rmr_MinutesBefore b) ?rs"
    by (rule sorted_wrt_sort_by) auto
  then have srt: "sorted (map rmr_MinutesBefore ?rs)" by (simp add: sorted_map)
  have "(\<lambda>r. (rmr_MinutesBefore r, rmr_Channel r)) ` set rs = (\<lambda>r. (ri_MinutesBefore r, ri_Channel r)) ` set (in_Reminders inp)"
    using assms unfolding same_reminders_def by (metis list.set_map)
  with srt same_reminders_length[OF assms] show ?thesis
    by (auto simp: created_as_def mapSchedule_def new_schedule_row_def single_params_def create_defaults_def mapReminder_def
        image_image comp_def)
qed

lemma CreateSchedule_run:
  assumes "CreateSchedule u inp e w = (Inr s, w')" and "in_IdempotencyKey inp = []"
  obtains w0 w1 where "create_fresh u (create_defaults inp) e w0 = (Inr (Commit s), w1)" and "w_db w0 = w_db w"
    and "lease_only (w_db w1) (w_db w')" and "validateReminderSet (in_Reminders inp) = Inr ()"
proof -
  have key: "claim_create u (create_defaults inp) = ret None"
    using assms(2) by (simp add: claim_create_def)
  have "validateReminderSet (in_Reminders inp) = Inr ()"
    and "mutation (bnd (ensureAccountNotDeleted u) (\<lambda>_. create_fresh u (create_defaults inp))) (\<lambda>_. count_mutation ''create'' 1) e w = (Inr s, w')"
    using assms(1) unfolding CreateSchedule_def Let_def key bnd_ret option.case
    by (auto simp: bnd_run lift_run)
  then show thesis
    by (auto elim!: mutation_committed[of u "create_fresh u (create_defaults inp)"] intro: that dest: create_fresh_commits)
qed


definition sample_input :: CreateScheduleInput where
  "sample_input = \<lparr>in_IdempotencyKey = [], in_Title = ''dentist'', in_Description = None, in_Location = None,
     in_StartAt = hour, in_EndAt = Some (2 * hour), in_AllDay = False, in_Timezone = [], in_StartDate = None, in_EndDate = None,
     in_Status = [], in_Source = [], in_ExtractionID = None,
     in_Reminders = [\<lparr>ri_MinutesBefore = 10, ri_Channel = ''telegram''\<rparr>], in_Recurrence = None\<rparr>"

lemmas create_eval = run_app sql_app run_tx_app Let_def ensureAccountNotDeleted_def claim_create_def create_fresh_def
  add_reminders_def save_created_def getSchedule_def repo_GetSchedule_def repo_ListReminders_def loadOccurrenceMetadata_def
  repo_GetScheduleOccurrence_def repo_AddReminder_def repo_CreateSchedule_def enqueueScheduleEvent_def occurredAtTx_def
  Enqueue_def channel_ok_def status_ok_def source_ok_def has_schedule_def mapReminders_def mapReminder_def mapSchedule_def
  with_occurrence_def toScheduleEvent_def new_schedule_row_def single_params_def create_defaults_def


section \<open>Repeated requests\<close>

text \<open>The claim that a committed create leaves behind.\<close>

definition holds_claim :: "env \<Rightarrow> uuid \<Rightarrow> CreateScheduleInput \<Rightarrow> Schedule \<Rightarrow> db \<Rightarrow> bool" where
  "holds_claim e u inp s d \<longleftrightarrow> (\<exists>r m. List.find (create_hit u (in_IdempotencyKey inp)) (t_create_requests d) = Some r
     \<and> request_hash e (create_defaults inp) = Some (cr_Hash r) \<and> cr_Response r = Some (RSchedule s)
     \<and> cr_ExpiresAt r = now_at e m + 24 * hour)"

lemma create_hit_response [simp]: "create_hit u k (r\<lparr>cr_Response := x\<rparr>) = create_hit u k r"
  by (simp add: create_hit_def)

lemma CreateSchedule_leaves_claim:
  assumes run: "CreateSchedule u inp e w = (Inr s, w')" and key: "in_IdempotencyKey inp \<noteq> []"
    and new: "\<forall>r \<in> set (t_create_requests (w_db w)). \<not> create_hit u (in_IdempotencyKey inp) r"
  shows "holds_claim e u inp s (w_db w') \<and> owns (w_db w') u (s_ID s) \<and> u \<notin> set (t_tombstones (w_db w'))"
proof -
  let ?inp = "create_defaults inp" and ?k = "in_IdempotencyKey inp"
  let ?body = "bnd (ensureAccountNotDeleted u) (\<lambda>_. bnd (claim_create u ?inp) (\<lambda>previous.
            case previous of Some sch \<Rightarrow> ret (Early sch) | None \<Rightarrow> create_fresh u ?inp))"
  have claimed: "\<exists>h m rows. prev = None \<and> t_tombstones (w_db b) = t_tombstones (w_db w) \<and> request_hash e ?inp = Some h \<and> t_create_requests (w_db b) = rows @ [\<lparr>cr_UserID = u,
      cr_Key = ?k, cr_Hash = h, cr_Response = None, cr_ExpiresAt = now_at e m + 24 * hour\<rparr>] \<and> (\<forall>r \<in> set rows. \<not> create_hit u ?k r)"
    if "claim_create u ?inp e a = (Inr prev, b)" and "w_db a = w_db w" for a prev b
  proof -
    have "claimScheduleCreate u ?inp e a = (Inr prev, b)" using that(1) key by (simp add: claim_create_def)
    from claimScheduleCreate_run[OF this] new show ?thesis
      unfolding Let_def by (fastforce simp: live_creates_def that(2) dest!: find_Some_iff_mem)
  qed
  have m: "mutation ?body (\<lambda>_. count_mutation ''create'' 1) e w = (Inr s, w')"
    using run by (auto simp: CreateSchedule_def Let_def bnd_run lift_run)
  show ?thesis
  proof (rule mutation_success[OF m])
    fix w1 assume replayed: "run_tx ?body e w = (Inr (Early s), w1)"
    from replayed obtain a prev b c where "claim_create u ?inp e a = (Inr prev, b)" "w_db a = w_db w"
      and "(case prev of Some sch \<Rightarrow> ret (Early sch) | None \<Rightarrow> create_fresh u ?inp) e b = (Inr (Early s), c)"
      by (auto simp: run_tx_Early bnd_run ensureAccountNotDeleted_run)
    with claimed show ?thesis by (fastforce dest: create_fresh_commits)
  next
    fix w1 assume committed: "run_tx ?body e w = (Inr (Commit s), w1)" "lease_only (w_db w1) (w_db w')"
    then obtain a prev b where claim: "claim_create u ?inp e a = (Inr prev, b)" "w_db a = w_db w"
      and live: "u \<notin> set (t_tombstones (w_db w))"
      and fresh: "prev = None \<Longrightarrow> create_fresh u ?inp e b = (Inr (Commit s), w1\<lparr>w_step := w_step w1 - 1\<rparr>)"
      by (auto simp: run_tx_Commit bnd_run ensureAccountNotDeleted_run ret_run split: option.splits)
    from claimed[OF claim] obtain h m rows where tomb: "t_tombstones (w_db b) = t_tombstones (w_db w)"
      and c: "prev = None" "request_hash e ?inp = Some h" "t_create_requests (w_db b) = rows @ [\<lparr>cr_UserID = u,
      cr_Key = ?k, cr_Hash = h, cr_Response = None, cr_ExpiresAt = now_at e m + 24 * hour\<rparr>]" "\<forall>r \<in> set rows. \<not> create_hit u ?k r"
      by blast
    have "List.find (create_hit u ?k) (t_create_requests (w_db b)) = Some \<lparr>cr_UserID = u,
      cr_Key = ?k, cr_Hash = h, cr_Response = None, cr_ExpiresAt = now_at e m + 24 * hour\<rparr>"
      using c(4) by (auto simp: c(3) find_append create_hit_def find_None_iff_all split: option.split dest!: find_Some_iff_mem)
    moreover from fresh[OF c(1)] have after: "t_create_requests (w_db w1) = with_saved u ?inp s (t_create_requests (w_db b))
        \<and> t_tombstones (w_db w1) = t_tombstones (w_db b) \<and> (\<exists>ident. schedule_of (w_db w1) u ident = Some s)"
      by (rule create_fresh_effect) auto
    moreover from after have "owns (w_db w1) u (s_ID s)"
      by (auto dest: schedule_of_owns)
    ultimately show ?thesis
      using c(2) key live tomb lease_only_tables[OF committed(2)]
      by (auto simp: holds_claim_def with_saved_def find_upd_where owns_def)
  qed simp
qed

lemma find_survives: "List.find p xs = Some r \<Longrightarrow> \<not> q r \<Longrightarrow> List.find p (filter (\<lambda>x. \<not> (p x \<and> q x)) xs) = Some r"
  by (induction xs) (auto split: if_splits)

lemma claim_replay:
  assumes "holds_claim e u inp0 s (w_db w)" and "in_IdempotencyKey inp = in_IdempotencyKey inp0" and "in_IdempotencyKey inp \<noteq> []"
    and "\<And>n. \<not> fault_at e n" and "\<And>m n. now_at e n < now_at e m + 24 * hour" and "request_hash e (create_defaults inp) = Some h"
  shows "fst (claim_create u (create_defaults inp) e w) =
    (if request_hash e (create_defaults inp0) = Some h \<and> owns (w_db w) u (s_ID s) then Inr (Some s) else Inl ErrIdempotencyConflict)"
proof -
  let ?k = "in_IdempotencyKey inp"
  from assms(1) obtain r m where r: "List.find (create_hit u ?k) (t_create_requests (w_db w)) = Some r"
    "request_hash e (create_defaults inp0) = Some (cr_Hash r)" "cr_Response r = Some (RSchedule s)" "cr_ExpiresAt r = now_at e m + 24 * hour"
    by (auto simp: holds_claim_def assms(2))
  have alive: "\<not> cr_ExpiresAt r \<le> now_at e n" for n using assms(5)[where m = m and n = n] r(4) by simp
  have find: "List.find (create_hit u ?k) (filter (\<lambda>r. \<not> (create_hit u ?k r \<and> cr_ExpiresAt r \<le> now_at e n)) (t_create_requests (w_db w))) = Some r" for n
    by (rule find_survives[where q = "\<lambda>r. cr_ExpiresAt r \<le> now_at e n", OF r(1) alive])
  then have hit: "\<exists>q \<in> set (t_create_requests (w_db w)). (create_hit u ?k q \<longrightarrow> \<not> cr_ExpiresAt q \<le> now_at e n) \<and> create_hit u ?k q" for n
    using find_Some_iff_mem[OF find[of n]] by auto
  show ?thesis
    using assms(3,4,6) r(2,3) find[of "w_step w"] hit[of "w_step w"]
    by (auto simp: claim_create_def claimScheduleCreate_def Let_def insert_create_request_def run_app sql_app)
qed



end
