(* ===== verification/Removal.thy ===== *)
theory Removal
  imports Create
begin

text \<open>
  Deleting schedules (\<open>internal/service/schedules.go\<close>: \<open>DeleteSchedule\<close>, \<open>DeleteScheduleFollowing\<close>,
  \<open>BulkDeleteSchedules\<close>). Each locks the rows, deletes them with what refers to them, drops a
  series without occurrences, and puts one event for each deleted schedule into the outbox, carrying the
  revision after the last one.
\<close>

section \<open>Definitions\<close>

text \<open>The series of the user, or the one series, when no occurrence refers to it any more.\<close>

definition has_occurrence :: "db \<Rightarrow> uuid \<Rightarrow> bool" where
  "has_occurrence d seriesID \<longleftrightarrow> (\<exists>r \<in> set (t_occurrences d). ocr_SeriesID r = seriesID)"

definition delete_orphan_series :: "uuid \<Rightarrow> unit tx" where
  "delete_orphan_series userID = exec (\<lambda>d. del_series (\<lambda>z. ser_UserID z = userID \<and> \<not> has_occurrence d (ser_SeriesID z)) d)"

definition delete_series_if_empty :: "uuid \<Rightarrow> unit tx" where
  "delete_series_if_empty seriesID = exec (\<lambda>d. del_series (\<lambda>z. ser_SeriesID z = seriesID \<and> \<not> has_occurrence d seriesID) d)"

definition delete_fresh :: "uuid \<Rightarrow> uuid \<Rightarrow> unit outcome tx" where
  "delete_fresh userID ident =
     bnd (lockScheduleRevision userID ident) (\<lambda>revision.
     bnd (repo_DeleteSchedule ident userID) (\<lambda>n.
     bnd (guard (n \<noteq> 0) ErrNotFound) (\<lambda>_.
     bnd (delete_orphan_series userID) (\<lambda>_.
     bnd occurredAtTx (\<lambda>occurredAt.
     bnd (enqueueDeletedEvent ident userID occurredAt (int64 (revision + 1))) (\<lambda>_.
     ret (Commit ())))))))"

definition DeleteSchedule :: "uuid \<Rightarrow> uuid \<Rightarrow> string \<Rightarrow> unit tx" where
  "DeleteSchedule userID ident key =
     bnd (ask (\<lambda>e. sha256 e (idBytes ident))) (\<lambda>replayedHash.
     mutation
       (bnd (ensureAccountNotDeleted userID) (\<lambda>_.
        bnd (claim_key userID ident ''delete'' key replayedHash) (\<lambda>replay.
        case replay of Some _ \<Rightarrow> ret (Early ()) | None \<Rightarrow> delete_fresh userID ident)))
       (\<lambda>_. count_mutation ''delete'' 1))"

text \<open>The occurrence and the ones after it in its series, by index.\<close>

definition following_ids :: "uuid \<Rightarrow> uuid \<Rightarrow> db \<Rightarrow> uuid list" where
  "following_ids seriesID ident d =
     (case List.find (\<lambda>r. ocr_ScheduleID r = ident) (t_occurrences d) of
        None \<Rightarrow> []
      | Some r0 \<Rightarrow> map ocr_ScheduleID (sort_by (\<lambda>a b. ocr_Index a \<le> ocr_Index b)
          (filter (\<lambda>r. ocr_SeriesID r = seriesID \<and> ocr_Index r0 \<le> ocr_Index r) (t_occurrences d))))"

definition lock_targets :: "uuid \<Rightarrow> uuid list \<Rightarrow> (uuid \<times> int) list tx" where
  "lock_targets userID ids = collect ids (\<lambda>ident.
     bnd (lockScheduleRevision userID ident) (\<lambda>revision. ret (ident, revision)))"

definition selected_revision :: "uuid \<Rightarrow> (uuid \<times> int) list \<Rightarrow> int" where
  "selected_revision ident targets = fold (\<lambda>(i, revision) acc. if i = ident then revision else acc) targets 0"

definition save_response :: "uuid \<Rightarrow> string \<Rightarrow> string \<Rightarrow> response \<Rightarrow> unit tx" where
  "save_response userID operation key resp =
     (if key = [] then ret () else save_mutation_response userID operation key resp)"

definition delete_targets :: "uuid \<Rightarrow> uuid \<Rightarrow> string \<Rightarrow> int \<Rightarrow> uuid \<Rightarrow> nat outcome tx" where
  "delete_targets userID ident key expectedRevision seriesID =
     bnd (query (following_ids seriesID ident)) (\<lambda>ids.
     bnd (guard (ids \<noteq> []) ErrNotFound) (\<lambda>_.
     bnd (lock_targets userID ids) (\<lambda>targets.
     bnd (guard (selected_revision ident targets = expectedRevision) ErrRevisionConflict) (\<lambda>_.
     bnd (repo_DeleteSchedulesByIDs userID (map fst targets)) (\<lambda>n.
     bnd occurredAtTx (\<lambda>occurredAt.
     bnd (foreach targets (\<lambda>(i, revision). enqueueDeletedEvent i userID occurredAt (int64 (revision + 1)))) (\<lambda>_.
     bnd (delete_series_if_empty seriesID) (\<lambda>_.
     bnd (save_response userID ''delete-following'' key (RCount (int n))) (\<lambda>_.
     ret (Commit n))))))))))"

definition delete_following_fresh :: "uuid \<Rightarrow> uuid \<Rightarrow> string \<Rightarrow> int \<Rightarrow> nat outcome tx" where
  "delete_following_fresh userID ident key expectedRevision =
     bnd (repo_GetScheduleOccurrence ident userID) (\<lambda>metadata.
     case metadata of
       None \<Rightarrow> fail ErrNotRecurring
     | Some (seriesID, _, _) \<Rightarrow> delete_targets userID ident key expectedRevision seriesID)"

definition DeleteScheduleFollowing :: "uuid \<Rightarrow> uuid \<Rightarrow> string \<Rightarrow> int \<Rightarrow> hash \<Rightarrow> unit tx" where
  "DeleteScheduleFollowing userID ident key expectedRevision requestHash =
     bnd (mutation
       (bnd (ensureAccountNotDeleted userID) (\<lambda>_.
        bnd (claim_key userID ident ''delete-following'' key requestHash) (\<lambda>replay.
        case replay of Some _ \<Rightarrow> ret (Early 0) | None \<Rightarrow> delete_following_fresh userID ident key expectedRevision)))
       (\<lambda>n. count_mutation ''delete'' (int n))) (\<lambda>_. ret ())"

definition bulk_delete_fresh :: "uuid \<Rightarrow> uuid list \<Rightarrow> string \<Rightarrow> int outcome tx" where
  "bulk_delete_fresh userID ids key =
     bnd (repo_ListScheduleIDsByIDs userID ids) (\<lambda>found.
     bnd (guard (length found = length ids) ErrNotFound) (\<lambda>_.
     let owned = sort found
     in bnd (lock_targets userID owned) (\<lambda>locked.
        let revisions = map_of (map (\<lambda>(i, revision). (i, int64 (revision + 1))) locked)
        in bnd (repo_DeleteSchedulesByIDs userID ids) (\<lambda>n.
           bnd (delete_orphan_series userID) (\<lambda>_.
           bnd occurredAtTx (\<lambda>occurredAt.
           bnd (foreach owned (\<lambda>i. case revisions i of
               None \<Rightarrow> fail ErrNotFound
             | Some revision \<Rightarrow> enqueueDeletedEvent i userID occurredAt revision)) (\<lambda>_.
           bnd (save_response userID ''bulk-delete'' key (RCount (int n))) (\<lambda>_.
           ret (Commit (int n)))))))))) "

definition BulkDeleteSchedules :: "uuid \<Rightarrow> uuid list \<Rightarrow> string \<Rightarrow> hash \<Rightarrow> int tx" where
  "BulkDeleteSchedules userID ids key requestHash =
     mutation
       (bnd (ensureAccountNotDeleted userID) (\<lambda>_.
        bnd (claim_key userID 0 ''bulk-delete'' key requestHash) (\<lambda>replay.
        case replay of
          Some (Some (RCount saved)) \<Rightarrow> ret (Early saved)
        | Some _ \<Rightarrow> fail JSONError
        | None \<Rightarrow> bulk_delete_fresh userID ids key)))
       (\<lambda>n. count_mutation ''delete'' n)"

section \<open>The store stays in order\<close>

lemma hoare_conj: "hoare P m Q \<Longrightarrow> hoare P' m Q' \<Longrightarrow> hoare (\<lambda>d. P d \<and> P' d) m (\<lambda>x d. Q x d \<and> Q' x d)"
  unfolding hoare_def by blast

lemma hoare_lock_targets: "hoare P (lock_targets u ids) (\<lambda>_. P)"
  unfolding lock_targets_def by (intro hoare_collect hoare_then_lock hoare_ret) auto

lemma hoare_occurredAtTx: "hoare P occurredAtTx (\<lambda>_. P)"
  unfolding occurredAtTx_def by (intro hoare_idle)

lemma hoare_series_same:
  "hoare (\<lambda>d. K (t_series d)) (enqueueDeletedEvent i v t n) (\<lambda>_ d. K (t_series d))"
  "hoare (\<lambda>d. K (t_series d)) (repo_DeleteSchedulesByIDs v ids) (\<lambda>_ d. K (t_series d))"
  by (auto simp: hoare_def repo_DeleteSchedulesByIDs_def sql_run Let_def elim!: enqueueDeletedEvent_effect)

context user_store
begin

lemma hoare_repo_DeleteSchedule: "hoare I (repo_DeleteSchedule ident u) (\<lambda>_. I)"
  unfolding repo_DeleteSchedule_def Let_def by (rule hoare_sql) (auto intro!: delete_schedules)

lemma hoare_repo_DeleteSchedulesByIDs: "hoare I (repo_DeleteSchedulesByIDs u ids) (\<lambda>_. I)"
  unfolding repo_DeleteSchedulesByIDs_def Let_def by (rule hoare_sql) (auto intro!: delete_schedules)

lemma hoare_delete_orphan_series: "hoare I (delete_orphan_series u) (\<lambda>_. I)"
  unfolding delete_orphan_series_def by (rule hoare_exec) (auto intro!: delete_series)

lemma hoare_delete_series_if_empty:
  "hoare (\<lambda>d. I d \<and> (\<forall>z \<in> set (t_series d). ser_SeriesID z = sid \<longrightarrow> ser_UserID z = u)) (delete_series_if_empty sid) (\<lambda>_. I)"
  unfolding delete_series_if_empty_def by (rule hoare_exec) (auto intro!: delete_series)

lemma hoare_save_response: "hoare I (save_response u op key resp) (\<lambda>_. I)"
  unfolding save_response_def by (intro hoare_if hoare_ret hoare_save_mutation_response)

lemma hoare_delete_fresh: "hoare I (delete_fresh u ident) (committed I)"
  unfolding delete_fresh_def
  by (rule hoare_seq[OF hoare_conseq[OF hoare_lockScheduleRevision[of I]]])
    (auto intro!: hoare_seq[OF hoare_repo_DeleteSchedule] hoare_then_guard hoare_seq[OF hoare_delete_orphan_series]
      hoare_seq[OF hoare_occurredAtTx] hoare_seq[OF hoare_enqueueDeletedEvent] hoare_ret)

lemma keeps_DeleteSchedule: "steps (keeps I) (DeleteSchedule u ident key)"
  unfolding DeleteSchedule_def
  by (intro keeps.steps_bnd keeps.steps_ask steps_mutation hoare_seq[OF hoare_ensureAccountNotDeleted]
      hoare_seq[OF hoare_claim_key[OF hoare_claimScheduleMutation]] hoare_option hoare_delete_fresh hoare_ret) simp_all

lemma hoare_occurrence_series:
  "hoare I (repo_GetScheduleOccurrence ident u) (\<lambda>m d. I d \<and> (\<forall>sid idx rule. m = Some (sid, idx, rule) \<longrightarrow>
     (\<forall>z \<in> set (t_series d). ser_SeriesID z = sid \<longrightarrow> ser_UserID z = u)))"
  unfolding repo_GetScheduleOccurrence_def
proof (rule hoare_query, intro conjI allI impI ballI)
  fix d sid idx rule z assume I: "I d" and z: "z \<in> set (t_series d)" "ser_SeriesID z = sid"
    and found: "(case List.find (\<lambda>r. ocr_ScheduleID r = ident \<and> owns d u ident) (t_occurrences d) of None \<Rightarrow> None
      | Some r \<Rightarrow> map_option (\<lambda>z. (ocr_SeriesID r, ocr_Index r, ser_Recurrence z))
         (List.find (\<lambda>z. ser_SeriesID z = ocr_SeriesID r) (t_series d))) = Some (sid, idx, rule)"
  then obtain r where "List.find (\<lambda>r. ocr_ScheduleID r = ident \<and> owns d u ident) (t_occurrences d) = Some r" "ocr_SeriesID r = sid"
    by (auto split: option.splits)
  then have "r \<in> set (t_occurrences d)" "owns d u (ocr_ScheduleID r)" "ocr_SeriesID r = sid" by (auto dest!: find_Some_iff_mem)
  then show "ser_UserID z = u" using linked_owner[OF wf[OF I] wf_linked[OF wf[OF I]]] z by metis
qed

lemma hoare_delete_targets:
  "hoare (\<lambda>d. I d \<and> (\<forall>z \<in> set (t_series d). ser_SeriesID z = sid \<longrightarrow> ser_UserID z = u))
     (delete_targets u ident key expected sid) (committed I)"
proof -
  let ?P = "\<lambda>d. I d \<and> (\<forall>z \<in> set (t_series d). ser_SeriesID z = sid \<longrightarrow> ser_UserID z = u)"
  have del: "hoare ?P (repo_DeleteSchedulesByIDs u ids) (\<lambda>_. ?P)" for ids
    by (rule hoare_conj[OF hoare_repo_DeleteSchedulesByIDs hoare_series_same(2)])
  have enq: "hoare ?P (foreach ts (\<lambda>(i, revision). enqueueDeletedEvent i u t (int64 (revision + 1)))) (\<lambda>_. ?P)" for ts t
    by (rule hoare_foreach) (auto intro!: hoare_conj[OF hoare_enqueueDeletedEvent hoare_series_same(1)])
  have rest: "hoare I (bnd (save_response u ''delete-following'' key (RCount (int n))) (\<lambda>_. ret (Commit n))) (committed I)" for n
    by (intro hoare_seq[OF hoare_save_response] hoare_ret) simp
  show ?thesis
    unfolding delete_targets_def
    by (intro hoare_seq[OF hoare_idle(4)] hoare_then_guard hoare_seq[OF hoare_lock_targets] hoare_seq[OF del]
        hoare_seq[OF hoare_occurredAtTx] hoare_seq[OF enq] hoare_bnd[OF hoare_delete_series_if_empty] rest)
qed

lemma hoare_delete_following_fresh: "hoare I (delete_following_fresh u ident key expected) (committed I)"
  unfolding delete_following_fresh_def
  by (rule hoare_bnd[OF hoare_occurrence_series], rule hoare_option[OF hoare_fail])
    (auto intro!: hoare_conseq[OF hoare_delete_targets])

lemma keeps_DeleteScheduleFollowing: "steps (keeps I) (DeleteScheduleFollowing u ident key expected h)"
  unfolding DeleteScheduleFollowing_def
  by (intro keeps.steps_bnd keeps.steps_ret steps_mutation hoare_seq[OF hoare_ensureAccountNotDeleted]
      hoare_seq[OF hoare_claim_key[OF hoare_claimScheduleMutation]] hoare_option hoare_delete_following_fresh hoare_ret) simp_all

lemma hoare_bulk_delete_fresh: "hoare I (bulk_delete_fresh u ids key) (committed I)"
  unfolding bulk_delete_fresh_def Let_def repo_ListScheduleIDsByIDs_def
  by (intro hoare_seq[OF hoare_idle(4)] hoare_then_guard hoare_seq[OF hoare_lock_targets] hoare_seq[OF hoare_repo_DeleteSchedulesByIDs]
      hoare_seq[OF hoare_delete_orphan_series] hoare_seq[OF hoare_occurredAtTx] hoare_seq[OF hoare_foreach] hoare_option hoare_fail
      hoare_enqueueDeletedEvent hoare_seq[OF hoare_save_response] hoare_ret) simp_all

lemma keeps_BulkDeleteSchedules: "steps (keeps I) (BulkDeleteSchedules u ids key h)"
  unfolding BulkDeleteSchedules_def
  by (intro steps_mutation hoare_seq[OF hoare_ensureAccountNotDeleted] hoare_seq[OF hoare_claim_key[OF hoare_claimScheduleMutation]])
    (auto intro!: hoare_bulk_delete_fresh hoare_ret hoare_fail split: option.split response.split)

end

section \<open>Effects\<close>

text \<open>The schedules with these identifiers are gone with their reminders and their places in a series; all others stay.\<close>

definition erased_schedules :: "uuid set \<Rightarrow> db \<Rightarrow> db \<Rightarrow> bool" where
  "erased_schedules S a b \<longleftrightarrow> t_schedules b = filter (\<lambda>s. sr_ID s \<notin> S) (t_schedules a)
     \<and> t_reminders b = filter (\<lambda>r. rmr_ScheduleID r \<notin> S) (t_reminders a)
     \<and> t_occurrences b = filter (\<lambda>r. ocr_ScheduleID r \<notin> S) (t_occurrences a)"

definition announced_deleted :: "env \<Rightarrow> uuid \<Rightarrow> (uuid \<times> int) list \<Rightarrow> db \<Rightarrow> db \<Rightarrow> bool" where
  "announced_deleted e u targets a b \<longleftrightarrow> (\<exists>obs. list_all2 (\<lambda>(i, n) ob. deleted_event e i u n ob) targets obs
     \<and> map outbox_identity (t_outbox b) = map outbox_identity (t_outbox a) @ map outbox_identity obs)"

definition revision_of :: "db \<Rightarrow> uuid \<Rightarrow> uuid \<Rightarrow> int" where
  "revision_of d u i = (case schedule_row_of d u i of None \<Rightarrow> 0 | Some row \<Rightarrow> sr_Revision row)"

lemma lock_targets_run:
  "lock_targets u ids e w = (Inr ts, w') \<Longrightarrow> w_db w' = w_db w \<and> ts = map (\<lambda>i. (i, revision_of (w_db w) u i)) ids
     \<and> (\<forall>i \<in> set ids. owns (w_db w) u i)"
proof (induction ids arbitrary: w ts)
  case Nil
  then show ?case by (simp add: lock_targets_def ret_run)
next
  case (Cons i ids)
  then obtain n w1 ts' where lock: "lockScheduleRevision u i e w = (Inr n, w1)" and rest: "lock_targets u ids e w1 = (Inr ts', w')"
    and ts: "ts = (i, n) # ts'"
    by (auto simp: lock_targets_def bnd_run ret_run)
  from lock obtain row where "schedule_row_of (w_db w) u i = Some row" "sr_Revision row = n" "w_db w1 = w_db w"
    by (auto simp: lockScheduleRevision_run)
  moreover from this have "owns (w_db w) u i" by (metis option.distinct(1) schedule_row_of_None)
  ultimately show ?case using Cons.IH[OF rest] ts by (simp add: revision_of_def)
qed

lemma enqueue_all_effect:
  "foreach xs (\<lambda>x. enqueueDeletedEvent (f x) u t (g x)) e w = (Inr (), w') \<Longrightarrow>
   \<exists>obs. list_all2 (\<lambda>(i, n) ob. deleted_event e i u n ob) (map (\<lambda>x. (f x, g x)) xs) obs
     \<and> w_db w' = (w_db w)\<lparr>t_outbox := t_outbox (w_db w) @ obs\<rparr>"
proof (induction xs arbitrary: w)
  case Nil
  then show ?case by (intro exI[of _ "[]"]) (simp add: ret_run)
next
  case (Cons x xs)
  then obtain w1 where one: "enqueueDeletedEvent (f x) u t (g x) e w = (Inr (), w1)"
    and rest: "foreach xs (\<lambda>x. enqueueDeletedEvent (f x) u t (g x)) e w1 = (Inr (), w')"
    by (auto simp: bnd_run)
  obtain ob where ob: "deleted_event e (f x) u (g x) ob" "w_db w1 = (w_db w)\<lparr>t_outbox := t_outbox (w_db w) @ [ob]\<rparr>"
    by (rule enqueueDeletedEvent_effect[OF one])
  obtain obs where obs: "list_all2 (\<lambda>(i, n) ob. deleted_event e i u n ob) (map (\<lambda>x. (f x, g x)) xs) obs"
     "w_db w' = (w_db w1)\<lparr>t_outbox := t_outbox (w_db w1) @ obs\<rparr>"
    using Cons.IH[OF rest] by blast
  from ob obs show ?case by (intro exI[of _ "ob # obs"]) simp
qed

lemma orphan_series_occurrences [simp]:
  "t_occurrences (del_series (\<lambda>z. P z \<and> \<not> has_occurrence d (ser_SeriesID z)) d) = t_occurrences d"
  by (auto simp: del_series_def has_occurrence_def Let_def intro!: filter_True)

lemma del_schedules_erased:
  assumes "db_wf d" and "\<forall>i \<in> S. owns d u i" and "\<And>s. p s \<longleftrightarrow> sr_UserID s = u \<and> sr_ID s \<in> S"
  shows "erased_schedules S d (del_schedules p d)"
proof -
  have "p s \<longleftrightarrow> sr_ID s \<in> S" if "s \<in> set (t_schedules d)" for s
    using assms that owns_unique[OF assms(1), of u "sr_ID s" "sr_UserID s"] by (auto simp: owns_def)
  moreover have "(\<exists>s \<in> set (t_schedules d). p s \<and> sr_ID s = i) \<longleftrightarrow> i \<in> S" for i
    using assms(2,3) by (auto simp: owns_def)
  ultimately show ?thesis
    by (auto simp: erased_schedules_def del_schedules_def Let_def intro!: filter_cong)
qed

lemma delete_fresh_effect:
  assumes "delete_fresh u ident e w = (Inr c, w')" and wf: "db_wf (w_db w)"
  shows "c = Commit () \<and> owns (w_db w) u ident \<and> erased_schedules {ident} (w_db w) (w_db w')
     \<and> announced_deleted e u [(ident, int64 (revision_of (w_db w) u ident + 1))] (w_db w) (w_db w')"
proof -
  from assms(1) obtain n w1 k w2 w3 t w4 w5 where
    chain: "lockScheduleRevision u ident e w = (Inr n, w1)" "repo_DeleteSchedule ident u e w1 = (Inr k, w2)"
      "delete_orphan_series u e w2 = (Inr (), w3)" "occurredAtTx e w3 = (Inr t, w4)"
      "enqueueDeletedEvent ident u t (int64 (n + 1)) e w4 = (Inr (), w5)" "c = Commit ()" "w' = w5"
    by (auto simp: delete_fresh_def bnd_run ret_run guard_run)
  from chain(1) obtain row where row: "schedule_row_of (w_db w) u ident = Some row" "sr_Revision row = n" "w_db w1 = w_db w"
    by (auto simp: lockScheduleRevision_run)
  then have own: "owns (w_db w) u ident" by (metis option.distinct(1) schedule_row_of_None)
  have w2: "w_db w2 = del_schedules (\<lambda>s. sr_ID s = ident \<and> sr_UserID s = u) (w_db w)"
    using chain(2) row(3) by (auto simp: repo_DeleteSchedule_def sql_run Let_def)
  have w4: "w_db w4 = del_series (\<lambda>z. ser_UserID z = u \<and> \<not> has_occurrence (w_db w2) (ser_SeriesID z)) (w_db w2)"
    using chain(3,4) by (auto simp: delete_orphan_series_def occurredAtTx_def tx_run)
  obtain ob where ob: "deleted_event e ident u (int64 (n + 1)) ob" "w_db w5 = (w_db w4)\<lparr>t_outbox := t_outbox (w_db w4) @ [ob]\<rparr>"
    by (rule enqueueDeletedEvent_effect[OF chain(5)])
  have "erased_schedules {ident} (w_db w) (w_db w2)"
    unfolding w2 by (rule del_schedules_erased[OF wf]) (use own in auto)
  moreover have "announced_deleted e u [(ident, int64 (n + 1))] (w_db w) (w_db w5)"
    using ob by (auto simp: announced_deleted_def w4 w2)
  ultimately show ?thesis
    using chain(6,7) own row by (simp add: erased_schedules_def ob(2) w4 revision_of_def)
qed

lemma erased_lease: "lease_only b c \<Longrightarrow> erased_schedules S a b \<Longrightarrow> erased_schedules S a c"
  by (simp add: erased_schedules_def lease_only_tables)

lemma announced_deleted_lease: "lease_only b c \<Longrightarrow> announced_deleted e u ts a b \<Longrightarrow> announced_deleted e u ts a c"
  by (simp add: announced_deleted_def lease_only_tables)

lemma DeleteSchedule_run:
  assumes "DeleteSchedule u ident [] e w = (Inr (), w')"
  obtains w0 w1 where "delete_fresh u ident e w0 = (Inr (Commit ()), w1)" and "w_db w0 = w_db w" and "lease_only (w_db w1) (w_db w')"
proof -
  have "mutation (bnd (ensureAccountNotDeleted u) (\<lambda>_. delete_fresh u ident)) (\<lambda>_. count_mutation ''delete'' 1) e w = (Inr (), w')"
    using assms by (simp add: DeleteSchedule_def claim_key_def bnd_ret) (simp add: bnd_def ask_def)
  then obtain w0 w1 where "delete_fresh u ident e w0 = (Inr (Commit ()), w1)" "w_db w0 = w_db w" "lease_only (w_db w1) (w_db w')"
    by (rule mutation_committed) (auto simp: delete_fresh_def bnd_run ret_run)
  then show thesis by (rule that)
qed

text \<open>
  C16: A deletion removes the user's own schedule with its reminders and its place in a series and
  nothing else of the kind, and puts exactly one event into the outbox: the deletion of that schedule
  with the revision after its last one.\<close>

theorem DeleteSchedule_effect:
  assumes run: "DeleteSchedule u ident [] e w = (Inr (), w')" and wf: "db_wf (w_db w)"
  shows "owns (w_db w) u ident \<and> erased_schedules {ident} (w_db w) (w_db w')
    \<and> announced_deleted e u [(ident, int64 (revision_of (w_db w) u ident + 1))] (w_db w) (w_db w')"
proof -
  obtain w0 w1 where fresh: "delete_fresh u ident e w0 = (Inr (Commit ()), w1)" and w0: "w_db w0 = w_db w"
    and lease: "lease_only (w_db w1) (w_db w')" using run by (rule DeleteSchedule_run)
  show ?thesis
    using delete_fresh_effect[OF fresh] wf erased_lease[OF lease] announced_deleted_lease[OF lease] by (simp add: w0)
qed

lemmas delete_eval = run_app sql_app run_tx_app Let_def ensureAccountNotDeleted_def claim_key_def lockScheduleRevision_def
  repo_DeleteSchedule_def repo_DeleteSchedulesByIDs_def repo_ListScheduleIDsByIDs_def delete_orphan_series_def occurredAtTx_def
  enqueueDeletedEvent_def Enqueue_def save_response_def lock_targets_def

lemma sample_delete:
  "\<exists>w'. DeleteSchedule 1 11 [] sample_env (sample_world sample_db) = (Inr (), w') \<and> erased_schedules {11} sample_db (w_db w')"
proof -
  have "\<not> isl (fst (DeleteSchedule 1 11 [] sample_env (sample_world sample_db)))"
    unfolding DeleteSchedule_def bnd_def ask_def sum.case prod.case
    by (fold bnd_def, rule mutation_total) (simp_all add: delete_eval delete_fresh_def sample_defs)
  then obtain w' where run: "DeleteSchedule 1 11 [] sample_env (sample_world sample_db) = (Inr (), w')"
    by (auto dest: success_run)
  then obtain w0 w1 where "delete_fresh 1 11 sample_env w0 = (Inr (Commit ()), w1)" "w_db w0 = sample_db" "lease_only (w_db w1) (w_db w')"
    by (rule DeleteSchedule_run) simp
  then have "erased_schedules {11} sample_db (w_db w')"
    using delete_fresh_effect[of 1 11 sample_env w0 _ w1] sample_db_wf erased_lease by metis
  with run show ?thesis by blast
qed

lemma DeleteSchedule_effect_witness:
  "\<exists>w'. DeleteSchedule 1 11 [] sample_env (sample_world sample_db) = (Inr (), w')
     \<and> erased_schedules {11} sample_db (w_db w') \<and> announced_deleted sample_env 1 [(11, 4)] sample_db (w_db w')"
proof -
  obtain w' where run: "DeleteSchedule 1 11 [] sample_env (sample_world sample_db) = (Inr (), w')" using sample_delete by blast
  have "int64 (revision_of sample_db 1 11 + 1) = 4" by code_simp
  with DeleteSchedule_effect[OF run] sample_db_wf run show ?thesis by simp
qed

section \<open>Deleting several\<close>

lemma listed_all:
  assumes wf: "db_wf d" and len: "length (filter (\<lambda>s. sr_UserID s = u \<and> sr_ID s \<in> set ids) (t_schedules d)) = length ids"
  shows "distinct ids \<and> (\<forall>i \<in> set ids. owns d u i)
    \<and> set (map sr_ID (filter (\<lambda>s. sr_UserID s = u \<and> sr_ID s \<in> set ids) (t_schedules d))) = set ids"
proof -
  let ?found = "map sr_ID (filter (\<lambda>s. sr_UserID s = u \<and> sr_ID s \<in> set ids) (t_schedules d))"
  have dist: "distinct ?found" using wf by (simp add: db_wf_def keys_ok_def distinct_map_filter_keys)
  have sub: "set ?found \<subseteq> set ids" by auto
  have "card (set ?found) = length ids" using distinct_card[OF dist] len by simp
  then have card: "card (set ids) \<ge> length ids" using card_mono[OF _ sub] by simp
  then have d: "distinct ids" using card_length[of ids] by (simp add: card_distinct)
  have eq: "set ?found = set ids" using card_subset_eq[OF _ sub] \<open>card (set ?found) = length ids\<close> distinct_card[OF d] by simp
  moreover have "owns d u i" if "i \<in> set ids" for i
  proof -
    have "i \<in> set ?found" using that eq by blast
    then show ?thesis by (auto simp: owns_def)
  qed
  ultimately show ?thesis using d by blast
qed

lemma enqueue_looked_up:
  assumes "\<And>i. i \<in> set ids \<Longrightarrow> m i = Some (f i)"
  shows "foreach ids (\<lambda>i. case m i of None \<Rightarrow> fail ErrNotFound | Some n \<Rightarrow> enqueueDeletedEvent i u t n)
    = foreach ids (\<lambda>i. enqueueDeletedEvent i u t (f i))"
  using assms by (induction ids) auto

lemma map_of_map_fun: "i \<in> set ids \<Longrightarrow> map_of (map (\<lambda>i. (i, f i)) ids) i = Some (f i)"
  by (induction ids) auto

lemma bulk_delete_fresh_effect:
  assumes "bulk_delete_fresh u ids [] e w = (Inr c, w')" and wf: "db_wf (w_db w)"
  shows "c = Commit (int (length ids)) \<and> distinct ids \<and> (\<forall>i \<in> set ids. owns (w_db w) u i)
    \<and> erased_schedules (set ids) (w_db w) (w_db w')
    \<and> announced_deleted e u (map (\<lambda>i. (i, int64 (revision_of (w_db w) u i + 1))) (sort ids)) (w_db w) (w_db w')"
proof -
  let ?p = "\<lambda>s. sr_UserID s = u \<and> sr_ID s \<in> set ids"
  let ?owned = "sort (map sr_ID (filter ?p (t_schedules (w_db w))))"
  from assms(1) obtain locked w2 k w3 w4 t w5 where len: "length (filter ?p (t_schedules (w_db w))) = length ids"
    and chain: "lock_targets u ?owned e (w\<lparr>w_step := Suc (w_step w)\<rparr>) = (Inr locked, w2)" "repo_DeleteSchedulesByIDs u ids e w2 = (Inr k, w3)"
      "delete_orphan_series u e w3 = (Inr (), w4)" "occurredAtTx e w4 = (Inr t, w5)"
      "foreach ?owned (\<lambda>i. case map_of (map (\<lambda>(i, revision). (i, int64 (revision + 1))) locked) i of
               None \<Rightarrow> fail ErrNotFound
             | Some revision \<Rightarrow> enqueueDeletedEvent i u t revision) e w5 = (Inr (), w')" "c = Commit (int k)"
    by (auto simp: bulk_delete_fresh_def bnd_run ret_run guard_run Let_def save_response_def repo_ListScheduleIDsByIDs_def query_run)
  note all = listed_all[OF wf len]
  have owned: "?owned = sort ids"
    using all wf by (intro sorted_distinct_set_unique) (auto simp: db_wf_def keys_ok_def distinct_map_filter_keys)
  have locked: "locked = map (\<lambda>i. (i, revision_of (w_db w) u i)) (sort ids)" "w_db w2 = w_db w"
    using lock_targets_run[OF chain(1)] unfolding owned by auto
  have w3: "w_db w3 = del_schedules ?p (w_db w)" "k = length (filter ?p (t_schedules (w_db w)))"
    using chain(2) locked(2) by (auto simp: repo_DeleteSchedulesByIDs_def sql_run Let_def)
  have w5: "w_db w5 = del_series (\<lambda>z. ser_UserID z = u \<and> \<not> has_occurrence (w_db w3) (ser_SeriesID z)) (w_db w3)"
    using chain(3,4) by (auto simp: delete_orphan_series_def occurredAtTx_def tx_run)
  have "foreach (sort ids) (\<lambda>i. enqueueDeletedEvent i u t (int64 (revision_of (w_db w) u i + 1))) e w5 = (Inr (), w')"
    using chain(5) unfolding owned
    by (subst (asm) enqueue_looked_up[where f = "\<lambda>i. int64 (revision_of (w_db w) u i + 1)"])
      (simp_all add: locked(1) comp_def map_of_map_fun)
  from enqueue_all_effect[where f = "\<lambda>i. i" and g = "\<lambda>i. int64 (revision_of (w_db w) u i + 1)", OF this]
  obtain obs where obs: "list_all2 (\<lambda>(i, n) ob. deleted_event e i u n ob) (map (\<lambda>i. (i, int64 (revision_of (w_db w) u i + 1))) (sort ids)) obs"
     "w_db w' = (w_db w5)\<lparr>t_outbox := t_outbox (w_db w5) @ obs\<rparr>" by blast
  have "erased_schedules (set ids) (w_db w) (w_db w3)"
    unfolding w3 by (rule del_schedules_erased[OF wf]) (use all in auto)
  then have "erased_schedules (set ids) (w_db w) (w_db w')" by (simp add: erased_schedules_def obs(2) w5)
  moreover have "announced_deleted e u (map (\<lambda>i. (i, int64 (revision_of (w_db w) u i + 1))) (sort ids)) (w_db w) (w_db w')"
    using obs by (auto simp: announced_deleted_def w5 w3)
  ultimately show ?thesis using all w3(2) len chain(6) by simp
qed

text \<open>
  C5: The bulk deletion is all or nothing. When it fails, the tables are as before. When it succeeds,
  the identifiers were distinct and all named schedules of the user, exactly these are gone with their
  reminders and occurrences, the count is their number, and the outbox has one deletion event for each, in the order of
  the identifiers, with the revision after the last one.\<close>

theorem BulkDeleteSchedules_all_or_nothing:
  assumes run: "BulkDeleteSchedules u ids [] h e w = (r, w')" and wf: "db_wf (w_db w)"
  shows "case r of
      Inl er \<Rightarrow> w_db w' = w_db w
    | Inr n \<Rightarrow> n = int (length ids) \<and> distinct ids \<and> (\<forall>i \<in> set ids. owns (w_db w) u i)
        \<and> erased_schedules (set ids) (w_db w) (w_db w')
        \<and> announced_deleted e u (map (\<lambda>i. (i, int64 (revision_of (w_db w) u i + 1))) (sort ids)) (w_db w) (w_db w')"
proof -
  have run': "mutation (bnd (ensureAccountNotDeleted u) (\<lambda>_. bulk_delete_fresh u ids [])) (\<lambda>n. count_mutation ''delete'' n) e w = (r, w')"
    using run by (simp add: BulkDeleteSchedules_def claim_key_def bnd_ret)
  show ?thesis
  proof (cases r)
    case (Inl er)
    then show ?thesis using mutation_error[OF run'[unfolded Inl]] by simp
  next
    case (Inr n)
    from run'[unfolded Inr] obtain w0 w1 where fresh: "bulk_delete_fresh u ids [] e w0 = (Inr (Commit n), w1)" and w0: "w_db w0 = w_db w"
      and lease: "lease_only (w_db w1) (w_db w')"
      by (rule mutation_committed) (auto simp: bulk_delete_fresh_def bnd_run ret_run Let_def)
    show ?thesis
      using bulk_delete_fresh_effect[OF fresh] wf erased_lease[OF lease] announced_deleted_lease[OF lease] by (simp add: w0 Inr)
  qed
qed

lemma BulkDeleteSchedules_all_or_nothing_witness:
  "(\<exists>w'. BulkDeleteSchedules 1 [11] [] 0 sample_env (sample_world sample_db) = (Inr 1, w') \<and> erased_schedules {11} sample_db (w_db w'))
   \<and> (\<exists>er w'. BulkDeleteSchedules 1 [11, 12] [] 0 sample_env (sample_world sample_db) = (Inl er, w') \<and> w_db w' = sample_db)"
proof
  have "\<not> isl (fst (BulkDeleteSchedules 1 [11] [] 0 sample_env (sample_world sample_db)))"
    unfolding BulkDeleteSchedules_def
    by (rule mutation_total) (simp_all add: delete_eval bulk_delete_fresh_def sample_defs)
  then obtain n w' where run: "BulkDeleteSchedules 1 [11] [] 0 sample_env (sample_world sample_db) = (Inr n, w')"
    by (auto dest: success_run)
  from BulkDeleteSchedules_all_or_nothing[OF run] sample_db_wf run
  show "\<exists>w'. BulkDeleteSchedules 1 [11] [] 0 sample_env (sample_world sample_db) = (Inr 1, w') \<and> erased_schedules {11} sample_db (w_db w')"
    by auto
  obtain r w'' where run: "BulkDeleteSchedules 1 [11, 12] [] 0 sample_env (sample_world sample_db) = (r, w'')" by fastforce
  have "\<not> owns sample_db 1 12" by code_simp
  with BulkDeleteSchedules_all_or_nothing[OF run] sample_db_wf run
  show "\<exists>er w'. BulkDeleteSchedules 1 [11, 12] [] 0 sample_env (sample_world sample_db) = (Inl er, w') \<and> w_db w' = sample_db"
    by (cases r) auto
qed

section \<open>Deleting the rest of a series\<close>

lemma selected_revision_map:
  "ident \<in> set ids \<Longrightarrow> selected_revision ident (map (\<lambda>i. (i, f i)) ids) = f ident"
proof -
  have "fold (\<lambda>(i, revision) acc. if i = ident then revision else acc) (map (\<lambda>i. (i, f i)) ids) acc
      = (if ident \<in> set ids then f ident else acc)" for acc
    by (induction ids arbitrary: acc) auto
  then show "ident \<in> set ids \<Longrightarrow> ?thesis" by (simp add: selected_revision_def)
qed

lemma occurrence_of_Some:
  assumes "occurrence_of d u ident = Some (seriesID, idx, rule)"
  obtains r where "r \<in> set (t_occurrences d)" and "List.find (\<lambda>r. ocr_ScheduleID r = ident) (t_occurrences d) = Some r"
    and "ocr_ScheduleID r = ident" and "ocr_SeriesID r = seriesID" and "ocr_Index r = idx" and "owns d u ident"
proof -
  from assms obtain r where r: "List.find (\<lambda>r. ocr_ScheduleID r = ident \<and> owns d u ident) (t_occurrences d) = Some r"
    "ocr_SeriesID r = seriesID" "ocr_Index r = idx"
    by (auto simp: occurrence_of_def split: option.splits)
  then have "owns d u ident" "r \<in> set (t_occurrences d)" "ocr_ScheduleID r = ident" by (auto dest!: find_Some_iff_mem)
  with r show thesis by (intro that[of r]) simp_all
qed

lemma following_ids_set:
  assumes "occurrence_of d u ident = Some (seriesID, idx, rule)"
  shows "set (following_ids seriesID ident d) = {i. \<exists>r \<in> set (t_occurrences d). ocr_ScheduleID r = i \<and> ocr_SeriesID r = seriesID \<and> idx \<le> ocr_Index r}
    \<and> ident \<in> set (following_ids seriesID ident d)"
proof -
  obtain r where "r \<in> set (t_occurrences d)" "List.find (\<lambda>r. ocr_ScheduleID r = ident) (t_occurrences d) = Some r"
    "ocr_ScheduleID r = ident" "ocr_SeriesID r = seriesID" "ocr_Index r = idx"
    using occurrence_of_Some[OF assms] .
  then show ?thesis by (auto simp: following_ids_def image_iff)
qed

lemma repo_GetScheduleOccurrence_run [tx_run]:
  "repo_GetScheduleOccurrence ident u e w = (Inr m, w') \<longleftrightarrow> \<not> fault_at e (w_step w) \<and> m = occurrence_of (w_db w) u ident
     \<and> w' = w\<lparr>w_step := Suc (w_step w)\<rparr>"
  by (auto simp: repo_GetScheduleOccurrence_def query_run occurrence_of_def)

lemma delete_series_if_empty_run:
  assumes "delete_series_if_empty sid e w = (Inr (), w')"
  shows "t_schedules (w_db w') = t_schedules (w_db w) \<and> t_reminders (w_db w') = t_reminders (w_db w)
    \<and> t_occurrences (w_db w') = t_occurrences (w_db w) \<and> t_outbox (w_db w') = t_outbox (w_db w)"
proof -
  have "t_occurrences (del_series (\<lambda>z. ser_SeriesID z = sid \<and> \<not> has_occurrence d sid) d) = t_occurrences d" for d
    by (auto simp: del_series_def has_occurrence_def Let_def intro!: filter_True)
  then show ?thesis using assms by (simp add: delete_series_if_empty_def exec_run)
qed

lemma delete_targets_effect:
  assumes "delete_targets u ident [] expected seriesID e w = (Inr c, w')" and wf: "db_wf (w_db w)"
    and occ: "occurrence_of (w_db w) u ident = Some (seriesID, idx, rule)"
  shows "(\<exists>n. c = Commit n) \<and> expected = revision_of (w_db w) u ident
    \<and> erased_schedules (set (following_ids seriesID ident (w_db w))) (w_db w) (w_db w')
    \<and> announced_deleted e u (map (\<lambda>i. (i, int64 (revision_of (w_db w) u i + 1))) (following_ids seriesID ident (w_db w))) (w_db w) (w_db w')"
proof -
  let ?ids = "following_ids seriesID ident (w_db w)"
  from assms(1) obtain targets w2 k w3 t w4 w5 where
    chain: "lock_targets u ?ids e (w\<lparr>w_step := Suc (w_step w)\<rparr>) = (Inr targets, w2)"
      "selected_revision ident targets = expected" "repo_DeleteSchedulesByIDs u (map fst targets) e w2 = (Inr k, w3)"
      "occurredAtTx e w3 = (Inr t, w4)"
      "foreach targets (\<lambda>(i, revision). enqueueDeletedEvent i u t (int64 (revision + 1))) e w4 = (Inr (), w5)"
      "delete_series_if_empty seriesID e w5 = (Inr (), w')" "c = Commit k"
    by (auto simp: delete_targets_def bnd_run ret_run guard_run query_run save_response_def)
  have targets: "targets = map (\<lambda>i. (i, revision_of (w_db w) u i)) ?ids" and w2: "w_db w2 = w_db w" and own: "\<forall>i \<in> set ?ids. owns (w_db w) u i"
    using lock_targets_run[OF chain(1)] by auto
  have w3: "w_db w3 = del_schedules (\<lambda>s. sr_UserID s = u \<and> sr_ID s \<in> set ?ids) (w_db w)"
    using chain(3) w2 by (auto simp: repo_DeleteSchedulesByIDs_def sql_run Let_def targets comp_def)
  have w4: "w_db w4 = w_db w3" using chain(4) by (auto simp: occurredAtTx_def db_now_run)
  obtain obs where obs: "list_all2 (\<lambda>(i, n) ob. deleted_event e i u n ob) (map (\<lambda>x. (fst x, int64 (snd x + 1))) targets) obs"
     "w_db w5 = (w_db w4)\<lparr>t_outbox := t_outbox (w_db w4) @ obs\<rparr>"
  proof -
    have "foreach targets (\<lambda>x. enqueueDeletedEvent (fst x) u t (int64 (snd x + 1))) e w4 = (Inr (), w5)"
      using chain(5) by (simp add: case_prod_beta')
    from enqueue_all_effect[where f = fst and g = "\<lambda>x. int64 (snd x + 1)", OF this] that show thesis by blast
  qed
  note w' = delete_series_if_empty_run[OF chain(6)]
  have "erased_schedules (set ?ids) (w_db w) (w_db w3)"
    unfolding w3 by (rule del_schedules_erased[OF wf own]) simp
  then have "erased_schedules (set ?ids) (w_db w) (w_db w')" using w' by (simp add: erased_schedules_def obs(2) w4)
  moreover have "announced_deleted e u (map (\<lambda>i. (i, int64 (revision_of (w_db w) u i + 1))) ?ids) (w_db w) (w_db w')"
    using obs w' by (auto simp: announced_deleted_def w4 w3 targets comp_def)
  moreover have "expected = revision_of (w_db w) u ident"
    using chain(2) selected_revision_map[OF conjunct2[OF following_ids_set[OF occ]], of "revision_of (w_db w) u"] by (simp add: targets)
  ultimately show ?thesis using chain(7) by simp
qed

text \<open>
  C17: Deleting an occurrence and the ones after it succeeds only for an occurrence of the user with the
  expected revision. It removes exactly the occurrences of that series from this index on, with
  one deletion event for each in the order of their indices, and every earlier occurrence stays.\<close>

theorem DeleteScheduleFollowing_effect:
  assumes run: "DeleteScheduleFollowing u ident [] expected h e w = (Inr (), w')" and wf: "db_wf (w_db w)"
  shows "\<exists>seriesID idx rule. occurrence_of (w_db w) u ident = Some (seriesID, idx, rule) \<and> expected = revision_of (w_db w) u ident
    \<and> erased_schedules {i. \<exists>r \<in> set (t_occurrences (w_db w)). ocr_ScheduleID r = i \<and> ocr_SeriesID r = seriesID \<and> idx \<le> ocr_Index r}
        (w_db w) (w_db w')
    \<and> announced_deleted e u (map (\<lambda>i. (i, int64 (revision_of (w_db w) u i + 1))) (following_ids seriesID ident (w_db w))) (w_db w) (w_db w')"
proof -
  obtain n where "mutation (bnd (ensureAccountNotDeleted u) (\<lambda>_. delete_following_fresh u ident [] expected))
      (\<lambda>n. count_mutation ''delete'' (int n)) e w = (Inr n, w')"
    using run by (auto simp: DeleteScheduleFollowing_def claim_key_def bnd_ret) (auto simp: bnd_run ret_run)
  then obtain w0 w1 where fresh: "delete_following_fresh u ident [] expected e w0 = (Inr (Commit n), w1)" and w0: "w_db w0 = w_db w"
    and lease: "lease_only (w_db w1) (w_db w')"
    by (rule mutation_committed)
      (auto simp: delete_following_fresh_def delete_targets_def bnd_run ret_run fail_run split: option.splits)
  then obtain seriesID idx rule where occ: "occurrence_of (w_db w) u ident = Some (seriesID, idx, rule)"
    and targets: "delete_targets u ident [] expected seriesID e (w0\<lparr>w_step := Suc (w_step w0)\<rparr>) = (Inr (Commit n), w1)"
    by (auto simp: delete_following_fresh_def bnd_run fail_run repo_GetScheduleOccurrence_run split: option.splits)
  show ?thesis
    using delete_targets_effect[OF targets] wf occ following_ids_set[OF occ] erased_lease[OF lease] announced_deleted_lease[OF lease]
    by (auto simp: w0)
qed

text \<open>User 1 has a series of three occurrences.\<close>

definition sample_rule :: RecurrenceRule where
  "sample_rule = \<lparr>rr_Frequency = ''daily'', rr_Interval = 1, rr_Count = Some 3, rr_Until = None, rr_Weekdays = [], rr_Exdates = []\<rparr>"

definition sample_occurrence :: "nat \<Rightarrow> schedule_row" where
  "sample_occurrence i = sample_schedule\<lparr>sr_ID := 41 + of_nat i, sr_StartAt := int i * day, sr_EndAt := Some (int i * day + hour)\<rparr>"

definition sample_link :: "nat \<Rightarrow> occurrence_row" where
  "sample_link i = \<lparr>ocr_ScheduleID = 41 + of_nat i, ocr_SeriesID = 5, ocr_Index = int i, ocr_LocalStart = int i * day, ocr_LocalDate = int i\<rparr>"

definition sample_series_db :: db where
  "sample_series_db = sample_db\<lparr>t_schedules := [sample_occurrence 0, sample_occurrence 1, sample_occurrence 2, sample_other],
     t_reminders := [], t_series := [\<lparr>ser_SeriesID = 5, ser_UserID = 1, ser_Recurrence = sample_rule\<rparr>],
     t_occurrences := [sample_link 0, sample_link 1, sample_link 2]\<rparr>"

lemmas sample_series_defs = sample_series_db_def sample_occurrence_def sample_link_def sample_rule_def

lemma sample_series_db_wf: "db_wf sample_series_db"
  by code_simp

lemma DeleteScheduleFollowing_effect_witness:
  "\<exists>w'. DeleteScheduleFollowing 1 42 [] 3 0 sample_env (sample_world sample_series_db) = (Inr (), w')
     \<and> map sr_ID (t_schedules (w_db w')) = [41, 12]"
proof -
  have "\<not> isl (fst (mutation (bnd (ensureAccountNotDeleted 1) (\<lambda>_.
        bnd (claim_key 1 42 ''delete-following'' [] 0) (\<lambda>replay.
        case replay of Some _ \<Rightarrow> ret (Early 0) | None \<Rightarrow> delete_following_fresh 1 42 [] 3)))
       (\<lambda>n. count_mutation ''delete'' (int n)) sample_env (sample_world sample_series_db)))"
    by (rule mutation_total) (simp_all add: delete_eval delete_following_fresh_def delete_targets_def following_ids_def
        repo_GetScheduleOccurrence_def selected_revision_def delete_series_if_empty_def owns_def sample_series_defs sample_defs)
  then obtain w' where run: "DeleteScheduleFollowing 1 42 [] 3 0 sample_env (sample_world sample_series_db) = (Inr (), w')"
    by (auto simp: DeleteScheduleFollowing_def bnd_def ret_def dest!: success_run)
  have occ: "occurrence_of sample_series_db 1 42 = Some (5, 1, sample_rule)" by code_simp
  define S where "S = {i. \<exists>r \<in> set (t_occurrences sample_series_db). ocr_ScheduleID r = i \<and> ocr_SeriesID r = 5 \<and> 1 \<le> ocr_Index r}"
  have rest: "filter (\<lambda>s. sr_ID s \<notin> S) (t_schedules sample_series_db) = [sample_occurrence 0, sample_other]"
    unfolding S_def mem_Collect_eq by code_simp
  have ids: "map sr_ID [sample_occurrence 0, sample_other] = [41, 12]" by code_simp
  have "erased_schedules S sample_series_db (w_db w')"
  proof -
    obtain k i rule where o: "occurrence_of sample_series_db 1 42 = Some (k, i, rule)"
      and er: "erased_schedules {j. \<exists>r \<in> set (t_occurrences sample_series_db). ocr_ScheduleID r = j \<and> ocr_SeriesID r = k \<and> i \<le> ocr_Index r}
        sample_series_db (w_db w')"
      using DeleteScheduleFollowing_effect[OF run, unfolded sample_world_simps, OF sample_series_db_wf] by blast
    from o occ have "k = 5" "i = 1" by simp_all
    from er[unfolded this] show ?thesis unfolding S_def .
  qed
  then have "t_schedules (w_db w') = [sample_occurrence 0, sample_other]"
    unfolding erased_schedules_def rest by (rule conjunct1)
  then have "map sr_ID (t_schedules (w_db w')) = [41, 12]" by (simp only: ids)
  with run show ?thesis by (intro exI conjI)
qed

end
