(* ===== verification/Patch.thy ===== *)
theory Patch
  imports Removal LocalTime
begin

text \<open>
  Changing schedules (\<open>internal/service/schedules.go\<close>: \<open>UpdateSchedule\<close>, \<open>updateScheduleFollowing\<close>,
  \<open>mergeSchedulePatchFields\<close>, \<open>validateScheduleFields\<close>). The patch is merged with the row after its
  lock is taken; a patch of an occurrence and the ones after it carries the wall-clock shift of the
  selected occurrence over to the others. \<open>UpdateSchedule\<close> repeats the text of
  \<open>mergeSchedulePatchFields\<close> and \<open>validateScheduleFields\<close>; the model calls them.
\<close>

section \<open>Merging a patch\<close>

definition fields_of :: "Schedule \<Rightarrow> ScheduleFields" where
  "fields_of s = \<lparr>f_Title = s_Title s, f_Description = s_Description s, f_Location = s_Location s,
     f_StartAt = s_StartAt s, f_EndAt = s_EndAt s, f_AllDay = s_AllDay s, f_Timezone = s_Timezone s,
     f_StartDate = s_StartDate s, f_EndDate = s_EndDate s, f_Status = s_Status s\<rparr>"

definition override :: "'a \<Rightarrow> 'a option \<Rightarrow> 'a" where
  "override old new = (case new of None \<Rightarrow> old | Some v \<Rightarrow> v)"

definition apply_patch :: "ScheduleFields \<Rightarrow> SchedulePatch \<Rightarrow> ScheduleFields" where
  "apply_patch f p =
     (let timezone = override (f_Timezone f) (p_Timezone p)
      in \<lparr>f_Title = override (f_Title f) (p_Title p), f_Description = override (f_Description f) (p_Description p),
          f_Location = override (f_Location f) (p_Location p), f_StartAt = override (f_StartAt f) (p_StartAt p),
          f_EndAt = override (f_EndAt f) (p_EndAt p), f_AllDay = override (f_AllDay f) (p_AllDay p),
          f_Timezone = (if timezone = [] then ''UTC'' else timezone),
          f_StartDate = override (f_StartDate f) (p_StartDate p), f_EndDate = override (f_EndDate f) (p_EndDate p),
          f_Status = override (f_Status f) (p_Status p)\<rparr>)"

definition default_end_date :: "string option \<Rightarrow> string \<Rightarrow> string option" where
  "default_end_date endDate startDate = (case endDate of
     Some v \<Rightarrow> Some v
   | None \<Rightarrow> map_option (\<lambda>start. format_date (start + 1)) (parse_date startDate))"

definition all_day_fields :: "(string \<Rightarrow> location option) \<Rightarrow> ScheduleFields \<Rightarrow> err + ScheduleFields" where
  "all_day_fields load f =
     (if \<not> f_AllDay f then Inr (f\<lparr>f_StartDate := None, f_EndDate := None\<rparr>)
      else case load (f_Timezone f) of
          None \<Rightarrow> Inl ErrInvalidSchedule
        | Some zone \<Rightarrow>
            (let startDate = (case f_StartDate f of Some v \<Rightarrow> v | None \<Rightarrow> format_date (wall_day (wall zone (f_StartAt f))))
             in case default_end_date (f_EndDate f) startDate of
                  None \<Rightarrow> Inl ErrInvalidSchedule
                | Some endDate \<Rightarrow>
                    (case (parse_date startDate, parse_date endDate) of
                       (Some start, Some end) \<Rightarrow>
                         if \<not> start < end then Inl ErrInvalidSchedule
                         else Inr (f\<lparr>f_StartDate := Some startDate, f_EndDate := Some endDate,
                                f_StartAt := midnight zone start, f_EndAt := Some (midnight zone end)\<rparr>)
                     | _ \<Rightarrow> Inl ErrInvalidSchedule)))"

definition mergeSchedulePatchFields :: "(string \<Rightarrow> location option) \<Rightarrow> Schedule \<Rightarrow> SchedulePatch \<Rightarrow> err + ScheduleFields" where
  "mergeSchedulePatchFields load before patch = all_day_fields load (apply_patch (fields_of before) patch)"

definition validateScheduleFields :: "ScheduleFields \<Rightarrow> err + unit" where
  "validateScheduleFields f = (case f_EndAt f of
     None \<Rightarrow> Inr ()
   | Some endAt \<Rightarrow> if time_sub endAt (f_StartAt f) < millisecond then Inl ErrInvalidSchedule else Inr ())"

definition update_params :: "uuid \<Rightarrow> uuid \<Rightarrow> ScheduleFields \<Rightarrow> UpdateScheduleParams" where
  "update_params userID ident f = \<lparr>up_Title = f_Title f, up_Description = f_Description f, up_Location = f_Location f,
     up_StartAt = f_StartAt f, up_EndAt = f_EndAt f, up_AllDay = f_AllDay f, up_Timezone = f_Timezone f,
     up_StartDate = nullDate (f_StartDate f), up_EndDate = nullDate (f_EndDate f), up_Status = f_Status f,
     up_ID = ident, up_UserID = userID\<rparr>"

section \<open>Updating one schedule\<close>

definition write_fields :: "uuid \<Rightarrow> uuid \<Rightarrow> ScheduleFields \<Rightarrow> Schedule tx" where
  "write_fields userID ident f =
     bnd (repo_UpdateSchedule (update_params userID ident f)) (\<lambda>_.
     bnd (getSchedule userID ident) (\<lambda>sch.
     bnd (enqueueScheduleEvent SubjectScheduleUpdated sch) (\<lambda>_. ret sch)))"

definition save_updated :: "uuid \<Rightarrow> string \<Rightarrow> Schedule \<Rightarrow> unit tx" where
  "save_updated userID key sch = (if key = [] then ret ()
     else bnd (guard (json_Schedule_ok sch) JSONError) (\<lambda>_. save_mutation_response userID ''update'' key (RSchedule sch)))"

definition revision_matches :: "SchedulePatch \<Rightarrow> int \<Rightarrow> bool" where
  "revision_matches patch revision \<longleftrightarrow> (case p_ExpectedRevision patch of None \<Rightarrow> True | Some v \<Rightarrow> revision = v)"

text \<open>The flag says whether this is the transition to \<open>cancelled\<close> that is counted.\<close>

definition update_fresh :: "uuid \<Rightarrow> uuid \<Rightarrow> SchedulePatch \<Rightarrow> string \<Rightarrow> (Schedule \<times> bool) outcome tx" where
  "update_fresh userID ident patch key =
     bnd (lockScheduleRevision userID ident) (\<lambda>revision.
     bnd (guard (revision_matches patch revision) ErrRevisionConflict) (\<lambda>_.
     bnd (getSchedule userID ident) (\<lambda>before.
     bnd (ask load_location) (\<lambda>load.
     bnd (lift (mergeSchedulePatchFields load before patch)) (\<lambda>fields.
     bnd (lift (validateScheduleFields fields)) (\<lambda>_.
     bnd (write_fields userID ident fields) (\<lambda>sch.
     bnd (save_updated userID key sch) (\<lambda>_.
     ret (Commit (sch, s_Status before \<noteq> ''cancelled'' \<and> f_Status fields = ''cancelled''))))))))))"

definition update_replay :: "uuid \<Rightarrow> uuid \<Rightarrow> response option \<Rightarrow> (Schedule \<times> bool) outcome tx" where
  "update_replay userID ident resp = (case resp of
     Some (RSchedule saved) \<Rightarrow> bnd (lockScheduleRevision userID ident) (\<lambda>_. ret (Early (saved, False)))
   | _ \<Rightarrow> fail JSONError)"

section \<open>Updating an occurrence and the ones after it\<close>

text \<open>A date that does not parse is the zero time, January 1 of year 1.\<close>

definition parse_or_zero :: "string \<Rightarrow> int" where
  "parse_or_zero s = (case parse_date s of Some n \<Rightarrow> n | None \<Rightarrow> days_from_civil 1 1 1)"

text \<open>\<open>int(b.Sub(a).Hours() / 24)\<close> for two dates.\<close>

definition days_between :: "int \<Rightarrow> int \<Rightarrow> int" where
  "days_between a b = trunc_div (time_sub (b * day) (a * day)) day"

record series_shift =
  sh_wall :: duration
  sh_duration :: duration
  sh_days :: int

definition series_shift_of :: "(string \<Rightarrow> location option) \<Rightarrow> Schedule \<Rightarrow> ScheduleFields \<Rightarrow> series_shift" where
  "series_shift_of load before f =
     (let seriesZone = (if s_Timezone before = [] then ''UTC'' else s_Timezone before);
          oldStartWall = wallClockService (mustLoadLocation load seriesZone) (s_StartAt before);
          newZone = mustLoadLocation load (f_Timezone f);
          newStartWall = wallClockService newZone (f_StartAt f)
      in \<lparr>sh_wall = time_sub newStartWall oldStartWall,
          sh_duration = (case f_EndAt f of None \<Rightarrow> 0 | Some t \<Rightarrow> time_sub (wallClockService newZone t) newStartWall),
          sh_days = (case (s_StartDate before, f_StartDate f) of
             (Some a, Some b) \<Rightarrow> days_between (parse_or_zero a) (parse_or_zero b) | _ \<Rightarrow> 0)\<rparr>)"

definition shift_all_day :: "(string \<Rightarrow> location option) \<Rightarrow> ScheduleFields \<Rightarrow> series_shift \<Rightarrow> Schedule \<Rightarrow> ScheduleFields \<Rightarrow> err + ScheduleFields" where
  "shift_all_day load selected sh before f =
     (let zone = mustLoadLocation load (f_Timezone f);
          targetDate = (case s_StartDate before of Some v \<Rightarrow> v | None \<Rightarrow> format_date (wall_day (wall zone (s_StartAt before))))
      in case parse_date targetDate of
           None \<Rightarrow> Inl ErrInvalidSchedule
         | Some parsed \<Rightarrow>
             (let date = parsed + sh_days sh;
                  span = (case (f_StartDate selected, f_EndDate selected) of
                     (Some a, Some b) \<Rightarrow> days_between (parse_or_zero a) (parse_or_zero b) | _ \<Rightarrow> 1)
              in Inr (f\<lparr>f_StartDate := Some (format_date date), f_EndDate := Some (format_date (date + span)),
                   f_StartAt := midnight zone date, f_EndAt := Some (midnight zone (date + span))\<rparr>)))"

definition shift_timed :: "(string \<Rightarrow> location option) \<Rightarrow> SchedulePatch \<Rightarrow> ScheduleFields \<Rightarrow> series_shift \<Rightarrow> Schedule \<Rightarrow> ScheduleFields \<Rightarrow> err + ScheduleFields" where
  "shift_timed load patch selected sh before f =
     (case load (f_Timezone f) of
        None \<Rightarrow> Inl ErrInvalidSchedule
      | Some zone \<Rightarrow>
          (let targetWall = wallClockService zone (s_StartAt before) + sh_wall sh
           in case resolveServiceWall load targetWall (f_Timezone f) (p_StartFold patch) of
                None \<Rightarrow> Inl ErrInvalidSchedule
              | Some startAt \<Rightarrow>
                  if p_EndAt patch = Some None \<or> f_EndAt selected = None then Inr (f\<lparr>f_StartAt := startAt, f_EndAt := None\<rparr>)
                  else (case resolveServiceWall load (targetWall + sh_duration sh) (f_Timezone f) (p_EndFold patch) of
                      None \<Rightarrow> Inl ErrInvalidSchedule
                    | Some endAt \<Rightarrow> if \<not> startAt < endAt then Inl ErrInvalidSchedule
                        else Inr (f\<lparr>f_StartAt := startAt, f_EndAt := Some endAt\<rparr>))))"

definition following_fields :: "(string \<Rightarrow> location option) \<Rightarrow> uuid \<Rightarrow> SchedulePatch \<Rightarrow> ScheduleFields \<Rightarrow> series_shift \<Rightarrow> uuid \<Rightarrow> Schedule
    \<Rightarrow> err + ScheduleFields" where
  "following_fields load ident patch selected sh target before =
     (if target = ident then Inr selected
      else case mergeSchedulePatchFields load before patch of
          Inl er \<Rightarrow> Inl er
        | Inr f \<Rightarrow>
            if f_AllDay f then shift_all_day load selected sh before f
            else if p_StartAt patch \<noteq> None \<or> p_EndAt patch \<noteq> None \<or> p_Timezone patch \<noteq> None \<or> p_AllDay patch \<noteq> None
            then shift_timed load patch selected sh before f
            else Inr f)"

definition update_target :: "(string \<Rightarrow> location option) \<Rightarrow> uuid \<Rightarrow> uuid \<Rightarrow> SchedulePatch \<Rightarrow> ScheduleFields \<Rightarrow> series_shift \<Rightarrow> uuid \<Rightarrow> (uuid \<times> Schedule) tx" where
  "update_target load userID ident patch selected sh target =
     bnd (getSchedule userID target) (\<lambda>before.
     bnd (lift (following_fields load ident patch selected sh target before)) (\<lambda>fields.
     bnd (lift (validateScheduleFields fields)) (\<lambda>_.
     bnd (write_fields userID target fields) (\<lambda>updated. ret (target, updated)))))"

text \<open>The selected occurrence is one of the targets, so \<open>selectedUpdated\<close> is set when the loop ends.\<close>

definition selected_updated :: "uuid \<Rightarrow> (uuid \<times> Schedule) list \<Rightarrow> Schedule option" where
  "selected_updated ident updated = fold (\<lambda>(i, sch) acc. if i = ident then Some sch else acc) updated None"

definition update_targets :: "uuid \<Rightarrow> uuid \<Rightarrow> SchedulePatch \<Rightarrow> string \<Rightarrow> uuid \<Rightarrow> (Schedule \<times> bool) outcome tx" where
  "update_targets userID ident patch key seriesID =
     bnd (query (following_ids seriesID ident)) (\<lambda>ids.
     bnd (guard (ids \<noteq> []) ErrNotFound) (\<lambda>_.
     bnd (lock_targets userID ids) (\<lambda>targets.
     bnd (guard (revision_matches patch (selected_revision ident targets)) ErrRevisionConflict) (\<lambda>_.
     bnd (getSchedule userID ident) (\<lambda>selectedBefore.
     bnd (ask load_location) (\<lambda>load.
     bnd (lift (mergeSchedulePatchFields load selectedBefore patch)) (\<lambda>selectedFields.
     bnd (lift (validateScheduleFields selectedFields)) (\<lambda>_.
     bnd (collect (map fst targets) (update_target load userID ident patch selectedFields (series_shift_of load selectedBefore selectedFields))) (\<lambda>updated.
     case selected_updated ident updated of
       None \<Rightarrow> fail JSONError
     | Some sch \<Rightarrow> bnd (save_updated userID key sch) (\<lambda>_. ret (Commit (sch, False))))))))))))"

definition update_following_fresh :: "uuid \<Rightarrow> uuid \<Rightarrow> SchedulePatch \<Rightarrow> string \<Rightarrow> (Schedule \<times> bool) outcome tx" where
  "update_following_fresh userID ident patch key =
     bnd (repo_GetScheduleOccurrence ident userID) (\<lambda>metadata.
     case metadata of
       None \<Rightarrow> fail ErrNotRecurring
     | Some (seriesID, _, _) \<Rightarrow> update_targets userID ident patch key seriesID)"

definition update_with :: "uuid \<Rightarrow> uuid \<Rightarrow> string \<Rightarrow> hash \<Rightarrow> (Schedule \<times> bool) outcome tx \<Rightarrow> Schedule tx" where
  "update_with userID ident key requestHash fresh =
     bnd (mutation
       (bnd (ensureAccountNotDeleted userID) (\<lambda>_.
        bnd (claim_key userID ident ''update'' key requestHash) (\<lambda>replay.
        case replay of Some resp \<Rightarrow> update_replay userID ident resp | None \<Rightarrow> fresh)))
       (\<lambda>r. if snd r then count_mutation ''cancel'' 1 else ret ())) (\<lambda>r. ret (fst r))"

definition updateScheduleFollowing :: "uuid \<Rightarrow> uuid \<Rightarrow> SchedulePatch \<Rightarrow> string \<Rightarrow> hash \<Rightarrow> Schedule tx" where
  "updateScheduleFollowing userID ident patch key requestHash =
     update_with userID ident key requestHash (update_following_fresh userID ident patch key)"

definition UpdateSchedule :: "uuid \<Rightarrow> uuid \<Rightarrow> SchedulePatch \<Rightarrow> string \<Rightarrow> hash \<Rightarrow> Schedule tx" where
  "UpdateSchedule userID ident patch key requestHash =
     (if p_Scope patch = ''following'' then updateScheduleFollowing userID ident patch key requestHash
      else if p_Scope patch \<noteq> [] \<and> p_Scope patch \<noteq> ''this'' then fail ErrInvalidSchedule
      else update_with userID ident key requestHash (update_fresh userID ident patch key))"

section \<open>The store stays in order\<close>

context user_store
begin

lemma hoare_repo_UpdateSchedule:
  assumes "up_UserID p = u"
  shows "hoare I (repo_UpdateSchedule p) (\<lambda>_. I)"
  unfolding repo_UpdateSchedule_def Let_def
proof (rule hoare_sql)
  fix e n d x d' assume I: "I d"
    and run: "(if \<exists>s \<in> set (t_schedules d). (sr_ID s = up_ID p \<and> sr_UserID s = up_UserID p) \<and> (max_int64 \<le> sr_Revision s \<or> \<not> status_ok (up_Status p))
        then Inl DBError
        else Inr ((), d\<lparr>t_schedules := upd_where (\<lambda>s. sr_ID s = up_ID p \<and> sr_UserID s = up_UserID p) (updated_row e (now_at e n) p) (t_schedules d)\<rparr>)) = Inr (x, d')"
  have "row_ok (updated_row e t p s)" if "s \<in> set (t_schedules d)" "sr_Revision s < max_int64" "status_ok (up_Status p)" for s t
    using db_wfD(3)[OF wf[OF I] that(1)] that(2,3) by (simp add: row_ok_def updated_row_def)
  with I run show "I d'"
    by (auto split: if_splits intro!: update_schedule simp: assms) (auto simp: updated_row_def)
qed

lemma hoare_write_fields: "hoare I (write_fields u ident f) (\<lambda>_. I)"
  unfolding write_fields_def
  by (intro hoare_seq[OF hoare_repo_UpdateSchedule] hoare_then_get hoare_seq[OF hoare_enqueueScheduleEvent] hoare_ret)
    (simp_all add: update_params_def)

lemma hoare_save_updated: "hoare I (save_updated u key sch) (\<lambda>_. I)"
  unfolding save_updated_def by (intro hoare_if hoare_ret hoare_then_guard hoare_save_mutation_response)

lemma hoare_then_lock_idle: "(\<And>n. hoare I (k n) Q) \<Longrightarrow> hoare I (bnd (lockScheduleRevision u sid) k) Q"
  by (rule hoare_seq[OF hoare_conseq[OF hoare_lockScheduleRevision[of I]]]) auto

lemma hoare_update_fresh: "hoare I (update_fresh u ident patch key) (committed I)"
  unfolding update_fresh_def
  by (intro hoare_then_lock_idle hoare_then_guard hoare_then_get hoare_seq[OF hoare_idle(1)] hoare_then_lift
      hoare_seq[OF hoare_write_fields] hoare_seq[OF hoare_save_updated] hoare_ret) simp

lemma hoare_update_replay: "hoare I (update_replay u ident resp) (committed I)"
  unfolding update_replay_def
  by (auto simp: hoare_def tx_run split: option.splits response.splits)

lemma hoare_update_target: "hoare I (update_target load u ident patch selected sh target) (\<lambda>_. I)"
  unfolding update_target_def
  by (intro hoare_then_get hoare_then_lift hoare_seq[OF hoare_write_fields] hoare_ret)

lemma hoare_update_targets: "hoare I (update_targets u ident patch key seriesID) (committed I)"
  unfolding update_targets_def
  by (intro hoare_seq[OF hoare_idle(4)] hoare_then_guard hoare_seq[OF hoare_lock_targets] hoare_then_get hoare_seq[OF hoare_idle(1)]
      hoare_then_lift hoare_seq[OF hoare_collect[OF hoare_update_target]] hoare_option hoare_fail hoare_seq[OF hoare_save_updated] hoare_ret) simp

lemma hoare_update_following_fresh: "hoare I (update_following_fresh u ident patch key) (committed I)"
  unfolding update_following_fresh_def repo_GetScheduleOccurrence_def
  by (rule hoare_seq[OF hoare_idle(4)], rule hoare_option[OF hoare_fail]) (auto intro!: hoare_update_targets)

lemma keeps_update_with:
  assumes "hoare I fresh (committed I)"
  shows "steps (keeps I) (update_with u ident key h fresh)"
  unfolding update_with_def
  by (intro keeps.steps_bnd keeps.steps_ret steps_mutation hoare_seq[OF hoare_ensureAccountNotDeleted]
      hoare_seq[OF hoare_claim_key[OF hoare_claimScheduleMutation]] hoare_option hoare_update_replay assms) simp

lemma keeps_UpdateSchedule: "steps (keeps I) (UpdateSchedule u ident patch key h)"
  unfolding UpdateSchedule_def updateScheduleFollowing_def
  by (intro keeps.steps_if keeps.steps_fail keeps_update_with hoare_update_fresh hoare_update_following_fresh)

end

section \<open>What the user sees of an update\<close>

text \<open>
  The abstract view of the tables is \<open>schedule_of\<close>, a map from users and identifiers to schedules.
  \<open>revised\<close> is the change an update makes in that view.
\<close>

definition revised :: "env \<Rightarrow> time \<Rightarrow> ScheduleFields \<Rightarrow> Schedule \<Rightarrow> Schedule" where
  "revised e t f s = s\<lparr>s_Title := f_Title f, s_Description := f_Description f, s_Location := f_Location f,
     s_StartAt := dt3 e (f_StartAt f), s_EndAt := map_option (dt3 e) (f_EndAt f), s_AllDay := f_AllDay f,
     s_Timezone := f_Timezone f, s_StartDate := datePtr (nullDate (f_StartDate f)), s_EndDate := datePtr (nullDate (f_EndDate f)),
     s_Status := f_Status f, s_UpdatedAt := t, s_Revision := s_Revision s + 1\<rparr>"

lemma find_upd_other:
  "(\<And>r. hit r \<Longrightarrow> \<not> p r \<and> \<not> p (g r)) \<Longrightarrow> List.find p (upd_where hit g rs) = List.find p rs"
  by (induction rs) auto

lemma updated_row_key [simp]:
  "sr_ID (updated_row e t p s) = sr_ID s" "sr_UserID (updated_row e t p s) = sr_UserID s"
  by (simp_all add: updated_row_def)

lemma schedule_of_update:
  assumes d': "d' = d\<lparr>t_schedules := upd_where (\<lambda>s. sr_ID s = ident \<and> sr_UserID s = u) g (t_schedules d), t_outbox := obs\<rparr>"
    and g: "\<And>s. sr_ID (g s) = sr_ID s \<and> sr_UserID (g s) = sr_UserID s"
  shows "schedule_of d' v i = (if v = u \<and> i = ident
    then map_option (\<lambda>row. with_occurrence (occurrence_of d u ident) (mapSchedule (g row) (sorted_reminders d ident))) (schedule_row_of d u ident)
    else schedule_of d v i)"
proof -
  have owns: "owns d' = owns d" using owns_upd[of g, OF g] by (simp add: d' fun_eq_iff)
  have ts: "t_series d' = t_series d" "t_occurrences d' = t_occurrences d" by (simp_all add: d')
  have occ: "occurrence_of d' v i = occurrence_of d v i" for v i unfolding occurrence_of_def owns ts by (rule refl)
  have rem: "sorted_reminders d' = sorted_reminders d" by (simp add: sorted_reminders_def reminders_of_def d' fun_eq_iff)
  have row: "schedule_row_of d' v i = (if v = u \<and> i = ident then map_option g (schedule_row_of d u ident) else schedule_row_of d v i)"
  proof (cases "v = u \<and> i = ident")
    case True
    then show ?thesis using g by (simp add: schedule_row_of_def d' find_upd_where)
  next
    case False
    then show ?thesis using g by (auto simp: schedule_row_of_def d' intro!: find_upd_other)
  qed
  show ?thesis by (simp add: schedule_of_def row occ rem option.map_comp comp_def)
qed

lemma repo_UpdateSchedule_effect:
  assumes "repo_UpdateSchedule p e w = (Inr (), w')"
  shows "\<exists>t. w_db w' = (w_db w)\<lparr>t_schedules := upd_where (\<lambda>s. sr_ID s = up_ID p \<and> sr_UserID s = up_UserID p) (updated_row e t p) (t_schedules (w_db w))\<rparr>"
  using assms by (auto simp: repo_UpdateSchedule_def sql_run Let_def split: if_splits)

lemma write_fields_effect:
  assumes "write_fields u ident f e w = (Inr s', w')"
  shows "\<exists>t ob s. schedule_of (w_db w) u ident = Some s \<and> s' = revised e t f s
    \<and> w_db w' = (w_db w)\<lparr>t_schedules := upd_where (\<lambda>s. sr_ID s = ident \<and> sr_UserID s = u) (updated_row e t (update_params u ident f))
        (t_schedules (w_db w)), t_outbox := t_outbox (w_db w) @ [ob]\<rparr>
    \<and> schedule_event e SubjectScheduleUpdated s' ob
    \<and> (\<forall>v i. schedule_of (w_db w') v i = (if v = u \<and> i = ident then Some s' else schedule_of (w_db w) v i))"
proof -
  let ?p = "update_params u ident f"
  from assms obtain w1 w2 w3 where chain: "repo_UpdateSchedule ?p e w = (Inr (), w1)" "getSchedule u ident e w1 = (Inr s', w2)"
    "enqueueScheduleEvent SubjectScheduleUpdated s' e w2 = (Inr (), w3)" "w' = w3"
    by (auto simp: write_fields_def bnd_run ret_run)
  obtain t where w1: "w_db w1 = (w_db w)\<lparr>t_schedules := upd_where (\<lambda>s. sr_ID s = ident \<and> sr_UserID s = u) (updated_row e t ?p) (t_schedules (w_db w))\<rparr>"
    using repo_UpdateSchedule_effect[OF chain(1)] by (auto simp: update_params_def)
  have w2: "w_db w2 = w_db w1" "schedule_of (w_db w1) u ident = Some s'" using chain(2) by (auto simp: getSchedule_run)
  obtain ob where ob: "schedule_event e SubjectScheduleUpdated s' ob" "w_db w3 = (w_db w2)\<lparr>t_outbox := t_outbox (w_db w2) @ [ob]\<rparr>"
    by (rule enqueueScheduleEvent_effect[OF chain(3)])
  have w': "w_db w' = (w_db w)\<lparr>t_schedules := upd_where (\<lambda>s. sr_ID s = ident \<and> sr_UserID s = u) (updated_row e t ?p)
        (t_schedules (w_db w)), t_outbox := t_outbox (w_db w) @ [ob]\<rparr>"
    by (simp add: chain(4) ob(2) w2 w1)
  have same: "schedule_of (w_db w') u ident = Some s'"
    unfolding w2(2)[symmetric] by (rule schedule_of_tables) (simp_all add: w' w1)
  have view: "schedule_of (w_db w') v i = (if v = u \<and> i = ident
    then map_option (\<lambda>row. with_occurrence (occurrence_of (w_db w) u ident) (mapSchedule (updated_row e t ?p row) (sorted_reminders (w_db w) ident)))
      (schedule_row_of (w_db w) u ident)
    else schedule_of (w_db w) v i)" for v i
    by (rule schedule_of_update[OF w']) simp
  from same view[of u ident] obtain row where row: "schedule_row_of (w_db w) u ident = Some row"
    and s': "s' = with_occurrence (occurrence_of (w_db w) u ident) (mapSchedule (updated_row e t ?p row) (sorted_reminders (w_db w) ident))"
    by auto
  have "s' = revised e t f (with_occurrence (occurrence_of (w_db w) u ident) (mapSchedule row (sorted_reminders (w_db w) ident)))"
    by (simp add: s' revised_def with_occurrence_def mapSchedule_def updated_row_def update_params_def split: option.split prod.split)
  then have "\<exists>s. schedule_of (w_db w) u ident = Some s \<and> s' = revised e t f s"
    using row by (simp add: schedule_of_def)
  moreover have "schedule_of (w_db w') v i = (if v = u \<and> i = ident then Some s' else schedule_of (w_db w) v i)" for v i
    using same view[of v i] by auto
  ultimately show ?thesis using ob(1) w' by blast
qed

lemma update_with_run:
  assumes "update_with u ident [] h fresh e w = (Inr s, w')" and "\<And>w c w'. fresh e w = (Inr c, w') \<Longrightarrow> \<exists>y. c = Commit y"
  obtains b w0 w1 where "fresh e w0 = (Inr (Commit (s, b)), w1)" and "w_db w0 = w_db w" and "lease_only (w_db w1) (w_db w')"
proof -
  from assms(1) obtain b where "mutation (bnd (ensureAccountNotDeleted u) (\<lambda>_. fresh)) (\<lambda>r. if snd r then count_mutation ''cancel'' 1 else ret ()) e w
      = (Inr (s, b), w')"
    by (auto simp: update_with_def claim_key_def bnd_ret) (auto simp: bnd_run ret_run)
  then show thesis
    by (rule mutation_committed) (use assms(2) that in auto)
qed

lemma update_this_effect:
  assumes run: "UpdateSchedule u ident patch [] h e w = (Inr s', w')" and scope: "p_Scope patch \<noteq> ''following''"
  shows "\<exists>s f t. schedule_of (w_db w) u ident = Some s \<and> revision_matches patch (s_Revision s)
    \<and> mergeSchedulePatchFields (load_location e) s patch = Inr f \<and> validateScheduleFields f = Inr ()
    \<and> s' = revised e t f s
    \<and> (\<forall>v i. schedule_of (w_db w') v i = (if v = u \<and> i = ident then Some s' else schedule_of (w_db w) v i))
    \<and> announced e SubjectScheduleUpdated s' (w_db w) (w_db w')"
proof -
  have "update_with u ident [] h (update_fresh u ident patch []) e w = (Inr s', w')"
    using run scope by (auto simp: UpdateSchedule_def fail_run split: if_splits)
  then obtain b w0 w1 where fresh: "update_fresh u ident patch [] e w0 = (Inr (Commit (s', b)), w1)" and w0: "w_db w0 = w_db w"
    and lease: "lease_only (w_db w1) (w_db w')"
    by (rule update_with_run) (auto simp: update_fresh_def bnd_run ret_run)
  from fresh obtain n wa s wb f wc where chain: "lockScheduleRevision u ident e w0 = (Inr n, wa)" "revision_matches patch n"
    "getSchedule u ident e wa = (Inr s, wb)" "mergeSchedulePatchFields (load_location e) s patch = Inr f" "validateScheduleFields f = Inr ()"
    "write_fields u ident f e wb = (Inr s', wc)" "w1 = wc"
    by (auto simp: update_fresh_def bnd_run ret_run guard_run ask_run lift_run save_updated_def) blast+
  have s: "schedule_of (w_db w) u ident = Some s" "w_db wb = w_db w" and n: "s_Revision s = n"
    using chain(1,3) w0 by (auto simp: getSchedule_run lockScheduleRevision_run schedule_of_def)
  from write_fields_effect[OF chain(6)] obtain t ob where
    eff: "s' = revised e t f s" "t_outbox (w_db wc) = t_outbox (w_db w) @ [ob]" "schedule_event e SubjectScheduleUpdated s' ob"
      "\<forall>v i. schedule_of (w_db wc) v i = (if v = u \<and> i = ident then Some s' else schedule_of (w_db w) v i)"
    unfolding s(2) using s(1) by auto
  have "announced e SubjectScheduleUpdated s' (w_db w) (w_db w')"
    using eff(2,3) lease_only_tables(8)[OF lease] by (auto simp: announced_def chain(7))
  then show ?thesis
    using s(1) n chain(2,4,5) eff(1,4) schedule_of_lease[OF lease] unfolding chain(7) by auto
qed

text \<open>
  C9: An update of one schedule refines the abstract change. The user's own schedule, at the revision
  the request expects, becomes the schedule revised by the merged and validated fields, with its revision incremented by
  one; the result is what a read returns; what any user sees under any other identifier is unchanged;
  and one event announces the new state.\<close>

theorem UpdateSchedule_refines:
  assumes run: "UpdateSchedule u ident patch [] h e w = (Inr s', w')" and scope: "p_Scope patch \<noteq> ''following''"
  shows "\<exists>s f t. schedule_of (w_db w) u ident = Some s \<and> revision_matches patch (s_Revision s)
    \<and> mergeSchedulePatchFields (load_location e) s patch = Inr f \<and> validateScheduleFields f = Inr ()
    \<and> s' = revised e t f s
    \<and> (\<forall>v i. schedule_of (w_db w') v i = (if v = u \<and> i = ident then Some s' else schedule_of (w_db w) v i))
    \<and> announced e SubjectScheduleUpdated s' (w_db w) (w_db w')"
  using update_this_effect[OF assms] .

lemmas update_eval = delete_eval update_with_def update_fresh_def write_fields_def save_updated_def revision_matches_def getSchedule_def
  repo_GetSchedule_def repo_ListReminders_def loadOccurrenceMetadata_def repo_GetScheduleOccurrence_def repo_UpdateSchedule_def
  updated_row_def update_params_def mergeSchedulePatchFields_def all_day_fields_def apply_patch_def fields_of_def override_def
  validateScheduleFields_def enqueueScheduleEvent_def mapReminder_def mapSchedule_def with_occurrence_def toScheduleEvent_def
  status_ok_def nullDate_def datePtr_def max_int64_def owns_def

definition sample_patch :: SchedulePatch where
  "sample_patch = \<lparr>p_ExpectedRevision = Some 3, p_Scope = [], p_StartFold = [], p_EndFold = [], p_Title = Some ''retro'',
     p_Description = None, p_Location = None, p_StartAt = None, p_EndAt = None, p_AllDay = None, p_Timezone = None,
     p_StartDate = None, p_EndDate = None, p_Status = Some ''cancelled''\<rparr>"

lemma update_with_total:
  assumes "\<not> isl (fst (mutation (bnd (ensureAccountNotDeleted u) (\<lambda>_. bnd (claim_key u ident ''update'' key h) (\<lambda>replay.
        case replay of Some resp \<Rightarrow> update_replay u ident resp | None \<Rightarrow> fresh)))
       (\<lambda>r. if snd r then count_mutation ''cancel'' 1 else ret ()) e w))"
  shows "\<exists>s w'. update_with u ident key h fresh e w = (Inr s, w')"
  using success_run[OF assms] by (auto simp: update_with_def bnd_run ret_run)

lemma sample_update:
  "\<exists>s' w'. UpdateSchedule 1 11 sample_patch [] 0 sample_env (sample_world sample_db) = (Inr s', w')"
proof -
  have "\<not> isl (fst (mutation (bnd (ensureAccountNotDeleted 1) (\<lambda>_.
        bnd (claim_key 1 11 ''update'' [] 0) (\<lambda>replay.
        case replay of Some resp \<Rightarrow> update_replay 1 11 resp | None \<Rightarrow> update_fresh 1 11 sample_patch [])))
       (\<lambda>r. if snd r then count_mutation ''cancel'' 1 else ret ()) sample_env (sample_world sample_db)))"
    by (rule mutation_total) (simp_all add: update_eval sample_patch_def sample_defs)
  from update_with_total[OF this] show ?thesis
    by (simp add: UpdateSchedule_def) (simp add: sample_patch_def)
qed

lemma UpdateSchedule_refines_witness:
  "\<exists>s' w'. UpdateSchedule 1 11 sample_patch [] 0 sample_env (sample_world sample_db) = (Inr s', w')
     \<and> s_Title s' = ''retro'' \<and> s_Revision s' = 4 \<and> schedule_of (w_db w') 1 11 = Some s'
     \<and> schedule_of (w_db w') 2 12 = schedule_of sample_db 2 12"
proof -
  obtain s' w' where run: "UpdateSchedule 1 11 sample_patch [] 0 sample_env (sample_world sample_db) = (Inr s', w')"
    using sample_update by blast
  have scope: "p_Scope sample_patch \<noteq> ''following''" by (simp add: sample_patch_def)
  have rev: "map_option s_Revision (schedule_of sample_db 1 11) = Some 3" by code_simp
  from UpdateSchedule_refines[OF run scope] obtain s f t where
    eff: "schedule_of sample_db 1 11 = Some s" "mergeSchedulePatchFields (load_location sample_env) s sample_patch = Inr f" "s' = revised sample_env t f s"
      "\<forall>v i. schedule_of (w_db w') v i = (if v = 1 \<and> i = 11 then Some s' else schedule_of sample_db v i)" by auto
  have "f_Title f = ''retro''"
    using eff(2) by (auto simp: mergeSchedulePatchFields_def all_day_fields_def apply_patch_def override_def sample_patch_def Let_def
        split: if_splits option.splits)
  with eff rev run show ?thesis by (auto simp: revised_def)
qed

section \<open>Series\<close>

text \<open>What became of one target of a change of a series.\<close>

definition target_revised :: "env \<Rightarrow> uuid \<Rightarrow> SchedulePatch \<Rightarrow> ScheduleFields \<Rightarrow> series_shift \<Rightarrow> db \<Rightarrow> uuid \<Rightarrow> uuid \<times> Schedule \<Rightarrow> bool" where
  "target_revised e ident patch sel sh d u p \<longleftrightarrow> (\<exists>s f t. schedule_of d u (fst p) = Some s
     \<and> following_fields (load_location e) ident patch sel sh (fst p) s = Inr f \<and> validateScheduleFields f = Inr ()
     \<and> snd p = revised e t f s)"

lemma update_target_effect:
  assumes "update_target (load_location e) u ident patch sel sh i e w = (Inr p, w')"
  shows "fst p = i \<and> target_revised e ident patch sel sh (w_db w) u p
    \<and> (\<exists>ob. t_outbox (w_db w') = t_outbox (w_db w) @ [ob] \<and> schedule_event e SubjectScheduleUpdated (snd p) ob)
    \<and> (\<forall>v k. schedule_of (w_db w') v k = (if v = u \<and> k = i then Some (snd p) else schedule_of (w_db w) v k))"
proof -
  from assms obtain s w1 f s' where chain: "getSchedule u i e w = (Inr s, w1)" "following_fields (load_location e) ident patch sel sh i s = Inr f"
    "validateScheduleFields f = Inr ()" "write_fields u i f e w1 = (Inr s', w')" "p = (i, s')"
    by (auto simp: update_target_def bnd_run ret_run lift_run)
  have s: "schedule_of (w_db w) u i = Some s" "w_db w1 = w_db w" using chain(1) by (auto simp: getSchedule_run)
  from write_fields_effect[OF chain(4)] show ?thesis
    unfolding s(2) using s(1) chain(2,3,5) by (auto simp: target_revised_def)
qed

lemma target_revised_cong:
  "schedule_of d u (fst p) = schedule_of d' u (fst p) \<Longrightarrow> target_revised e ident patch sel sh d u p = target_revised e ident patch sel sh d' u p"
  by (simp add: target_revised_def)

lemma update_all_effect:
  assumes "collect ids (update_target (load_location e) u ident patch sel sh) e w = (Inr us, w')" and "distinct ids"
  shows "map fst us = ids \<and> list_all (target_revised e ident patch sel sh (w_db w) u) us
    \<and> (\<exists>obs. t_outbox (w_db w') = t_outbox (w_db w) @ obs \<and> list_all2 (\<lambda>p. schedule_event e SubjectScheduleUpdated (snd p)) us obs)
    \<and> (\<forall>v k. schedule_of (w_db w') v k = (if v = u \<and> k \<in> set ids then map_of us k else schedule_of (w_db w) v k))"
  using assms
proof (induction ids arbitrary: w us)
  case Nil
  then show ?case by (auto simp: ret_run)
next
  case (Cons i ids)
  then obtain p w1 us' where one: "update_target (load_location e) u ident patch sel sh i e w = (Inr p, w1)"
    and rest: "collect ids (update_target (load_location e) u ident patch sel sh) e w1 = (Inr us', w')" and us: "us = p # us'"
    by (auto simp: bnd_run ret_run)
  have dist: "distinct ids" "i \<notin> set ids" using Cons.prems by auto
  note a = update_target_effect[OF one] and b = Cons.IH[OF rest dist(1)]
  have "target_revised e ident patch sel sh (w_db w) u q" if "q \<in> set us'" for q
  proof -
    have "fst q \<in> set ids" using that b by force
    then have "schedule_of (w_db w1) u (fst q) = schedule_of (w_db w) u (fst q)" using a dist by auto
    then show ?thesis using b that target_revised_cong by (metis list_all_iff)
  qed
  then have "list_all (target_revised e ident patch sel sh (w_db w) u) us" using a us by (simp add: list_all_iff)
  moreover obtain ob obs where "t_outbox (w_db w1) = t_outbox (w_db w) @ [ob]" "schedule_event e SubjectScheduleUpdated (snd p) ob"
    "t_outbox (w_db w') = t_outbox (w_db w1) @ obs" "list_all2 (\<lambda>p. schedule_event e SubjectScheduleUpdated (snd p)) us' obs"
    using a b by blast
  then have "\<exists>obs. t_outbox (w_db w') = t_outbox (w_db w) @ obs \<and> list_all2 (\<lambda>p. schedule_event e SubjectScheduleUpdated (snd p)) us obs"
    using us by (intro exI[of _ "ob # obs"]) simp
  moreover have "schedule_of (w_db w') v k = (if v = u \<and> k \<in> set (i # ids) then map_of us k else schedule_of (w_db w) v k)" for v k
    using a b us dist by (cases p) auto
  ultimately show ?case using a b us by simp
qed

lemma selected_updated_mem: "selected_updated ident us = Some s \<Longrightarrow> (ident, s) \<in> set us"
proof -
  have "fold (\<lambda>(i, sch) acc. if i = ident then Some sch else acc) us acc = Some s \<Longrightarrow> (ident, s) \<in> set us \<or> acc = Some s" for acc
    by (induction us arbitrary: acc) (fastforce split: if_splits)+
  from this[of None] show "selected_updated ident us = Some s \<Longrightarrow> ?thesis" by (simp add: selected_updated_def)
qed

lemma distinct_following_ids: "db_wf d \<Longrightarrow> distinct (following_ids seriesID ident d)"
  by (auto simp: following_ids_def db_wf_def keys_ok_def distinct_map_filter_keys split: option.split)

text \<open>The outcome of a change of a series, in the abstract view.\<close>

definition series_revised :: "env \<Rightarrow> uuid \<Rightarrow> uuid \<Rightarrow> SchedulePatch \<Rightarrow> uuid list \<Rightarrow> Schedule \<Rightarrow> db \<Rightarrow> db \<Rightarrow> bool" where
  "series_revised e u ident patch ids s' a b \<longleftrightarrow> (\<exists>s sel us. schedule_of a u ident = Some s \<and> revision_matches patch (s_Revision s)
     \<and> mergeSchedulePatchFields (load_location e) s patch = Inr sel
     \<and> map fst us = ids \<and> (ident, s') \<in> set us
     \<and> list_all (target_revised e ident patch sel (series_shift_of (load_location e) s sel) a u) us
     \<and> (\<forall>v k. schedule_of b v k = (if v = u \<and> k \<in> set ids then map_of us k else schedule_of a v k))
     \<and> (\<exists>obs. map outbox_identity (t_outbox b) = map outbox_identity (t_outbox a) @ map outbox_identity obs
          \<and> list_all2 (\<lambda>p. schedule_event e SubjectScheduleUpdated (snd p)) us obs))"

lemma update_targets_effect:
  assumes "update_targets u ident patch [] seriesID e w = (Inr c, w')" and wf: "db_wf (w_db w)"
    and occ: "occurrence_of (w_db w) u ident = Some (seriesID, idx, rule)"
  shows "\<exists>s'. c = Commit (s', False) \<and> series_revised e u ident patch (following_ids seriesID ident (w_db w)) s' (w_db w) (w_db w')"
proof -
  let ?ids = "following_ids seriesID ident (w_db w)" and ?load = "load_location e"
  from assms(1) obtain targets w2 s w3 sel us s' where
    chain: "lock_targets u ?ids e (w\<lparr>w_step := Suc (w_step w)\<rparr>) = (Inr targets, w2)"
      "revision_matches patch (selected_revision ident targets)" "getSchedule u ident e w2 = (Inr s, w3)"
      "mergeSchedulePatchFields ?load s patch = Inr sel"
      "collect (map fst targets) (update_target ?load u ident patch sel (series_shift_of ?load s sel)) e w3 = (Inr us, w')"
      "selected_updated ident us = Some s'" "c = Commit (s', False)"
    by (auto simp: update_targets_def bnd_run ret_run guard_run query_run ask_run lift_run fail_run save_updated_def split: option.splits)
  have targets: "targets = map (\<lambda>i. (i, revision_of (w_db w) u i)) ?ids" and w2: "w_db w2 = w_db w"
    using lock_targets_run[OF chain(1)] by auto
  have s: "schedule_of (w_db w) u ident = Some s" "w_db w3 = w_db w" using chain(3) w2 by (auto simp: getSchedule_run)
  have fsts: "map fst targets = ?ids" by (simp add: targets comp_def)
  note all = update_all_effect[OF chain(5)[unfolded fsts] distinct_following_ids[OF wf], unfolded s(2)]
  obtain obs where "t_outbox (w_db w') = t_outbox (w_db w) @ obs" "list_all2 (\<lambda>p. schedule_event e SubjectScheduleUpdated (snd p)) us obs"
    using all by blast
  then have events: "\<exists>obs. map outbox_identity (t_outbox (w_db w')) = map outbox_identity (t_outbox (w_db w)) @ map outbox_identity obs
          \<and> list_all2 (\<lambda>p. schedule_event e SubjectScheduleUpdated (snd p)) us obs" by auto
  have "selected_revision ident targets = s_Revision s"
    using selected_revision_map[OF conjunct2[OF following_ids_set[OF occ]], of "revision_of (w_db w) u"] s(1)
    by (auto simp: targets revision_of_def schedule_of_def)
  with chain(2) have "revision_matches patch (s_Revision s)" by simp
  then have "series_revised e u ident patch ?ids s' (w_db w) (w_db w')"
    unfolding series_revised_def
    using all events chain(4) selected_updated_mem[OF chain(6)] s(1) by (intro exI[of _ s] exI[of _ sel] exI[of _ us]) simp
  with chain(7) show ?thesis by blast
qed

lemma update_following_commits: "update_following_fresh u ident patch key e w = (Inr c, w') \<Longrightarrow> \<exists>y. c = Commit y"
  by (cases c) (auto simp: update_following_fresh_def update_targets_def bnd_run ret_run fail_run split: option.splits)

lemma update_following_effect:
  assumes run: "UpdateSchedule u ident patch [] h e w = (Inr s', w')" and scope: "p_Scope patch = ''following''" and wf: "db_wf (w_db w)"
  shows "\<exists>seriesID idx rule. occurrence_of (w_db w) u ident = Some (seriesID, idx, rule)
    \<and> series_revised e u ident patch (following_ids seriesID ident (w_db w)) s' (w_db w) (w_db w')"
proof -
  have "update_with u ident [] h (update_following_fresh u ident patch []) e w = (Inr s', w')"
    using run scope by (simp add: UpdateSchedule_def updateScheduleFollowing_def)
  then obtain b w0 w1 where fresh: "update_following_fresh u ident patch [] e w0 = (Inr (Commit (s', b)), w1)" and w0: "w_db w0 = w_db w"
    and lease: "lease_only (w_db w1) (w_db w')"
    by (rule update_with_run) (auto dest: update_following_commits)
  from fresh obtain seriesID idx rule where occ: "occurrence_of (w_db w) u ident = Some (seriesID, idx, rule)"
    and targets: "update_targets u ident patch [] seriesID e (w0\<lparr>w_step := Suc (w_step w0)\<rparr>) = (Inr (Commit (s', b)), w1)"
    by (auto simp: update_following_fresh_def bnd_run fail_run repo_GetScheduleOccurrence_run w0 split: option.splits)
  have "series_revised e u ident patch (following_ids seriesID ident (w_db w)) s' (w_db w) (w_db w1)"
    using update_targets_effect[OF targets] wf occ by (simp add: w0)
  then have "series_revised e u ident patch (following_ids seriesID ident (w_db w)) s' (w_db w) (w_db w')"
    by (simp only: series_revised_def schedule_of_lease[OF lease] lease_only_tables(8)[OF lease])
  with occ show ?thesis by blast
qed

text \<open>
  C10: A change with scope \<open>following\<close> revises exactly the selected occurrence and the later ones of its
  series, in the user's own view: each becomes its old state revised by the fields computed for it, with its revision
  incremented by one; what any user sees under any other identifier is unchanged, and the outbox receives one
  event with the new state of each, in the order of the series.\<close>

theorem updateScheduleFollowing_refines:
  assumes run: "UpdateSchedule u ident patch [] h e w = (Inr s', w')" and scope: "p_Scope patch = ''following''" and wf: "db_wf (w_db w)"
  shows "\<exists>seriesID idx rule. occurrence_of (w_db w) u ident = Some (seriesID, idx, rule)
    \<and> series_revised e u ident patch (following_ids seriesID ident (w_db w)) s' (w_db w) (w_db w')"
  using update_following_effect[OF assms] .

definition sample_series_patch :: SchedulePatch where
  "sample_series_patch = sample_patch\<lparr>p_Scope := ''following'', p_Status := None\<rparr>"

lemma sample_later_ok: "json_time_ok day" "json_time_ok 90000000000000" "json_time_ok 172800000000000" "json_time_ok 176400000000000"
  by code_simp+

lemma sample_series_update:
  "\<exists>s' w'. UpdateSchedule 1 42 sample_series_patch [] 0 sample_env (sample_world sample_series_db) = (Inr s', w')"
proof -
  have "\<not> isl (fst (mutation (bnd (ensureAccountNotDeleted 1) (\<lambda>_.
        bnd (claim_key 1 42 ''update'' [] 0) (\<lambda>replay.
        case replay of Some resp \<Rightarrow> update_replay 1 42 resp | None \<Rightarrow> update_following_fresh 1 42 sample_series_patch [])))
       (\<lambda>r. if snd r then count_mutation ''cancel'' 1 else ret ()) sample_env (sample_world sample_series_db)))"
    by (rule mutation_total) (simp_all add: update_eval update_following_fresh_def update_targets_def update_target_def following_fields_def
        following_ids_def selected_revision_def selected_updated_def sample_series_patch_def sample_patch_def sample_series_defs sample_defs sample_later_ok)
  from update_with_total[OF this] show ?thesis
    by (simp add: UpdateSchedule_def updateScheduleFollowing_def) (simp add: sample_series_patch_def)
qed

lemma updateScheduleFollowing_refines_witness:
  "\<exists>s' w'. UpdateSchedule 1 42 sample_series_patch [] 0 sample_env (sample_world sample_series_db) = (Inr s', w')
     \<and> schedule_of (w_db w') 1 41 = schedule_of sample_series_db 1 41"
proof -
  obtain s' w' where run: "UpdateSchedule 1 42 sample_series_patch [] 0 sample_env (sample_world sample_series_db) = (Inr s', w')"
    using sample_series_update by blast
  have scope: "p_Scope sample_series_patch = ''following''" by (simp add: sample_series_patch_def)
  have occ: "occurrence_of sample_series_db 1 42 = Some (5, 1, sample_rule)" and ids: "41 \<notin> set (following_ids 5 42 sample_series_db)"
    by code_simp+
  obtain k i rule where o: "occurrence_of sample_series_db 1 42 = Some (k, i, rule)"
    and rev: "series_revised sample_env 1 42 sample_series_patch (following_ids k 42 sample_series_db) s' sample_series_db (w_db w')"
    using updateScheduleFollowing_refines[OF run scope, unfolded sample_world_simps, OF sample_series_db_wf] by blast
  from o occ have "k = 5" by simp
  with rev ids have "schedule_of (w_db w') 1 41 = schedule_of sample_series_db 1 41" unfolding series_revised_def by auto
  with run show ?thesis by (intro exI conjI)
qed

section \<open>Merging and revisions\<close>



lemma UpdateSchedule_revision:
  assumes run: "UpdateSchedule u ident patch [] h e w = (Inr s', w')" and wf: "db_wf (w_db w)"
  shows "\<exists>s. schedule_of (w_db w) u ident = Some s \<and> revision_matches patch (s_Revision s)
    \<and> schedule_of (w_db w') u ident = Some s' \<and> s_Revision s' = s_Revision s + 1"
proof (cases "p_Scope patch = ''following''")
  case False
  from update_this_effect[OF run this] show ?thesis by (auto simp: revised_def)
next
  case True
  from update_following_effect[OF run True wf] obtain seriesID idx rule where occ: "occurrence_of (w_db w) u ident = Some (seriesID, idx, rule)"
    and "series_revised e u ident patch (following_ids seriesID ident (w_db w)) s' (w_db w) (w_db w')" by blast
  then obtain s sel us where r: "schedule_of (w_db w) u ident = Some s" "revision_matches patch (s_Revision s)"
      "map fst us = following_ids seriesID ident (w_db w)" "(ident, s') \<in> set us"
      "list_all (target_revised e ident patch sel (series_shift_of (load_location e) s sel) (w_db w) u) us"
      "\<forall>v k. schedule_of (w_db w') v k = (if v = u \<and> k \<in> set (following_ids seriesID ident (w_db w)) then map_of us k else schedule_of (w_db w) v k)"
    unfolding series_revised_def by blast
  have "map_of us ident = Some s'" using r(3,4) distinct_following_ids[OF wf] by (simp add: map_of_is_SomeI)
  moreover have "s_Revision s' = s_Revision s + 1"
    using r(1,4,5) by (auto simp: list_all_iff target_revised_def revised_def)
  ultimately show ?thesis using r(1,2,6) following_ids_set[OF occ] by auto
qed

text \<open>
  C2: No update is lost. Of two updates that expect the same revision at most one succeeds: once the
  first has committed, the second, seeing the schedule as the first left it, is refused and changes nothing.\<close>

theorem no_lost_update:
  assumes first: "UpdateSchedule u ident p1 [] h1 e1 w = (Inr s', w1)" and wf: "db_wf (w_db w)"
    and second: "UpdateSchedule u ident p2 [] h2 e2 w2 = (r, w3)" and wf2: "db_wf (w_db w2)"
    and same: "p_ExpectedRevision p1 = Some v" "p_ExpectedRevision p2 = Some v"
    and sees: "schedule_of (w_db w2) u ident = schedule_of (w_db w1) u ident"
  shows "\<exists>er. r = Inl er \<and> w_db w3 = w_db w2"
proof (cases r)
  case (Inr s2)
  from UpdateSchedule_revision[OF first wf] UpdateSchedule_revision[OF second[unfolded Inr] wf2] same sees
  show ?thesis by (auto simp: revision_matches_def)
next
  case (Inl er)
  have "w_db w3 = w_db w2" if "update_with u ident [] h2 fresh e2 w2 = (Inl er, w3)" for fresh
  proof -
    have "fst (bnd m (\<lambda>r. ret (fst r)) e2 w2) = Inl er \<Longrightarrow> m e2 w2 = (Inl er, snd (bnd m (\<lambda>r. ret (fst r)) e2 w2))" for m :: "(Schedule \<times> bool) tx"
      by (auto simp: bnd_def ret_def split: prod.splits sum.splits)
    with that show ?thesis unfolding update_with_def by (metis (no_types, lifting) fst_conv snd_conv mutation_error metrics_only_simps)
  qed
  with second Inl show ?thesis
    by (auto simp: UpdateSchedule_def updateScheduleFollowing_def fail_def split: if_splits)
qed

lemma no_lost_update_witness:
  "\<exists>s' w1 er w3. UpdateSchedule 1 11 sample_patch [] 0 sample_env (sample_world sample_db) = (Inr s', w1)
     \<and> UpdateSchedule 1 11 sample_patch [] 0 sample_env w1 = (Inl er, w3) \<and> w_db w3 = w_db w1"
proof -
  obtain s' w1 where run: "UpdateSchedule 1 11 sample_patch [] 0 sample_env (sample_world sample_db) = (Inr s', w1)"
    using sample_update by blast
  have wf: "db_wf (w_db (sample_world sample_db))" using sample_db_wf by simp
  have wf1: "db_wf (w_db w1)"
    using stepsD[OF integrity.keeps_UpdateSchedule, of _ _ _ _ _ sample_env "sample_world sample_db"] wf run by (simp add: keeps_def)
  obtain r w3 where second: "UpdateSchedule 1 11 sample_patch [] 0 sample_env w1 = (r, w3)" by (meson surj_pair)
  have v: "p_ExpectedRevision sample_patch = Some 3" by (simp add: sample_patch_def)
  from no_lost_update[OF run wf second wf1 v v refl] obtain er where er: "r = Inl er" "w_db w3 = w_db w1" by blast
  with second have "UpdateSchedule 1 11 sample_patch [] 0 sample_env w1 = (Inl er, w3)" by simp
  with run er(2) show ?thesis by (intro exI conjI)
qed

end
