(* ===== verification/SeriesShift.thy ===== *)
theory SeriesShift
  imports Patch Recurrence
begin

text \<open>
  How far a change of a series moves the occurrences after the selected one (the loop of
  \<open>updateScheduleFollowing\<close> in \<open>internal/service/schedules.go\<close>), worked out for zones that never
  change their offset.
\<close>

lemma resolveServiceWall_fixed:
  assumes "load z = Some (fixed_zone c)"
  shows "resolveServiceWall load w z fld = Some (w - c * second)"
  by (simp add: resolveServiceWall_def assms probe_deltas_def)

lemma shift_timed_fixed:
  assumes "load (f_Timezone f) = Some (fixed_zone b)" and "shift_timed load patch sel sh t f = Inr g"
  shows "f_StartAt g = s_StartAt t + sh_wall sh"
    and "f_EndAt g = (if p_EndAt patch = Some None \<or> f_EndAt sel = None then None else Some (f_StartAt g + sh_duration sh))"
  using assms(2) by (auto simp: shift_timed_def assms(1) resolveServiceWall_fixed[of load "f_Timezone f" b] wallClockService_def Let_def split: if_splits)


definition sample_load :: "string \<Rightarrow> location option" where
  "sample_load z = (if z = ''UTC'' then Some (fixed_zone 0) else if z = ''Asia/Seoul'' then Some (fixed_zone 32400) else None)"


end
