(* ===== verification/Extract.thy ===== *)
theory Extract
  imports Account Gemini
begin

text \<open>
  Extraction of schedules from text, \<open>internal/service/extract.go\<close>: the admission of a request, the
  call of the model, the marking of likely duplicates, the audit row, and the end of the admission; and
  the clearing of retained content, \<open>cmd/cleanup-extractions\<close>. MySQL's \<open>LOWER(TRIM(title))\<close> is the
  parameter \<open>fold_title\<close>; the answers of the model are those of \<open>Gemini\<close>.

  Extraction changes its own three tables only: every operation is a step of \<open>ai_only\<close>, by the
  interpretation of \<open>db_relation\<close> on it.
\<close>

section \<open>Types\<close>

record svc_ExtractInput =
  sx_Text :: string
  sx_Now :: time
  sx_Timezone :: string
  sx_APIKey :: string

record ExtractCandidate =
  xc_Title :: string
  xc_StartAt :: "time option"
  xc_EndAt :: "time option"
  xc_AllDay :: bool
  xc_Location :: "string option"
  xc_Description :: string
  xc_Confidence :: rat
  xc_NeedsConfirmation :: bool
  xc_Issues :: "string list"

datatype extract_error =
    ServiceError err
  | ErrExtractKeyUnavailable | ErrExtractInvalidKey | ErrExtractModelUnavailable | ErrExtractUpstreamUnavailable
  | ExtractRateLimitedError duration
  | OtherAIError ai_error

section \<open>Admission\<close>

definition insert_ai_user :: "uuid \<Rightarrow> db \<Rightarrow> db" where
  "insert_ai_user userID d = (if userID \<in> set (t_ai_users d) then d else d\<lparr>t_ai_users := t_ai_users d @ [userID]\<rparr>)"

definition drop_old_admissions :: "uuid \<Rightarrow> time \<Rightarrow> db \<Rightarrow> db" where
  "drop_old_admissions userID now d = d\<lparr>t_admissions :=
     filter (\<lambda>r. \<not> (ad_UserID r = userID \<and> ad_StartedAt r \<le> now - 60 * second)) (t_admissions d)\<rparr>"

definition admissions_of :: "uuid \<Rightarrow> db \<Rightarrow> admission_row list" where
  "admissions_of userID d = filter (\<lambda>r. ad_UserID r = userID) (t_admissions d)"

definition active_admission :: "time \<Rightarrow> admission_row \<Rightarrow> bool" where
  "active_admission now r \<longleftrightarrow> ad_FinishedAt r = None \<and> now - 20 * second < ad_StartedAt r"

definition count_admissions :: "uuid \<Rightarrow> (nat \<times> nat) tx" where
  "count_admissions userID = sql (\<lambda>e n d.
     let rows = admissions_of userID d
     in Inr ((length rows, length (filter (active_admission (now_at e n)) rows)), d))"

definition insert_admission :: "uuid \<Rightarrow> uuid \<Rightarrow> unit tx" where
  "insert_admission requestID userID = sql (\<lambda>e n d.
     if \<exists>r \<in> set (t_admissions d). ad_ID r = requestID then Inl MySQLDuplicate
     else Inr ((), d\<lparr>t_admissions := t_admissions d @
       [\<lparr>ad_ID = requestID, ad_UserID = userID, ad_StartedAt = now_at e n, ad_FinishedAt = None\<rparr>]\<rparr>))"

definition admit_body :: "uuid \<Rightarrow> uuid \<Rightarrow> uuid outcome tx" where
  "admit_body userID requestID =
     bnd (ensureAccountNotDeleted userID) (\<lambda>_.
     bnd (exec (insert_ai_user userID)) (\<lambda>_.
     bnd (query (\<lambda>d. userID \<in> set (t_ai_users d))) (\<lambda>locked.
     bnd (guard locked DBError) (\<lambda>_.
     bnd (exec_now (drop_old_admissions userID)) (\<lambda>_.
     bnd (count_admissions userID) (\<lambda>counts.
     bnd (guard (snd counts = 0) ErrExtractBusy) (\<lambda>_.
     bnd (guard (fst counts < 5) ErrExtractUserRateLimited) (\<lambda>_.
     bnd (insert_admission requestID userID) (\<lambda>_.
     ret (Commit requestID))))))))))"

definition admitExtraction :: "uuid \<Rightarrow> uuid tx" where
  "admitExtraction userID =
     bnd new_uuid (\<lambda>requestID. bnd (run_tx (admit_body userID requestID)) (\<lambda>r. ret (outcome_value r)))"

definition finishExtraction :: "uuid \<Rightarrow> unit tx" where
  "finishExtraction requestID = rescue (exec_now (\<lambda>now d. d\<lparr>t_admissions :=
     upd_where (\<lambda>r. ad_ID r = requestID) (\<lambda>r. r\<lparr>ad_FinishedAt := Some now\<rparr>) (t_admissions d)\<rparr>)) (\<lambda>_. ret ())"

section \<open>The audit row\<close>

definition recordExtraction :: "uuid \<Rightarrow> string \<Rightarrow> int \<Rightarrow> string \<Rightarrow> int \<Rightarrow> unit tx" where
  "recordExtraction userID model inputBytes status latencyMs =
     rescue
      (bnd new_uuid (\<lambda>ident.
       bnd (run_tx (
         bnd (ensureAccountNotDeleted userID) (\<lambda>_.
         bnd (repo_CreateExtraction ident userID model (int32 inputBytes) status (Some latencyMs)) (\<lambda>_.
         ret (Commit ()))))) (\<lambda>_. ret ())))
      (\<lambda>_. ret ())"

section \<open>Candidates\<close>

definition toExtractCandidates :: "Candidate list \<Rightarrow> ExtractCandidate list" where
  "toExtractCandidates cs = map (\<lambda>c. \<lparr>xc_Title = c_Title c, xc_StartAt = c_StartAt c, xc_EndAt = c_EndAt c,
     xc_AllDay = c_AllDay c, xc_Location = c_Location c, xc_Description = c_Description c,
     xc_Confidence = c_Confidence c, xc_NeedsConfirmation = c_NeedsConfirmation c, xc_Issues = c_Issues c\<rparr>) cs"

definition candidate_period :: "location \<Rightarrow> ExtractCandidate \<Rightarrow> time \<Rightarrow> time \<times> time" where
  "candidate_period zone c start =
     (if xc_AllDay c
      then (let from = midnight zone (date_in zone start)
            in (from, case xc_EndAt c of None \<Rightarrow> add_date zone from 0 0 1 | Some t \<Rightarrow> midnight zone (date_in zone t)))
      else (start, case xc_EndAt c of None \<Rightarrow> start + millisecond | Some t \<Rightarrow> t))"

definition duplicate_of :: "env \<Rightarrow> (string \<Rightarrow> string) \<Rightarrow> uuid \<Rightarrow> string \<Rightarrow> time \<times> time \<Rightarrow> schedule_row \<Rightarrow> bool" where
  "duplicate_of e fold_title userID title period s \<longleftrightarrow> sr_UserID s = userID \<and> sr_Status s \<noteq> ''cancelled''
     \<and> fold_title (sr_Title s) = fold_title title \<and> sr_StartAt s < arg_time e (snd period)
     \<and> arg_time e (fst period) < (case sr_EndAt s of None \<Rightarrow> sr_StartAt s + millisecond | Some t \<Rightarrow> t)"

definition containsString :: "string list \<Rightarrow> string \<Rightarrow> bool" where
  "containsString values target \<longleftrightarrow> target \<in> set values"

definition mark_duplicate :: "ExtractCandidate \<Rightarrow> ExtractCandidate" where
  "mark_duplicate c = c\<lparr>xc_NeedsConfirmation := True,
     xc_Issues := (if containsString (xc_Issues c) ''possible_duplicate'' then xc_Issues c
                   else xc_Issues c @ [''possible_duplicate''])\<rparr>"

definition mark_candidate :: "(string \<Rightarrow> string) \<Rightarrow> uuid \<Rightarrow> location \<Rightarrow> ExtractCandidate \<Rightarrow> ExtractCandidate tx" where
  "mark_candidate fold_title userID zone c =
     (case xc_StartAt c of
        None \<Rightarrow> ret c
      | Some start \<Rightarrow>
          if TrimSpace (xc_Title c) = [] then ret c
          else (let period = candidate_period zone c start in
            if \<not> fst period < snd period then ret c
            else bnd (sql (\<lambda>e n d. Inr (\<exists>s \<in> set (t_schedules d). duplicate_of e fold_title userID (xc_Title c) period s, d)))
                   (\<lambda>duplicate. ret (if duplicate then mark_duplicate c else c))))"

definition markPossibleDuplicates :: "(string \<Rightarrow> string) \<Rightarrow> uuid \<Rightarrow> string \<Rightarrow> ExtractCandidate list \<Rightarrow> ExtractCandidate list tx" where
  "markPossibleDuplicates fold_title userID timezone candidates =
     bnd (ask (\<lambda>e. load_location e timezone)) (\<lambda>zone.
       case zone of None \<Rightarrow> fail ZoneError | Some z \<Rightarrow> collect candidates (mark_candidate fold_title userID z))"

section \<open>Extraction\<close>

fun extract_error_of :: "ai_error \<Rightarrow> extract_error" where
  "extract_error_of ErrMissingAPIKey = ErrExtractKeyUnavailable"
| "extract_error_of ErrInvalidAPIKey = ErrExtractInvalidKey"
| "extract_error_of ErrModelUnavailable = ErrExtractModelUnavailable"
| "extract_error_of ErrUpstreamUnavailable = ErrExtractUpstreamUnavailable"
| "extract_error_of (RateLimitedError d) = ExtractRateLimitedError d"
| "extract_error_of er = OtherAIError er"

text \<open>What happens between the admission and its end. \<open>latency\<close> is the measured time in milliseconds.\<close>

definition extract_admitted :: "gemini \<Rightarrow> ai_call \<Rightarrow> int \<Rightarrow> (string \<Rightarrow> string) \<Rightarrow> uuid \<Rightarrow> svc_ExtractInput \<Rightarrow> env \<Rightarrow> world
    \<Rightarrow> (extract_error + ExtractCandidate list \<times> bool) \<times> world" where
  "extract_admitted g call latency fold_title userID inp e w =
     (let record_row = (\<lambda>status w. snd (recordExtraction userID (g_model g) (int (length (sx_Text inp))) status (int32 latency) e w))
      in case fst (Extract g (sx_APIKey inp) call) of
           Inl er \<Rightarrow> (Inl (extract_error_of er), record_row ''failed'' w)
         | Inr result \<Rightarrow>
             (case markPossibleDuplicates fold_title userID (sx_Timezone inp) (toExtractCandidates (er_Candidates result)) e w of
                (Inl er, w') \<Rightarrow> (Inl (ServiceError er), w')
              | (Inr candidates, w') \<Rightarrow> (Inr (candidates, er_Truncated result), record_row ''success'' w')))"

definition ExtractSchedules :: "gemini \<Rightarrow> ai_call \<Rightarrow> int \<Rightarrow> (string \<Rightarrow> string) \<Rightarrow> uuid \<Rightarrow> svc_ExtractInput \<Rightarrow> env \<Rightarrow> world
    \<Rightarrow> (extract_error + ExtractCandidate list \<times> bool) \<times> world" where
  "ExtractSchedules g call latency fold_title userID inp e w =
     (case admitExtraction userID e w of
        (Inl er, w1) \<Rightarrow> (Inl (ServiceError er), w1)
      | (Inr requestID, w1) \<Rightarrow>
          (case extract_admitted g call latency fold_title userID inp e w1 of (res, w2) \<Rightarrow>
             (res, snd (finishExtraction requestID e w2))))"

section \<open>Clearing retained content\<close>

definition retained :: "time \<Rightarrow> extraction_row \<Rightarrow> bool" where
  "retained before r \<longleftrightarrow> ex_CreatedAt r < before \<and> (ex_RawText r \<noteq> None \<or> ex_ResultJson r \<noteq> None)"

text \<open>The number that is printed; \<open>apply\<close> is the flag of the command line.\<close>

definition cleanup_extractions :: "time \<Rightarrow> bool \<Rightarrow> nat tx" where
  "cleanup_extractions before do_apply =
     bnd (sql (\<lambda>e n d. Inr (length (filter (retained (arg_time e before)) (t_extractions d)), d))) (\<lambda>count.
     if \<not> do_apply then ret count
     else sql (\<lambda>e n d. Inr (length (filter (retained (arg_time e before)) (t_extractions d)),
            d\<lparr>t_extractions := upd_where (retained (arg_time e before))
                (\<lambda>r. r\<lparr>ex_RawText := None, ex_ResultJson := None\<rparr>) (t_extractions d)\<rparr>)))"

section \<open>Admissions\<close>

lemma insert_ai_user_fields [simp]:
  "t_admissions (insert_ai_user u d) = t_admissions d" "t_extractions (insert_ai_user u d) = t_extractions d"
  "t_tombstones (insert_ai_user u d) = t_tombstones d" "u \<in> set (t_ai_users (insert_ai_user u d))"
  by (simp_all add: insert_ai_user_def)

text \<open>The tables after an admission at the instants \<open>t1\<close> (old rows dropped) and \<open>t3\<close> (new row).\<close>

definition admitted_db :: "uuid \<Rightarrow> uuid \<Rightarrow> time \<Rightarrow> time \<Rightarrow> db \<Rightarrow> db" where
  "admitted_db u i t1 t3 d = (let d1 = drop_old_admissions u t1 (insert_ai_user u d) in d1\<lparr>t_admissions :=
     t_admissions d1 @ [\<lparr>ad_ID = i, ad_UserID = u, ad_StartedAt = t3, ad_FinishedAt = None\<rparr>]\<rparr>)"

lemma count_admissions_run [tx_run]:
  "count_admissions u e w = (Inr c, w') \<longleftrightarrow> \<not> fault_at e (w_step w) \<and> w' = w\<lparr>w_step := Suc (w_step w)\<rparr>
     \<and> c = (length (admissions_of u (w_db w)), length (filter (active_admission (now_at e (w_step w))) (admissions_of u (w_db w))))"
  by (auto simp: count_admissions_def tx_run Let_def)

lemma insert_admission_run [tx_run]:
  "insert_admission i u e w = (Inr y, w') \<longleftrightarrow> \<not> fault_at e (w_step w) \<and> (\<forall>a \<in> set (t_admissions (w_db w)). ad_ID a \<noteq> i)
     \<and> w' = w\<lparr>w_step := Suc (w_step w), w_db := (w_db w)\<lparr>t_admissions := t_admissions (w_db w) @
         [\<lparr>ad_ID = i, ad_UserID = u, ad_StartedAt = now_at e (w_step w), ad_FinishedAt = None\<rparr>]\<rparr>\<rparr>"
  by (auto simp: insert_admission_def tx_run)

lemma admit_body_run:
  assumes "admit_body u i e w = (Inr r, w')"
  defines "t1 \<equiv> now_at e (w_step w + 3)" and "t2 \<equiv> now_at e (w_step w + 4)" and "t3 \<equiv> now_at e (w_step w + 5)"
  defines "d1 \<equiv> drop_old_admissions u t1 (insert_ai_user u (w_db w))"
  shows "u \<notin> set (t_tombstones (w_db w)) \<and> (\<forall>a \<in> set (admissions_of u d1). \<not> active_admission t2 a)
    \<and> length (admissions_of u d1) < 5 \<and> (\<forall>a \<in> set (t_admissions d1). ad_ID a \<noteq> i) \<and> r = Commit i
    \<and> w_step w' = w_step w + 6 \<and> w_db w' = admitted_db u i t1 t3 (w_db w)"
proof -
  have steps: "Suc (Suc (Suc n)) = n + 3" "Suc (n + 3) = n + 4" "Suc (n + 4) = n + 5" "Suc (n + 5) = n + 6" for n :: nat by simp_all
  show ?thesis
    using assms(1) unfolding admit_body_def
    by (clarsimp simp: bnd_run guard_run ret_run ensureAccountNotDeleted_run exec_run query_run exec_now_run count_admissions_run
        insert_admission_run steps filter_empty_conv d1_def t1_def t2_def t3_def admitted_db_def Let_def)
qed

lemma admitExtraction_run:
  assumes "admitExtraction u e w = (Inr i, w')"
  defines "t1 \<equiv> now_at e (w_step w + 4)" and "t2 \<equiv> now_at e (w_step w + 5)" and "t3 \<equiv> now_at e (w_step w + 6)"
  defines "d1 \<equiv> drop_old_admissions u t1 (insert_ai_user u (w_db w))"
  shows "u \<notin> set (t_tombstones (w_db w)) \<and> (\<forall>a \<in> set (admissions_of u d1). \<not> active_admission t2 a)
    \<and> length (admissions_of u d1) < 5 \<and> (\<forall>a \<in> set (t_admissions d1). ad_ID a \<noteq> i)
    \<and> w_step w' = w_step w + 8 \<and> w_db w' = admitted_db u i t1 t3 (w_db w)"
proof -
  have steps: "Suc n + 3 = n + 4" "Suc n + 4 = n + 5" "Suc n + 5 = n + 6" "Suc n + 6 = n + 7" "Suc (n + 7) = n + 8" for n :: nat by simp_all
  from assms(1) obtain r w1 w2 where "w1 = w\<lparr>w_ids := Suc (w_ids w)\<rparr>" and run: "run_tx (admit_body u r) e w1 = (Inr (Commit i), w')
      \<or> run_tx (admit_body u r) e w1 = (Inr (Early i), w')"
    unfolding admitExtraction_def by (auto simp: bnd_run new_uuid_run ret_run) (metis outcome_value.elims)
  then show ?thesis
    unfolding t1_def t2_def t3_def d1_def
    by (auto simp: run_tx_Early run_tx_Commit steps add.commute[of "w_step w"] dest!: admit_body_run)
qed

lemma admitExtraction_error: "admitExtraction u e w = (Inl er, w') \<Longrightarrow> w_db w' = w_db w"
  by (auto simp: admitExtraction_def bnd_def new_uuid_def ret_def Let_def split: option.splits prod.splits sum.splits dest: run_tx_error)

lemma admissions_drop_old:
  "admissions_of u (drop_old_admissions u t d) = filter (\<lambda>r. t - 60 * second < ad_StartedAt r) (admissions_of u d)"
  by (auto simp: admissions_of_def drop_old_admissions_def intro!: filter_cong)

lemma admissions_insert_ai_user [simp]: "admissions_of v (insert_ai_user u d) = admissions_of v d"
  by (simp add: admissions_of_def)

text \<open>Why an admission is refused.\<close>

lemma admit_body_refused:
  assumes "admit_body u i e w = (Inl er, w')"
  defines "t1 \<equiv> now_at e (w_step w + 3)" and "t2 \<equiv> now_at e (w_step w + 4)"
  shows "(er = ErrExtractBusy \<longrightarrow> (\<exists>a \<in> set (admissions_of u (w_db w)). active_admission t2 a))
    \<and> (er = ErrExtractUserRateLimited \<longrightarrow> 5 \<le> length (filter (\<lambda>a. t1 - 60 * second < ad_StartedAt a) (admissions_of u (w_db w))))
    \<and> (er = ErrAccountDeleted \<longrightarrow> u \<in> set (t_tombstones (w_db w)))"
proof -
  let ?d1 = "drop_old_admissions u t1 (insert_ai_user u (w_db w))"
  have rows: "admissions_of u ?d1 = filter (\<lambda>a. t1 - 60 * second < ad_StartedAt a) (admissions_of u (w_db w))"
    by (simp add: admissions_drop_old)
  have steps: "Suc (Suc (Suc n)) = n + 3" "Suc (n + 3) = n + 4" for n :: nat by simp_all
  have "(er = ErrExtractBusy \<longrightarrow> filter (active_admission t2) (admissions_of u ?d1) \<noteq> [])
    \<and> (er = ErrExtractUserRateLimited \<longrightarrow> 5 \<le> length (admissions_of u ?d1))
    \<and> (er = ErrAccountDeleted \<longrightarrow> u \<in> set (t_tombstones (w_db w)))"
    using assms(1) unfolding admit_body_def t1_def t2_def
    by (auto simp: bnd_def ensureAccountNotDeleted_def query_def exec_def exec_now_def guard_def fail_def ret_def sql_def
        count_admissions_def insert_admission_def Let_def steps split: if_splits)
  then show ?thesis by (auto simp: rows filter_empty_conv)
qed

lemma admitted_rows:
  "admissions_of u (admitted_db u i t1 t3 d) = filter (\<lambda>a. t1 - 60 * second < ad_StartedAt a) (admissions_of u d)
     @ [\<lparr>ad_ID = i, ad_UserID = u, ad_StartedAt = t3, ad_FinishedAt = None\<rparr>]"
  using admissions_drop_old[of u t1 "insert_ai_user u d"] by (simp add: admitted_db_def Let_def admissions_of_def)

text \<open>
  C34: Who is admitted. A request is admitted only if the account is not deleted, no other request of the
  user is in progress (unfinished and started within the last 20 seconds) and fewer than five of the
  last 60 seconds are on record; the new request is then on record beside those. A refusal changes no
  table, and each reason is given only when it applies.\<close>

theorem admitExtraction_spec:
  assumes run: "admitExtraction u e w = (res, w')"
  defines "t1 \<equiv> now_at e (w_step w + 4)" and "t2 \<equiv> now_at e (w_step w + 5)" and "t3 \<equiv> now_at e (w_step w + 6)"
  defines "recent \<equiv> filter (\<lambda>a. t1 - 60 * second < ad_StartedAt a) (admissions_of u (w_db w))"
  shows "(\<forall>i. res = Inr i \<longrightarrow> u \<notin> set (t_tombstones (w_db w)) \<and> length recent < 5 \<and> (\<forall>a \<in> set recent. \<not> active_admission t2 a)
      \<and> admissions_of u (w_db w') = recent @ [\<lparr>ad_ID = i, ad_UserID = u, ad_StartedAt = t3, ad_FinishedAt = None\<rparr>])
    \<and> (isl res \<longrightarrow> w_db w' = w_db w)
    \<and> (res = Inl ErrExtractBusy \<longrightarrow> (\<exists>a \<in> set (admissions_of u (w_db w)). active_admission t2 a))
    \<and> (res = Inl ErrExtractUserRateLimited \<longrightarrow> 5 \<le> length recent)
    \<and> (res = Inl ErrAccountDeleted \<longrightarrow> u \<in> set (t_tombstones (w_db w)))"
proof (cases res)
  case (Inr i)
  from admitExtraction_run[OF run[unfolded Inr]] show ?thesis
    by (simp add: Inr admissions_drop_old admitted_rows recent_def t1_def t2_def t3_def)
next
  case (Inl er)
  have "w_db w' = w_db w" using admitExtraction_error run Inl by blast
  moreover have "er \<in> {ErrExtractBusy, ErrExtractUserRateLimited, ErrAccountDeleted} \<Longrightarrow>
      \<exists>i w2. admit_body u i e (w\<lparr>w_ids := Suc (w_ids w), w_step := Suc (w_step w)\<rparr>) = (Inl er, w2)"
    using run Inl by (auto simp: admitExtraction_def bnd_def new_uuid_def run_tx_def ret_def Let_def
        split: option.splits prod.splits sum.splits outcome.splits if_splits)
  ultimately show ?thesis
    using Inl admit_body_refused[of u _ e "w\<lparr>w_ids := Suc (w_ids w), w_step := Suc (w_step w)\<rparr>" er]
    by (fastforce simp: recent_def t1_def t2_def add.commute[of "w_step w"])
qed

lemma admitExtraction_spec_witness:
  "\<exists>i w'. admitExtraction 1 sample_env (sample_world sample_db) = (Inr i, w') \<and> length (admissions_of 1 (w_db w')) = 1"
proof -
  have "\<not> isl (fst (admitExtraction 1 sample_env (sample_world sample_db)))" by code_simp
  then obtain i w' where run: "admitExtraction 1 sample_env (sample_world sample_db) = (Inr i, w')" using success_run by blast
  have "admissions_of 1 sample_db = []" by (simp add: admissions_of_def sample_defs)
  with run admitExtraction_spec[OF run] show ?thesis by (intro exI[of _ i] exI[of _ w']) simp
qed

section \<open>What an extraction touches\<close>

text \<open>Only the three tables of its own change.\<close>

definition ai_only :: "db \<Rightarrow> db \<Rightarrow> bool" where
  "ai_only a b \<longleftrightarrow> t_schedules b = t_schedules a \<and> t_reminders b = t_reminders a \<and> t_series b = t_series a
     \<and> t_occurrences b = t_occurrences a \<and> t_outbox b = t_outbox a \<and> t_create_requests b = t_create_requests a
     \<and> t_mutation_requests b = t_mutation_requests a \<and> t_tombstones b = t_tombstones a"

interpretation ai: db_relation ai_only
  by unfold_locales (auto simp: ai_only_def)

lemma ai_changes [simp]:
  "ai_only d (insert_ai_user u d)" "ai_only d (drop_old_admissions u t d)" "ai_only d (d\<lparr>t_admissions := a\<rparr>)"
  "ai_only d (d\<lparr>t_extractions := x\<rparr>)"
  by (simp_all add: ai_only_def insert_ai_user_def drop_old_admissions_def)

lemma ai_ensureAccountNotDeleted: "steps ai_only (ensureAccountNotDeleted u)"
  unfolding ensureAccountNotDeleted_def by (intro ai.steps_bnd ai.steps_query ai.steps_guard)

lemma ai_repo_CreateExtraction: "steps ai_only (repo_CreateExtraction i u m c s l)"
  unfolding repo_CreateExtraction_def by (rule ai.steps_sql) (auto split: if_splits)

lemma ai_admitExtraction: "steps ai_only (admitExtraction u)"
  unfolding admitExtraction_def admit_body_def count_admissions_def insert_admission_def
  by (intro ai.steps_bnd ai.steps_new_uuid ai.steps_run_tx ai_ensureAccountNotDeleted ai.steps_exec ai.steps_query ai.steps_guard
      ai.steps_exec_now ai.steps_ret ai.steps_sql) (auto simp: Let_def ai.R_refl split: if_splits)

lemma ai_finishExtraction: "steps ai_only (finishExtraction i)"
  unfolding finishExtraction_def by (intro ai.steps_rescue ai.steps_exec_now ai.steps_ret) simp

lemma ai_recordExtraction: "steps ai_only (recordExtraction u m n s l)"
  unfolding recordExtraction_def
  by (intro ai.steps_rescue ai.steps_bnd ai.steps_new_uuid ai.steps_run_tx ai_ensureAccountNotDeleted ai_repo_CreateExtraction
      ai.steps_ret)

text \<open>Looking for duplicates reads only.\<close>

interpretation same: db_relation "(=)"
  by unfold_locales auto

lemma same_markPossibleDuplicates: "steps (=) (markPossibleDuplicates fold_title u tz cs)"
  unfolding markPossibleDuplicates_def
proof (intro same.steps_bnd same.steps_ask same.steps_option same.steps_fail same.steps_collect)
  show "steps (=) (mark_candidate fold_title u z c)" for z c
    unfolding mark_candidate_def Let_def
    by (intro same.steps_option same.steps_ret same.steps_if same.steps_bnd same.steps_sql) auto
qed

text \<open>The audit rows of a run.\<close>

definition audit_row :: "uuid \<Rightarrow> string \<Rightarrow> string \<Rightarrow> string \<Rightarrow> extraction_row \<Rightarrow> bool" where
  "audit_row u model text_in status r \<longleftrightarrow> ex_UserID r = u \<and> ex_Model r = model \<and> ex_InputChars r = int32 (int (length text_in))
     \<and> ex_Status r = status \<and> ex_RawText r = None \<and> ex_ResultJson r = None"

lemma recordExtraction_total: "fst (recordExtraction u m n s l e w) = Inr ()"
  by (simp add: recordExtraction_def rescue_def ret_def split: prod.split sum.split)

lemma repo_CreateExtraction_run [tx_run]:
  "repo_CreateExtraction i u m c s l e w = (Inr y, w') \<longleftrightarrow> \<not> fault_at e (w_step w) \<and> s \<in> {''success'', ''partial'', ''failed''}
     \<and> (\<forall>r \<in> set (t_extractions (w_db w)). ex_ID r \<noteq> i)
     \<and> w' = w\<lparr>w_step := Suc (w_step w), w_db := (w_db w)\<lparr>t_extractions := t_extractions (w_db w) @
         [\<lparr>ex_ID = i, ex_UserID = u, ex_Model = m, ex_InputChars = c, ex_RawText = None, ex_ResultJson = None, ex_Status = s,
           ex_LatencyMs = l, ex_CreatedAt = now_at e (w_step w)\<rparr>]\<rparr>\<rparr>"
  by (auto simp: repo_CreateExtraction_def tx_run)

text \<open>Nothing fails: every statement succeeds and every generated identifier is new.\<close>

definition smooth :: "env \<Rightarrow> db \<Rightarrow> bool" where
  "smooth e d \<longleftrightarrow> (\<forall>n. \<not> fault_at e n) \<and> (\<forall>k. \<exists>i. uuid_at e k = Some i \<and> (\<forall>r \<in> set (t_extractions d). ex_ID r \<noteq> i))"

lemma recordExtraction_row:
  assumes "w' = snd (recordExtraction u m n s l e w)" and "s \<in> {''success'', ''failed''}"
  shows "\<exists>new. t_extractions (w_db w') = t_extractions (w_db w) @ new \<and> length new \<le> 1
     \<and> (\<forall>r \<in> set new. ex_UserID r = u \<and> ex_Model r = m \<and> ex_InputChars r = int32 n \<and> ex_Status r = s \<and> ex_RawText r = None \<and> ex_ResultJson r = None)
     \<and> (\<forall>r \<in> set new. ex_ID r \<notin> ex_ID ` set (t_extractions (w_db w)) \<and> u \<notin> set (t_tombstones (w_db w)))
     \<and> (smooth e (w_db w) \<longrightarrow> u \<notin> set (t_tombstones (w_db w)) \<longrightarrow> length new = 1)
     \<and> t_admissions (w_db w') = t_admissions (w_db w) \<and> t_ai_users (w_db w') = t_ai_users (w_db w)"
proof -
  let ?tx = "\<lambda>i. bnd (ensureAccountNotDeleted u) (\<lambda>_. bnd (repo_CreateExtraction i u m (int32 n) s (Some l)) (\<lambda>_. ret (Commit ())))"
  let ?w1 = "w\<lparr>w_ids := Suc (w_ids w)\<rparr>"
  have smooth_run: "\<exists>i x. uuid_at e (w_ids w) = Some i \<and> run_tx (?tx i) e ?w1 = (Inr (Commit ()), x)"
    if "smooth e (w_db w)" and "u \<notin> set (t_tombstones (w_db w))"
  proof -
    from that(1) obtain i where i: "uuid_at e (w_ids w) = Some i" "\<forall>r \<in> set (t_extractions (w_db w)). ex_ID r \<noteq> i"
      unfolding smooth_def by blast
    moreover have "\<not> fault_at e (w_step w + k)" for k using that(1) by (simp add: smooth_def)
    from this[of 0] this[of 1] this[of 2] this[of 3] have "\<exists>x. run_tx (?tx i) e ?w1 = (Inr (Commit ()), x)"
      using i(2) that(2) assms(2) by (auto simp: run_tx_Commit tx_run numeral_eq_Suc)
    ultimately show ?thesis by blast
  qed
  show ?thesis
  proof (cases "\<exists>i x. uuid_at e (w_ids w) = Some i \<and> run_tx (?tx i) e ?w1 = (Inr (Commit ()), x)")
    case True
    then obtain i x where "uuid_at e (w_ids w) = Some i" and x: "run_tx (?tx i) e ?w1 = (Inr (Commit ()), x)" by blast
    then have "w' = x" using assms(1) by (simp add: recordExtraction_def rescue_def bnd_def new_uuid_def ret_def Let_def)
    with x assms(2) show ?thesis by (auto simp: run_tx_Commit tx_run)
  next
    case False
    have "w_db w' = w_db w"
    proof (cases "uuid_at e (w_ids w)")
      case None
      then show ?thesis using assms(1) by (simp add: recordExtraction_def rescue_def bnd_def new_uuid_def ret_def Let_def)
    next
      case (Some i)
      obtain r x where rx: "run_tx (?tx i) e ?w1 = (r, x)" by fastforce
      with False Some have "w_db x = w_db w"
        using run_tx_error[of "?tx i" e ?w1 _ x] run_tx_early_db[of "?tx i" e ?w1 _ x] by (cases r; cases "projr r") auto
      moreover have "w' = x" using assms(1) Some rx
        by (auto simp: recordExtraction_def rescue_def bnd_def new_uuid_def ret_def Let_def split: sum.splits)
      ultimately show ?thesis by simp
    qed
    with False smooth_run show ?thesis by auto
  qed
qed

lemma finishExtraction_rows:
  assumes "w' = snd (finishExtraction i e w)"
  shows "t_extractions (w_db w') = t_extractions (w_db w)
    \<and> map (\<lambda>a. (ad_ID a, ad_UserID a, ad_StartedAt a)) (t_admissions (w_db w')) = map (\<lambda>a. (ad_ID a, ad_UserID a, ad_StartedAt a)) (t_admissions (w_db w))
    \<and> (\<not> fault_at e (w_step w) \<longrightarrow> t_admissions (w_db w') =
         upd_where (\<lambda>a. ad_ID a = i) (\<lambda>a. a\<lparr>ad_FinishedAt := Some (now_at e (w_step w))\<rparr>) (t_admissions (w_db w)))"
  using assms by (auto simp: finishExtraction_def rescue_def exec_now_def sql_def ret_def Let_def map_upd_where)

lemma active_mono: "active_admission t a \<Longrightarrow> s \<le> t \<Longrightarrow> active_admission s a"
  by (simp add: active_admission_def)

lemma extract_admitted_rows:
  assumes run: "extract_admitted g call lat ft u inp e w = (res, w')"
  shows "\<exists>new. t_extractions (w_db w') = t_extractions (w_db w) @ new \<and> length new \<le> 1
     \<and> (\<forall>r \<in> set new. audit_row u (g_model g) (sx_Text inp) (if isl res then ''failed'' else ''success'') r)
     \<and> (smooth e (w_db w) \<longrightarrow> u \<notin> set (t_tombstones (w_db w)) \<longrightarrow> (\<forall>er. res \<noteq> Inl (ServiceError er)) \<longrightarrow> length new = 1)
     \<and> t_admissions (w_db w') = t_admissions (w_db w) \<and> ai_only (w_db w) (w_db w')"
proof (cases "fst (Extract g (sx_APIKey inp) call)")
  case (Inl er)
  let ?w2 = "snd (recordExtraction u (g_model g) (int (length (sx_Text inp))) ''failed'' (int32 lat) e w)"
  from run Inl have "w' = ?w2" "res = Inl (extract_error_of er)" by (auto simp: extract_admitted_def Let_def)
  with recordExtraction_row[of ?w2 u "g_model g" "int (length (sx_Text inp))" "''failed''" "int32 lat" e w] ai_recordExtraction show ?thesis
    by (auto simp: audit_row_def steps_def)
next
  case (Inr result)
  obtain r w1 where mark: "markPossibleDuplicates ft u (sx_Timezone inp) (toExtractCandidates (er_Candidates result)) e w = (r, w1)" by fastforce
  have db: "w_db w1 = w_db w" using stepsD[OF same_markPossibleDuplicates mark] by simp
  show ?thesis
  proof (cases r)
    case (Inl er)
    with run Inr mark have "w' = w1" "res = Inl (ServiceError er)" by (auto simp: extract_admitted_def Let_def)
    with db show ?thesis by (auto simp: ai.R_refl)
  next
    case ok: (Inr cs)
    let ?w2 = "snd (recordExtraction u (g_model g) (int (length (sx_Text inp))) ''success'' (int32 lat) e w1)"
    from run Inr mark ok have "w' = ?w2" "\<not> isl res" by (auto simp: extract_admitted_def Let_def)
    with recordExtraction_row[of ?w2 u "g_model g" "int (length (sx_Text inp))" "''success''" "int32 lat" e w1] db ai_recordExtraction[unfolded steps_def, rule_format, of w1] show ?thesis
      by (auto simp: audit_row_def)
  qed
qed

text \<open>
  C35: An extraction, whatever its outcome, changes nothing of the calendar. It adds at most one audit row, which
  holds the length of the text and the outcome but neither the text nor the answer; when nothing fails and
  the model's answer could be processed it adds exactly one. When nothing fails no request of the user is
  in progress afterwards, so that the next one is not refused as busy.\<close>

theorem ExtractSchedules_audit:
  assumes run: "ExtractSchedules g call lat ft u inp e w = (res, w')"
  shows "ai_only (w_db w) (w_db w')
    \<and> (\<exists>new. t_extractions (w_db w') = t_extractions (w_db w) @ new \<and> length new \<le> 1
        \<and> (\<forall>r \<in> set new. audit_row u (g_model g) (sx_Text inp) (if isl res then ''failed'' else ''success'') r)
        \<and> (smooth e (w_db w) \<longrightarrow> (\<forall>er. res \<noteq> Inl (ServiceError er)) \<longrightarrow> length new = 1))
    \<and> (smooth e (w_db w) \<longrightarrow> (\<forall>er. res \<noteq> Inl (ServiceError er)) \<longrightarrow>
        (\<forall>a \<in> set (admissions_of u (w_db w')). \<forall>t \<ge> now_at e (w_step w + 5). \<not> active_admission t a))"
proof -
  obtain r w1 where admit: "admitExtraction u e w = (r, w1)" by fastforce
  have ai1: "ai_only (w_db w) (w_db w1)" using stepsD[OF ai_admitExtraction admit] .
  show ?thesis
  proof (cases r)
    case (Inl er)
    then have "w' = w1" "res = Inl (ServiceError er)" using run admit by (auto simp: ExtractSchedules_def)
    moreover have "w_db w1 = w_db w" using admit Inl admitExtraction_error by blast
    ultimately show ?thesis by (auto simp: ai.R_refl)
  next
    case (Inr i)
    obtain r2 w2 where body: "extract_admitted g call lat ft u inp e w1 = (r2, w2)" by fastforce
    have w': "w' = snd (finishExtraction i e w2)" and res: "res = r2" using run admit Inr body by (auto simp: ExtractSchedules_def)
    note adm = admitExtraction_run[OF admit[unfolded Inr]]
    have ex1: "t_extractions (w_db w1) = t_extractions (w_db w)"
      using adm by (simp add: admitted_db_def drop_old_admissions_def Let_def)
    have alive: "u \<notin> set (t_tombstones (w_db w1))" using adm ai1 by (simp add: ai_only_def)
    note rows = extract_admitted_rows[OF body]
    then have adm2: "t_admissions (w_db w2) = t_admissions (w_db w1)" and ai2: "ai_only (w_db w1) (w_db w2)" by blast+
    note fin = finishExtraction_rows[OF w']
    have ai: "ai_only (w_db w) (w_db w')"
      using ai1 ai2 ai_finishExtraction[unfolded steps_def, rule_format, of w2 i e] w' by (meson ai.R_trans)
    have idle: "\<not> active_admission t a"
      if "smooth e (w_db w)" "a \<in> set (admissions_of u (w_db w'))" "now_at e (w_step w + 5) \<le> t" for a t
    proof -
      have "\<not> fault_at e (w_step w2)" using that(1) by (simp add: smooth_def)
      then have "t_admissions (w_db w') =
          upd_where (\<lambda>a. ad_ID a = i) (\<lambda>a. a\<lparr>ad_FinishedAt := Some (now_at e (w_step w2))\<rparr>) (t_admissions (w_db w1))"
        using fin adm2 by simp
      then have "ad_FinishedAt a \<noteq> None \<or> a \<in> set (admissions_of u (w_db w1)) \<and> ad_ID a \<noteq> i"
        using that(2) by (auto simp: admissions_of_def set_upd_where split: if_splits)
      moreover have "\<not> active_admission t a" if "a \<in> set (admissions_of u (w_db w1))" "ad_ID a \<noteq> i"
        using that adm active_mono \<open>now_at e (w_step w + 5) \<le> t\<close> by (auto simp: admitted_rows admissions_drop_old)
      ultimately show ?thesis by (auto simp: active_admission_def)
    qed
    have "smooth e (w_db w1) = smooth e (w_db w)" by (simp add: smooth_def ex1)
    with ai rows fin ex1 alive res idle show ?thesis by auto
  qed
qed

definition sample_extract :: svc_ExtractInput where
  "sample_extract = \<lparr>sx_Text = ''standup tomorrow at nine'', sx_Now = 0, sx_Timezone = ''UTC'', sx_APIKey = ''key''\<rparr>"

lemma sample_extract_run:
  "\<exists>cs w'. ExtractSchedules sample_gemini sample_call 12 (\<lambda>s. s) 1 sample_extract sample_env (sample_world sample_db) = (Inr (cs, False), w') \<and> length cs = 1"
proof -
  let ?run = "ExtractSchedules sample_gemini sample_call 12 (\<lambda>s. s) 1 sample_extract sample_env (sample_world sample_db)"
  have ok: "case fst ?run of Inr (cs, b) \<Rightarrow> length cs = 1 \<and> \<not> b | Inl _ \<Rightarrow> False"
    by code_simp
  obtain res w' where run: "?run = (res, w')" by fastforce
  show ?thesis using ok unfolding run by (cases res) auto
qed

lemma ExtractSchedules_audit_witness:
  "\<exists>res w'. ExtractSchedules sample_gemini sample_call 12 (\<lambda>s. s) 1 sample_extract sample_env (sample_world sample_db) = (res, w')
     \<and> \<not> isl res \<and> length (t_extractions (w_db w')) = 1"
proof -
  obtain cs w' where run: "ExtractSchedules sample_gemini sample_call 12 (\<lambda>s. s) 1 sample_extract sample_env (sample_world sample_db) = (Inr (cs, False), w')"
    using sample_extract_run by blast
  have "smooth sample_env sample_db" by (simp add: smooth_def sample_defs)
  moreover have "t_extractions sample_db = []" by (simp add: sample_defs)
  ultimately show ?thesis using ExtractSchedules_audit[OF run] run by auto
qed

section \<open>What is delivered\<close>

definition as_candidate :: "ExtractCandidate \<Rightarrow> Candidate" where
  "as_candidate c = \<lparr>c_Title = xc_Title c, c_StartAt = xc_StartAt c, c_EndAt = xc_EndAt c, c_AllDay = xc_AllDay c,
     c_Location = xc_Location c, c_Description = xc_Description c, c_Confidence = xc_Confidence c,
     c_NeedsConfirmation = xc_NeedsConfirmation c, c_Issues = xc_Issues c\<rparr>"

lemma as_candidate_converted: "x \<in> set (toExtractCandidates cs) \<Longrightarrow> as_candidate x \<in> set cs"
proof -
  assume "x \<in> set (toExtractCandidates cs)"
  then obtain c where "c \<in> set cs" "as_candidate x = c" by (auto simp: toExtractCandidates_def as_candidate_def)
  then show ?thesis by simp
qed

lemma collect_reading:
  assumes "\<And>x. steps (=) (f x)" and "collect xs f e w = (Inr ys, w')"
  shows "list_all2 (\<lambda>x y. \<exists>w1 w2. f x e w1 = (Inr y, w2) \<and> w_db w1 = w_db w) xs ys"
  using assms(2)
proof (induction xs arbitrary: w ys)
  case (Cons x xs)
  then obtain y w1 zs where "f x e w = (Inr y, w1)" "collect xs f e w1 = (Inr zs, w')" "ys = y # zs" by (auto simp: tx_run)
  moreover from this have "w_db w1 = w_db w" using stepsD[OF assms(1)] by metis
  ultimately show ?case using Cons.IH[of w1 zs] by auto
qed (simp add: ret_run)

lemma same_mark_candidate: "steps (=) (mark_candidate ft u z c)"
  unfolding mark_candidate_def Let_def
  by (intro same.steps_option same.steps_ret same.steps_if same.steps_bnd same.steps_sql) auto

text \<open>An unmarked candidate with a title and a proper period has no duplicate.\<close>

lemma mark_candidate_run:
  assumes "mark_candidate ft u z c e w = (Inr y, w')"
  shows "y = mark_duplicate c \<or> y = c \<and> (\<forall>s. xc_StartAt c = Some s \<longrightarrow> TrimSpace (xc_Title c) \<noteq> [] \<longrightarrow>
     (let p = candidate_period z c s in fst p < snd p \<longrightarrow> \<not> (\<exists>r \<in> set (t_schedules (w_db w)). duplicate_of e ft u (xc_Title c) p r)))"
  using assms by (auto simp: mark_candidate_def Let_def tx_run split: option.splits if_splits)

lemma parseCandidate_trimmed: "TrimSpace (c_Title (parseCandidate g raw)) = c_Title (parseCandidate g raw)"
  by (simp add: parseCandidate_def invalid_candidate_def candidate_of_def TrimSpace_idem split: option.split)
    (simp add: TrimSpace_def trim_runes_def)

definition delivered_ok :: "env \<Rightarrow> (string \<Rightarrow> string) \<Rightarrow> uuid \<Rightarrow> location \<Rightarrow> schedule_row list \<Rightarrow> ExtractCandidate \<Rightarrow> bool" where
  "delivered_ok e ft u z rows c \<longleftrightarrow> distinct (xc_Issues c) \<and> set (xc_Issues c) \<subseteq> set (''possible_duplicate'' # issue_codes)
     \<and> (xc_NeedsConfirmation c \<longleftrightarrow> xc_Issues c \<noteq> []) \<and> 0 \<le> xc_Confidence c \<and> xc_Confidence c \<le> 1
     \<and> (\<not> xc_NeedsConfirmation c \<longrightarrow> usable (as_candidate c) \<and> (\<forall>s. xc_StartAt c = Some s \<longrightarrow>
          (let p = candidate_period z c s in fst p < snd p \<longrightarrow> \<not> (\<exists>r \<in> set rows. duplicate_of e ft u (xc_Title c) p r))))"

lemma delivered_okI:
  assumes c: "as_candidate c = parseCandidate g raw" and run: "mark_candidate ft u z c e w = (Inr y, w')"
  shows "delivered_ok e ft u z (t_schedules (w_db w)) y"
proof -
  have ok: "candidate_ok (as_candidate c)" and trim: "TrimSpace (xc_Title c) = xc_Title c"
    using parseCandidate_ok parseCandidate_trimmed c by (simp, metis as_candidate_def Candidate.select_convs(1))
  have fields: "distinct (xc_Issues c)" "set (xc_Issues c) \<subseteq> set issue_codes" "xc_NeedsConfirmation c \<longleftrightarrow> xc_Issues c \<noteq> []"
    "0 \<le> xc_Confidence c" "xc_Confidence c \<le> 1" "\<not> xc_NeedsConfirmation c \<Longrightarrow> usable (as_candidate c)"
    using ok by (auto simp: candidate_ok_def as_candidate_def)
  have title: "\<not> xc_NeedsConfirmation c \<Longrightarrow> TrimSpace (xc_Title c) \<noteq> []"
    using fields(6) trim by (auto simp: usable_def as_candidate_def)
  from mark_candidate_run[OF run] show ?thesis
  proof (elim disjE conjE)
    assume "y = mark_duplicate c"
    with fields show ?thesis by (auto simp: delivered_ok_def mark_duplicate_def containsString_def)
  next
    assume "y = c" and "\<forall>s. xc_StartAt c = Some s \<longrightarrow> TrimSpace (xc_Title c) \<noteq> [] \<longrightarrow> (let p = candidate_period z c s in
      fst p < snd p \<longrightarrow> \<not> (\<exists>r \<in> set (t_schedules (w_db w)). duplicate_of e ft u (xc_Title c) p r))"
    with fields title show ?thesis by (auto simp: delivered_ok_def)
  qed
qed

text \<open>
  C36: What a client receives from a successful extraction: at most twenty candidates, twenty if the
  list was cut. Each carries distinct issue codes of a fixed list and needs confirmation exactly when it carries any. One
  that needs none has a title of 1 to 255 characters, texts within the limits of a schedule, a start and an end only
  after it; and no schedule of the user with the same title, unless it is cancelled, overlaps its
  period (an all-day candidate that ends on its first day has no period and is not compared).\<close>

theorem ExtractSchedules_candidates:
  assumes run: "ExtractSchedules g call lat ft u inp e w = (Inr (cs, truncated), w')"
  shows "length cs \<le> 20 \<and> (truncated \<longrightarrow> length cs = 20)
    \<and> (\<exists>z. load_location e (sx_Timezone inp) = Some z \<and> (\<forall>c \<in> set cs. delivered_ok e ft u z (t_schedules (w_db w)) c))"
proof -
  from run obtain i w1 where admit: "admitExtraction u e w = (Inr i, w1)"
    and body: "fst (extract_admitted g call lat ft u inp e w1) = Inr (cs, truncated)"
    by (auto simp: ExtractSchedules_def split: sum.splits prod.splits)
  have sch: "t_schedules (w_db w1) = t_schedules (w_db w)" using stepsD[OF ai_admitExtraction admit] by (simp add: ai_only_def)
  from body obtain result w2 where x: "fst (Extract g (sx_APIKey inp) call) = Inr result" and tr: "truncated = er_Truncated result"
    and mark: "markPossibleDuplicates ft u (sx_Timezone inp) (toExtractCandidates (er_Candidates result)) e w1 = (Inr cs, w2)"
    by (auto simp: extract_admitted_def Let_def split: sum.splits prod.splits)
  then obtain z where z: "load_location e (sx_Timezone inp) = Some z"
    and all: "collect (toExtractCandidates (er_Candidates result)) (mark_candidate ft u z) e w1 = (Inr cs, w2)"
    by (auto simp: markPossibleDuplicates_def tx_run split: option.splits)
  note rows = collect_reading[OF same_mark_candidate all]
  have len: "length cs = length (er_Candidates result)" using list_all2_lengthD[OF rows] by (simp add: toExtractCandidates_def)
  have res: "length (er_Candidates result) \<le> 20 \<and> (er_Truncated result \<longrightarrow> length (er_Candidates result) = 20)"
    and parsed: "\<forall>c \<in> set (er_Candidates result). \<exists>raw. c = parseCandidate g raw"
    using Extract_result[of g "sx_APIKey inp" call result "snd (Extract g (sx_APIKey inp) call)"] x by (auto simp: prod_eq_iff)
  have "delivered_ok e ft u z (t_schedules (w_db w)) y" if "y \<in> set cs" for y
  proof -
    from that obtain k where k: "k < length cs" "y = cs ! k" by (metis in_set_conv_nth)
    let ?c = "toExtractCandidates (er_Candidates result) ! k"
    from rows k obtain v1 v2 where m: "mark_candidate ft u z ?c e v1 = (Inr y, v2)" "w_db v1 = w_db w1"
      by (auto simp: list_all2_conv_all_nth)
    have "?c \<in> set (toExtractCandidates (er_Candidates result))" using k len by (simp add: toExtractCandidates_def)
    then obtain raw where "as_candidate ?c = parseCandidate g raw" using as_candidate_converted parsed by metis
    from delivered_okI[OF this m(1)] m(2) sch show ?thesis by simp
  qed
  with res len tr z show ?thesis by auto
qed

lemma ExtractSchedules_candidates_witness:
  "\<exists>cs w'. ExtractSchedules sample_gemini sample_call 12 (\<lambda>s. s) 1 sample_extract sample_env (sample_world sample_db) = (Inr (cs, False), w')
     \<and> length cs = 1 \<and> (\<forall>c \<in> set cs. delivered_ok sample_env (\<lambda>s. s) 1 utc_loc (t_schedules sample_db) c)"
proof -
  obtain cs w' where run: "ExtractSchedules sample_gemini sample_call 12 (\<lambda>s. s) 1 sample_extract sample_env (sample_world sample_db) = (Inr (cs, False), w')"
    and len: "length cs = 1" using sample_extract_run by blast
  show ?thesis using run len ExtractSchedules_candidates[OF run] by (intro exI conjI) (auto simp: sample_extract_def)
qed

section \<open>Extraction steps and the other invariants\<close>

definition ai_keys :: "db \<Rightarrow> bool" where
  "ai_keys d \<longleftrightarrow> distinct (t_ai_users d) \<and> distinct (map ad_ID (t_admissions d)) \<and> distinct (map ex_ID (t_extractions d))"

definition ai_view :: "uuid \<Rightarrow> db \<Rightarrow> uuid list \<times> (uuid \<times> time) list \<times> uuid list" where
  "ai_view v d = (filter (\<lambda>x. x = v) (t_ai_users d), map (\<lambda>a. (ad_ID a, ad_StartedAt a)) (filter (\<lambda>a. ad_UserID a = v) (t_admissions d)),
     map ex_ID (filter (\<lambda>r. ex_UserID r = v) (t_extractions d)))"

text \<open>A step of an extraction keeps the keys, and brings nothing back for a deleted account.\<close>

definition ai_change :: "db \<Rightarrow> db \<Rightarrow> bool" where
  "ai_change a b \<longleftrightarrow> ai_only a b \<and> (ai_keys a \<longrightarrow> ai_keys b) \<and> (\<forall>v \<in> set (t_tombstones a). ai_view v a = ([], [], []) \<longrightarrow> ai_view v b = ([], [], []))"

lemma ai_change_admit: "admitExtraction u e w = (r, w') \<Longrightarrow> ai_change (w_db w) (w_db w')"
proof (cases r)
  case (Inr i)
  assume run: "admitExtraction u e w = (r, w')"
  note adm = admitExtraction_run[OF run[unfolded Inr]]
  from adm have "ai_keys (w_db w')" if "ai_keys (w_db w)"
    using that by (auto simp: ai_keys_def admitted_db_def drop_old_admissions_def insert_ai_user_def Let_def intro: distinct_map_filter)
  moreover have "ai_view v (w_db w') = ([], [], [])" if "v \<in> set (t_tombstones (w_db w))" "ai_view v (w_db w) = ([], [], [])" for v
    using that adm by (auto simp: ai_view_def admitted_db_def drop_old_admissions_def insert_ai_user_def Let_def filter_empty_conv)
  ultimately show ?thesis using stepsD[OF ai_admitExtraction run] by (simp add: ai_change_def)
qed (auto dest!: admitExtraction_error simp: ai_change_def ai.R_refl)

lemma ai_change_record: "s \<in> {''success'', ''failed''} \<Longrightarrow> recordExtraction u m n s l e w = (r, w') \<Longrightarrow> ai_change (w_db w) (w_db w')"
proof -
  assume s: "s \<in> {''success'', ''failed''}" and run: "recordExtraction u m n s l e w = (r, w')"
  obtain new where new: "t_extractions (w_db w') = t_extractions (w_db w) @ new" "length new \<le> 1" "\<forall>r \<in> set new. ex_UserID r = u"
    "\<forall>r \<in> set new. ex_ID r \<notin> ex_ID ` set (t_extractions (w_db w)) \<and> u \<notin> set (t_tombstones (w_db w))"
    "t_admissions (w_db w') = t_admissions (w_db w)" "t_ai_users (w_db w') = t_ai_users (w_db w)"
    using recordExtraction_row[OF _ s, of w' u m n l e w] run by auto
  have "ai_keys (w_db w')" if "ai_keys (w_db w)"
    using that new by (cases new) (auto simp: ai_keys_def)
  moreover have "ai_view v (w_db w') = ([], [], [])" if "v \<in> set (t_tombstones (w_db w))" "ai_view v (w_db w) = ([], [], [])" for v
    using that new by (auto simp: ai_view_def filter_empty_conv)
  ultimately show ?thesis using stepsD[OF ai_recordExtraction run] by (simp add: ai_change_def)
qed

lemma ai_change_finish: "finishExtraction i e w = (r, w') \<Longrightarrow> ai_change (w_db w) (w_db w')"
proof -
  assume run: "finishExtraction i e w = (r, w')"
  have "w_db w' = w_db w \<or> w_db w' = (w_db w)\<lparr>t_admissions := upd_where (\<lambda>a. ad_ID a = i) (\<lambda>a. a\<lparr>ad_FinishedAt := Some (now_at e (w_step w))\<rparr>) (t_admissions (w_db w))\<rparr>"
    using run by (auto simp: finishExtraction_def rescue_def exec_now_def sql_def ret_def Let_def split: if_splits)
  then show ?thesis
    by (auto simp: ai_change_def ai.R_refl ai_keys_def ai_view_def map_upd_where filter_empty_conv set_upd_where split: if_splits) blast+
qed

lemma ai_change_clear: "cleanup_extractions before do_apply e w = (r, w') \<Longrightarrow> ai_change (w_db w) (w_db w')"
proof -
  assume run: "cleanup_extractions before do_apply e w = (r, w')"
  have "w_db w' = w_db w \<or> w_db w' = (w_db w)\<lparr>t_extractions := upd_where (retained (arg_time e before))
      (\<lambda>r. r\<lparr>ex_RawText := None, ex_ResultJson := None\<rparr>) (t_extractions (w_db w))\<rparr>"
    using run by (auto simp: cleanup_extractions_def bnd_def sql_def ret_def Let_def split: if_splits)
  then show ?thesis
    by (auto simp: ai_change_def ai.R_refl ai_keys_def ai_view_def map_upd_where filter_empty_conv set_upd_where split: if_splits) blast+
qed

lemma ai_change_wf: "ai_change a b \<Longrightarrow> db_wf a \<Longrightarrow> db_wf b"
  by (auto simp: ai_change_def ai_only_def ai_keys_def db_wf_def keys_ok_def refs_ok_def has_schedule_def linked_def owns_def)

lemma ai_change_limits: "ai_change a b \<Longrightarrow> reminder_limits a \<Longrightarrow> reminder_limits b"
  by (simp add: ai_change_def ai_only_def reminder_limits_def reminders_of_def)

lemma ai_change_deleted:
  assumes "ai_change a b" and "user_view u a = ([], [], [], [], [], [], [u], [], [], [])"
  shows "user_view u b = ([], [], [], [], [], [], [u], [], [], [])"
proof -
  from assms(2) have "u \<in> set (t_tombstones a)" "ai_view u a = ([], [], [])"
    by (auto simp: user_view_def ai_view_def filter_eq_Cons_iff)
  with assms(1) have "ai_view u b = ([], [], [])" "ai_only a b" by (auto simp: ai_change_def)
  with assms(2) show ?thesis by (simp add: user_view_def ai_view_def ai_only_def owns_def)
qed

end
