(* ===== verification/System.thy ===== *)
theory System
  imports SeriesShift Extract
begin

text \<open>
  The service as a whole: the requests that change the calendar, the background dispatcher, the
  clean-up of deleted accounts, the transactions of an extraction, each on its own, and the clearing of
  retained extractions as one transition system over the world. Every step may run in its own
  environment, so clocks, generated identifiers, failures of single statements and of publishing are
  arbitrary. The invariants are proved by rule induction over the steps; the interpretations of
  \<open>user_store\<close> supply them for the requests.
\<close>

section \<open>Requests\<close>

datatype request =
    Create CreateScheduleInput
  | CreateSeries CreateScheduleInput "ScheduleOccurrence list"
  | Update uuid SchedulePatch string hash
  | Delete uuid string
  | DeleteFollowing uuid string int hash
  | BulkDelete "uuid list" string hash
  | AddReminderTo uuid int string string hash
  | DeleteReminderFrom uuid uuid string

definition void :: "'a tx \<Rightarrow> unit tx" where
  "void m = bnd m (\<lambda>_. ret ())"

fun perform :: "uuid \<Rightarrow> request \<Rightarrow> unit tx" where
  "perform u (Create inp) = void (CreateSchedule u inp)"
| "perform u (CreateSeries inp occurrences) = void (CreateRecurringSchedules u inp occurrences)"
| "perform u (Update ident patch key h) = void (UpdateSchedule u ident patch key h)"
| "perform u (Delete ident key) = DeleteSchedule u ident key"
| "perform u (DeleteFollowing ident key revision h) = DeleteScheduleFollowing u ident key revision h"
| "perform u (BulkDelete ids key h) = void (BulkDeleteSchedules u ids key h)"
| "perform u (AddReminderTo sid minutesBefore channel key h) = void (AddReminder u sid minutesBefore channel key h)"
| "perform u (DeleteReminderFrom sid rid key) = DeleteReminder u sid rid key"

inductive service_step :: "world \<Rightarrow> world \<Rightarrow> bool" where
  request: "perform u r e w = (res, w') \<Longrightarrow> service_step w w'"
| dispatch: "drain fuel e w = (res', w') \<Longrightarrow> service_step w w'"
| account_deleted: "CleanupDeletedAccount u e w = (res, w') \<Longrightarrow> service_step w w'"
| extraction_admitted: "admitExtraction u e w = (adm, w') \<Longrightarrow> service_step w w'"
| extraction_recorded: "status \<in> {''success'', ''failed''} \<Longrightarrow> recordExtraction u model n status latency e w = (res, w') \<Longrightarrow> service_step w w'"
| extraction_finished: "finishExtraction i e w = (res, w') \<Longrightarrow> service_step w w'"
| extractions_cleared: "cleanup_extractions before do_apply e w = (num, w') \<Longrightarrow> service_step w w'"

lemma one_request: "perform u r e w = (res, w') \<Longrightarrow> service_step\<^sup>*\<^sup>* w w'"
  by (blast intro: service_step.request)

section \<open>Requests respect the store\<close>

context user_store
begin

lemma keeps_void: "steps (keeps I) m \<Longrightarrow> steps (keeps I) (void m)"
  unfolding void_def by (intro keeps.steps_bnd keeps.steps_ret)

lemma keeps_perform: "steps (keeps I) (perform u r)"
  by (cases r) (simp_all add: keeps_void keeps_CreateSchedule keeps_CreateRecurringSchedules keeps_UpdateSchedule keeps_DeleteSchedule
      keeps_DeleteScheduleFollowing keeps_BulkDeleteSchedules keeps_AddReminder keeps_DeleteReminder)

lemma perform_keeps: "perform u r e w = (res, w') \<Longrightarrow> I (w_db w) \<Longrightarrow> I (w_db w')"
  using stepsD[OF keeps_perform] by (simp add: keeps_def)

end

section \<open>Failing requests\<close>

text \<open>\<open>refused u m\<close>: a failing run of \<open>m\<close> leaves the tables alone, and for a deleted account every run fails.\<close>

definition refused :: "uuid \<Rightarrow> 'a tx \<Rightarrow> bool" where
  "refused u m \<longleftrightarrow> (\<forall>e w r w'. m e w = (r, w') \<longrightarrow> (isl r \<or> u \<in> set (t_tombstones (w_db w)) \<longrightarrow> isl r \<and> w_db w' = w_db w))"

lemma refused_mutation:
  assumes "\<And>x. metrics_only (count x)"
  shows "refused u (mutation (bnd (ensureAccountNotDeleted u) k) count)"
  unfolding refused_def
proof (intro allI impI)
  fix e w r w' assume run: "mutation (bnd (ensureAccountNotDeleted u) k) count e w = (r, w')"
    and bad: "isl r \<or> u \<in> set (t_tombstones (w_db w))"
  show "isl r \<and> w_db w' = w_db w"
  proof (cases r)
    case (Inl er)
    with mutation_error[OF run[unfolded Inl] assms] show ?thesis by simp
  next
    case (Inr x)
    from run[unfolded Inr] assms show ?thesis
      by (rule mutation_success) (use bad Inr in \<open>auto simp: run_tx_Early run_tx_Commit bnd_run ensureAccountNotDeleted_run\<close>)
  qed
qed

lemma refused_lift: "refused u m \<Longrightarrow> refused u (bnd (lift r) (\<lambda>_. m))"
  by (cases r) (auto simp: refused_def bnd_def lift_def)

lemma refused_ask: "(\<And>x. refused u (k x)) \<Longrightarrow> refused u (bnd (ask g) k)"
  by (auto simp: refused_def bnd_def ask_def)

lemma refused_ret: "refused u m \<Longrightarrow> refused u (bnd m (\<lambda>x. ret (f x)))"
  unfolding refused_def bnd_def ret_def by (fastforce split: prod.splits sum.splits)

lemma refused_fail: "refused u (fail er)"
  by (auto simp: refused_def fail_def)

lemma refused_perform: "refused u (perform u r)"
proof (cases r)
  case (Create inp)
  then show ?thesis by (simp add: void_def CreateSchedule_def Let_def refused_ret refused_lift refused_mutation)
next
  case (CreateSeries inp occs)
  then show ?thesis
    by (auto simp: void_def CreateRecurringSchedules_def intro!: refused_ret refused_lift refused_mutation refused_fail split: option.split)
next
  case (Update i p k h)
  then show ?thesis
    by (auto simp: void_def UpdateSchedule_def updateScheduleFollowing_def update_with_def intro!: refused_ret refused_mutation refused_fail)
qed (auto simp: void_def DeleteSchedule_def DeleteScheduleFollowing_def BulkDeleteSchedules_def AddReminder_def DeleteReminder_def
    intro!: refused_ret refused_lift refused_ask refused_mutation)

lemma user_view_lease: "lease_only a b \<Longrightarrow> user_view v b = user_view v a"
  by (simp add: user_view_def owns_def lease_only_tables)

section \<open>Properties of the service\<close>

text \<open>
  C8: Every request is atomic and stays within its account. A request that fails leaves every table as it was; a request
  that succeeds leaves what the tables hold for every other user as it was, and only appends to the
  outbox.\<close>

theorem requests_atomic_and_isolated:
  assumes run: "perform u r e w = (res, w')" and wf: "db_wf (w_db w)"
  shows "(isl res \<longrightarrow> w_db w' = w_db w) \<and> (\<forall>v. v \<noteq> u \<longrightarrow> user_view v (w_db w') = user_view v (w_db w))
    \<and> (\<exists>new. map outbox_identity (t_outbox (w_db w')) = map outbox_identity (t_outbox (w_db w)) @ new)"
proof -
  have "isolated u (w_db w) (w_db w)" using wf by (auto simp: isolated_def)
  then have "isolated u (w_db w) (w_db w')" by (rule isolation.perform_keeps[OF run])
  then show ?thesis using refused_perform[of u r] run by (auto simp: refused_def isolated_def)
qed

lemma requests_atomic_and_isolated_witness:
  "\<exists>res w'. perform 1 (Update 11 sample_patch [] 0) sample_env (sample_world sample_db) = (res, w')
     \<and> user_view 2 (w_db w') = user_view 2 sample_db \<and> schedule_of (w_db w') 1 11 \<noteq> schedule_of sample_db 1 11"
proof -
  obtain s' w' where up: "UpdateSchedule 1 11 sample_patch [] 0 sample_env (sample_world sample_db) = (Inr s', w')"
    using sample_update by blast
  then have run: "perform 1 (Update 11 sample_patch [] 0) sample_env (sample_world sample_db) = (Inr (), w')"
    by (simp add: void_def bnd_def ret_def)
  have other: "user_view 2 (w_db w') = user_view 2 sample_db"
    using requests_atomic_and_isolated[OF run] sample_db_wf by simp
  have "schedule_of (w_db w') 1 11 \<noteq> schedule_of sample_db 1 11"
    using UpdateSchedule_revision[OF up] sample_db_wf by auto
  with run other show ?thesis by (intro exI conjI)
qed

lemma wf_step: "service_step w w' \<Longrightarrow> db_wf (w_db w) \<Longrightarrow> db_wf (w_db w')"
proof (induction rule: service_step.induct)
  case (request u r e w res w')
  then show ?case using integrity.perform_keeps by blast
next
  case (dispatch fuel e w res' w')
  then show ?case using stepsD[OF integrity.keeps_drain dispatch(1)] by (simp add: keeps_def)
next
  case (account_deleted u e w res w')
  then show ?case
    using cleanup_error[of u e w _ w'] CleanupDeletedAccount_run[of u e w _ w'] db_wf_cleaned by (cases res) auto
qed (rule ai_change_wf, (erule ai_change_admit | erule (1) ai_change_record | erule ai_change_finish | erule ai_change_clear), assumption)+

lemma service_step_consistent:
  assumes "service_step w w'" and I: "db_wf (w_db w) \<and> reminder_limits (w_db w)"
  shows "db_wf (w_db w') \<and> reminder_limits (w_db w')" (is ?case)
proof -
  from I have ai: "ai_change (w_db w) (w_db w') \<Longrightarrow> ?case" by (blast intro: ai_change_wf ai_change_limits)
  from assms(1) show ?case
  proof (cases rule: service_step.cases)
    case (request u r e res)
    then show ?thesis using limits.perform_keeps[of u r e w res w'] I by blast
  next
    case (dispatch fuel e res')
    have "steps (keeps (\<lambda>d. db_wf d \<and> reminder_limits d)) (drain fuel)"
      by (rule limits.keeps_drain)
    from stepsD[OF this dispatch] I show ?thesis by (simp add: keeps_def)
  next
    case (account_deleted u e res)
    show ?thesis
    proof (cases res)
      case (Inl er)
      then show ?thesis using account_deleted I cleanup_error by auto
    next
      case (Inr y)
      then have "w_db w' = cleaned (uuid_string e u) u (w_db w)" using CleanupDeletedAccount_run account_deleted by blast
      with I show ?thesis by (auto intro: db_wf_cleaned reminder_limits_shrink simp: cleaned_tables(2))
    qed
  qed (rule ai, (erule ai_change_admit | erule (1) ai_change_record | erule ai_change_finish | erule ai_change_clear))+
qed

text \<open>
  In every state the service can reach, whatever fails on the way, the tables are well-formed
  (keys unique, references resolved, occurrences owned by the owner of their series) and every
  schedule has at most five distinct reminders between zero minutes and a week ahead.\<close>

theorem reachable_states_consistent:
  assumes "service_step\<^sup>*\<^sup>* w0 w" and "db_wf (w_db w0)" and "reminder_limits (w_db w0)"
  shows "db_wf (w_db w) \<and> reminder_limits (w_db w)"
  using assms by (induction rule: rtranclp_induct) (auto dest: service_step_consistent)

lemma reachable_states_consistent_witness:
  "\<exists>w'. service_step\<^sup>*\<^sup>* (sample_world sample_db) w' \<and> w_db w' \<noteq> sample_db \<and> db_wf (w_db w') \<and> reminder_limits (w_db w')"
proof -
  obtain s' w' where up: "UpdateSchedule 1 11 sample_patch [] 0 sample_env (sample_world sample_db) = (Inr s', w')"
    using sample_update by blast
  then have "perform 1 (Update 11 sample_patch [] 0) sample_env (sample_world sample_db) = (Inr (), w')"
    by (simp add: void_def bnd_def ret_def)
  then have reach: "service_step\<^sup>*\<^sup>* (sample_world sample_db) w'" by (rule one_request)
  have "w_db w' \<noteq> sample_db"
    using UpdateSchedule_revision[OF up] sample_db_wf by auto
  with reach reachable_states_consistent[OF reach] sample_db_wf sample_db_limits show ?thesis by (intro exI[of _ w']) simp
qed

definition account_gone :: "uuid \<Rightarrow> db \<Rightarrow> bool" where
  "account_gone u d \<longleftrightarrow> user_view u d = ([], [], [], [], [], [], [u], [], [], [])"

lemma service_step_gone:
  assumes "service_step w w'" and wf: "db_wf (w_db w)" and gone: "account_gone u (w_db w)"
  shows "account_gone u (w_db w')" (is ?case)
proof -
  from gone have I: "user_view u (w_db w) = ([], [], [], [], [], [], [u], [], [], [])" by (simp add: account_gone_def)
  have ai: "ai_change (w_db w) (w_db w') \<Longrightarrow> ?case" using ai_change_deleted gone by (auto simp: account_gone_def)
  from I have dead: "u \<in> set (t_tombstones (w_db w))" by (auto simp: user_view_def filter_eq_Cons_iff)
  from assms(1) show ?case
  proof (cases rule: service_step.cases)
    case (request v r e res)
    have "isolated v (w_db w) (w_db w)" using wf by (auto simp: isolated_def)
    then have "isolated v (w_db w) (w_db w')" by (rule isolation.perform_keeps[OF request])
    moreover have "w_db w' = w_db w" if "v = u" using refused_perform[of u r] request dead that by (auto simp: refused_def)
    ultimately show ?thesis using wf gone by (cases "v = u") (auto simp: isolated_def account_gone_def)
  next
    case (dispatch fuel e res')
    from stepsD[OF lease_steps_drain dispatch] have "lease_only (w_db w) (w_db w')" .
    then show ?thesis using gone user_view_lease by (auto simp: account_gone_def)
  next
    case (account_deleted v e res)
    show ?thesis
    proof (cases res)
      case (Inl er)
      then show ?thesis using account_deleted wf gone cleanup_error by auto
    next
      case (Inr y)
      then have "w_db w' = cleaned (uuid_string e v) v (w_db w)" using CleanupDeletedAccount_run account_deleted by blast
      with I show ?thesis using cleaned_view[OF wf] cleaned_view_other[OF wf]
        by (cases "v = u") (auto simp: account_gone_def)
    qed
  qed (rule ai, (erule ai_change_admit | erule (1) ai_change_record | erule ai_change_finish | erule ai_change_clear))+
qed

lemma cleanup_gone: "CleanupDeletedAccount u e w = (Inr (), w') \<Longrightarrow> db_wf (w_db w) \<Longrightarrow> db_wf (w_db w') \<and> account_gone u (w_db w')"
  using cleaned_view CleanupDeletedAccount_run db_wf_cleaned by (fastforce simp: account_gone_def)

text \<open>
  A deleted account stays deleted. Once its clean-up has committed, no sequence of requests (of
  this user or of others), dispatches and clean-ups brings back anything of the user.\<close>

theorem deleted_account_stays_deleted:
  assumes clean: "CleanupDeletedAccount u e w0 = (Inr (), w1)" and wf: "db_wf (w_db w0)" and later: "service_step\<^sup>*\<^sup>* w1 w"
  shows "user_view u (w_db w) = ([], [], [], [], [], [], [u], [], [], [])"
proof -
  from later have "db_wf (w_db w) \<and> account_gone u (w_db w)"
    by (induction rule: rtranclp_induct) (use cleanup_gone[OF clean wf] wf_step service_step_gone in auto)
  then show ?thesis by (simp add: account_gone_def)
qed

lemma deleted_account_stays_deleted_witness:
  "\<exists>w1 w'. CleanupDeletedAccount 1 sample_env (sample_world sample_db) = (Inr (), w1) \<and> service_step\<^sup>*\<^sup>* w1 w'
     \<and> user_view 1 (w_db w') = ([], [], [], [], [], [], [1], [], [], [])"
proof -
  obtain w1 where clean: "CleanupDeletedAccount 1 sample_env (sample_world sample_db) = (Inr (), w1)"
    using cleanup_sample by blast
  obtain res w' where "perform 1 (Create sample_input) sample_env w1 = (res, w')" by (meson surj_pair)
  then have "service_step\<^sup>*\<^sup>* w1 w'" by (rule one_request)
  with clean deleted_account_stays_deleted[OF clean] sample_db_wf show ?thesis by (intro exI[of _ w1] exI[of _ w']) simp
qed

end
