(* ===== verification/Ics.thy ===== *)
theory Ics
  imports Types Text
begin

text \<open>
  The calendar export (\<open>internal/api/ics.go\<close>: \<open>schedulesCalendar\<close>, \<open>escapeICS\<close>, \<open>foldICSLine\<close>). The
  theorems say that escaping can be undone up to the form of line breaks and leaves no character
  with a meaning of its own, and that folding yields lines of at most 75 octets that join to
  the original.
\<close>

section \<open>Definitions\<close>

abbreviation CR :: char where "CR \<equiv> CHR 0x0D"
abbreviation LF :: char where "LF \<equiv> CHR 0x0A"
abbreviation BS :: char where "BS \<equiv> CHR 0x5C"

definition escapeICS :: "string \<Rightarrow> string" where
  "escapeICS v0 =
     (let v1 = ReplaceAll [BS] [BS, BS] v0;
          v2 = ReplaceAll '';'' [BS, CHR '';''] v1;
          v3 = ReplaceAll '','' [BS, CHR '',''] v2;
          v4 = ReplaceAll [CR, LF] [BS, CHR ''n''] v3;
          v5 = ReplaceAll [LF] [BS, CHR ''n''] v4
      in ReplaceAll [CR] [BS, CHR ''n''] v5)"

fun fold_runes :: "nat \<Rightarrow> string list \<Rightarrow> string" where
  "fold_runes column [] = []"
| "fold_runes column (r # rs) =
     (if 75 < column + length (rune_text r) then [CR, LF, CHR '' ''] @ rune_text r @ fold_runes (1 + length (rune_text r)) rs
      else rune_text r @ fold_runes (column + length (rune_text r)) rs)"

definition foldICSLine :: "string \<Rightarrow> string" where
  "foldICSLine line = fold_runes 0 (runes line)"

text \<open>\<open>t.UTC().Format("20060102T150405Z")\<close>\<close>

definition format_ics :: "time \<Rightarrow> string" where
  "format_ics t = (case civil_from_days (wall_day t) of (y, m, d) \<Rightarrow> (case wall_clock t of (h, mi, s) \<Rightarrow>
     append_int y 4 @ append_int m 2 @ append_int d 2 @ ''T'' @ append_int h 2 @ append_int mi 2 @ append_int s 2 @ ''Z''))"

definition event_lines :: "(uuid \<Rightarrow> string) \<Rightarrow> Schedule \<Rightarrow> string list" where
  "event_lines uuid_text schedule =
     [''BEGIN:VEVENT'', ''UID:'' @ uuid_text (s_ID schedule) @ ''@svc-core'', ''DTSTAMP:'' @ format_ics (s_CreatedAt schedule)]
     @ (case (s_AllDay schedule, s_StartDate schedule, s_EndDate schedule) of
          (True, Some startDate, Some endDate) \<Rightarrow>
            [''DTSTART;VALUE=DATE:'' @ ReplaceAll ''-'' [] startDate, ''DTEND;VALUE=DATE:'' @ ReplaceAll ''-'' [] endDate]
        | _ \<Rightarrow> (''DTSTART:'' @ format_ics (s_StartAt schedule)) #
            (case s_EndAt schedule of None \<Rightarrow> [] | Some endAt \<Rightarrow> [''DTEND:'' @ format_ics endAt]))
     @ [''SUMMARY:'' @ escapeICS (s_Title schedule)]
     @ (case s_Description schedule of None \<Rightarrow> [] | Some d \<Rightarrow> [''DESCRIPTION:'' @ escapeICS d])
     @ (case s_Location schedule of None \<Rightarrow> [] | Some l \<Rightarrow> [''LOCATION:'' @ escapeICS l])
     @ [if s_Status schedule = ''cancelled'' then ''STATUS:CANCELLED''
        else if s_Status schedule = ''tentative'' then ''STATUS:TENTATIVE'' else ''STATUS:CONFIRMED'', ''END:VEVENT'']"

definition calendar_lines :: "(uuid \<Rightarrow> string) \<Rightarrow> Schedule list \<Rightarrow> string list" where
  "calendar_lines uuid_text schedules =
     [''BEGIN:VCALENDAR'', ''VERSION:2.0'', ''PRODID:-//svc-core//Schedule Calendar//EN'', ''CALSCALE:GREGORIAN'']
     @ concat (map (event_lines uuid_text) schedules) @ [''END:VCALENDAR'']"

definition schedulesCalendar :: "(uuid \<Rightarrow> string) \<Rightarrow> Schedule list \<Rightarrow> string" where
  "schedulesCalendar uuid_text schedules = concat (map (\<lambda>line. foldICSLine line @ [CR, LF]) (calendar_lines uuid_text schedules))"

section \<open>Escaping\<close>

text \<open>Escaping in one pass.\<close>

fun skip_lf :: "string \<Rightarrow> string" where
  "skip_lf [] = []"
| "skip_lf (d # ds) = (if d = LF then ds else d # ds)"

lemma length_skip_lf: "length (skip_lf cs) \<le> length cs"
  by (cases cs) auto

function escape :: "string \<Rightarrow> string" where
  "escape [] = []"
| "escape (c # cs) =
     (if c = BS \<or> c = CHR '';'' \<or> c = CHR '','' then BS # c # escape cs
      else if c = LF then BS # CHR ''n'' # escape cs
      else if c = CR then BS # CHR ''n'' # escape (skip_lf cs)
      else c # escape cs)"
  by pat_completeness auto
termination
  by (relation "measure length") (auto simp: le_imp_less_Suc length_skip_lf)

text \<open>The text a reader recovers, and the line breaks that cannot be told apart.\<close>

fun unescape :: "string \<Rightarrow> string" where
  "unescape (c # d # cs) = (if c = BS then (if d = CHR ''n'' then LF else d) # unescape cs else c # unescape (d # cs))"
| "unescape cs = cs"

function normal_breaks :: "string \<Rightarrow> string" where
  "normal_breaks [] = []"
| "normal_breaks (c # cs) =
     (if c = CR then LF # normal_breaks (skip_lf cs)
      else c # normal_breaks cs)"
  by pat_completeness auto
termination
  by (relation "measure length") (auto simp: le_imp_less_Suc length_skip_lf)

definition escape_specials :: "char \<Rightarrow> string" where
  "escape_specials c = (if c = BS \<or> c = CHR '';'' \<or> c = CHR '','' then [BS, c] else [c])"

lemma concat_map_concat: "concat (map f (concat (map g xs))) = concat (map (\<lambda>x. concat (map f (g x))) xs)"
  by (induction xs) auto

lemma escape_specials_passes:
  "ReplaceAll '','' [BS, CHR '',''] (ReplaceAll '';'' [BS, CHR '';''] (ReplaceAll [BS] [BS, BS] v)) = concat (map escape_specials v)"
  unfolding ReplaceAll_char concat_map_concat by (intro arg_cong[where f = concat] map_cong) (auto simp: escape_specials_def)

lemma escape_breaks_passes:
  "ReplaceAll [CR] [BS, CHR ''n''] (ReplaceAll [LF] [BS, CHR ''n''] (ReplaceAll [CR, LF] [BS, CHR ''n''] (concat (map escape_specials v)))) = escape v"
proof (induction v rule: escape.induct)
  case 1
  then show ?case by simp
next
  case (2 c cs)
  consider "c = BS \<or> c = CHR '';'' \<or> c = CHR '',''" | "c = LF" | "c = CR" | "c \<notin> {BS, CHR '';'', CHR '','', LF, CR}" by auto
  then show ?case
  proof cases
    case 1
    then show ?thesis using 2 by (auto simp: escape_specials_def)
  next
    case 2
    then show ?thesis using "2.IH" by (auto simp: escape_specials_def)
  next
    case 3
    show ?thesis
    proof (cases cs)
      case Nil
      then show ?thesis using 3 by (simp add: escape_specials_def)
    next
      case (Cons d ds)
      have cr: "escape_specials CR = [CR]" by (simp add: escape_specials_def)
      show ?thesis
      proof (cases "d = LF")
        case True
        have lf: "escape_specials LF = [LF]" by (simp add: escape_specials_def)
        show ?thesis using 3 Cons True "2.IH"(3) by (simp add: cr lf)
      next
        case False
        have "\<exists>x xs. escape_specials d = x # xs \<and> x \<noteq> LF" using False by (simp add: escape_specials_def)
        then obtain x xs where x: "escape_specials d = x # xs" "x \<noteq> LF" by blast
        show ?thesis using 3 Cons False "2.IH"(3) x by (simp add: cr del: ReplaceAll.simps(2)) (simp add: ReplaceAll.simps(2)[of _ _ CR])
      qed
    qed
  next
    case 4
    then show ?thesis using "2.IH" by (auto simp: escape_specials_def)
  qed
qed

lemma escapeICS_escape: "escapeICS v = escape v"
  by (simp add: escapeICS_def Let_def escape_specials_passes escape_breaks_passes)

lemma unescape_escape: "unescape (escape v) = normal_breaks v"
proof (induction v rule: escape.induct)
  case (2 c cs)
  have plain: "unescape (c # s) = c # unescape s" if "c \<noteq> BS" for s using that by (cases s) auto
  show ?case using 2 plain by auto
qed simp

text \<open>What is left of the characters with a meaning: each follows a backslash.\<close>

fun escaped :: "string \<Rightarrow> bool" where
  "escaped [] = True"
| "escaped (c # cs) = (if c = BS then (case cs of [] \<Rightarrow> False | d # ds \<Rightarrow> d \<in> {BS, CHR '';'', CHR '','', CHR ''n''} \<and> escaped ds)
     else c \<notin> {CHR '';'', CHR '','', CR, LF} \<and> escaped cs)"

lemma escaped_escape: "escaped (escape v)"
  by (induction v rule: escape.induct) auto

text \<open>
  C32: Escaping loses nothing but the form of line breaks: undoing it gives back the text with every
  line break turned into a single line feed. In the escaped text every backslash starts an escape
  sequence, semicolons and commas appear only in such sequences, and there is no raw line break.\<close>

theorem escapeICS_roundtrip: "unescape (escapeICS v) = normal_breaks v \<and> escaped (escapeICS v)"
  by (simp add: escapeICS_escape unescape_escape escaped_escape)

section \<open>Folding\<close>

text \<open>The physical lines of a folded line; all but the first start with the space of the continuation.\<close>

fun fold_chunks :: "nat \<Rightarrow> string list \<Rightarrow> string list" where
  "fold_chunks column [] = [[]]"
| "fold_chunks column (r # rs) =
     (let w = length (rune_text r)
      in if 75 < column + w then [] # (case fold_chunks (1 + w) rs of x # xs \<Rightarrow> (rune_text r @ x) # xs | [] \<Rightarrow> [rune_text r])
         else (case fold_chunks (column + w) rs of x # xs \<Rightarrow> (rune_text r @ x) # xs | [] \<Rightarrow> [rune_text r]))"

fun join_chunks :: "string list \<Rightarrow> string" where
  "join_chunks [] = []"
| "join_chunks [x] = x"
| "join_chunks (x # y # ys) = x @ [CR, LF, CHR '' ''] @ join_chunks (y # ys)"

lemma fold_chunks_nonempty: "fold_chunks column rs \<noteq> []"
  by (cases rs) (auto simp: Let_def split: list.split)

lemma join_chunks_prefix: "xs \<noteq> [] \<Longrightarrow> join_chunks ((a @ hd xs) # tl xs) = a @ join_chunks xs"
  by (cases xs rule: join_chunks.cases) auto

lemma fold_runes_chunks: "fold_runes column rs = join_chunks (fold_chunks column rs)"
proof (induction column rs rule: fold_runes.induct)
  case (2 column r rs)
  let ?w = "length (rune_text r)"
  obtain x xs where xs: "fold_chunks (if 75 < column + ?w then 1 + ?w else column + ?w) rs = x # xs"
    using fold_chunks_nonempty by (meson list.exhaust)
  show ?case
    using 2 xs join_chunks_prefix[of "x # xs" "rune_text r"] by (auto simp: Let_def split: if_splits)
qed simp

lemma concat_fold_chunks: "concat (fold_chunks column rs) = concat (map rune_text rs)"
proof (induction column rs rule: fold_chunks.induct)
  case (2 column r rs)
  then show ?case
    using fold_chunks_nonempty by (auto simp: Let_def split: list.split)
qed simp

lemma fold_chunks_bounds:
  assumes "column \<le> 75" and "\<forall>r \<in> set rs. length (rune_text r) \<le> 4"
  shows "column + length (hd (fold_chunks column rs)) \<le> 75 \<and> (\<forall>x \<in> set (tl (fold_chunks column rs)). length x \<le> 74)"
  using assms
proof (induction column rs rule: fold_chunks.induct)
  case (2 column r rs)
  let ?w = "length (rune_text r)"
  have w: "?w \<le> 4" using 2 by simp
  show ?case
  proof (cases "75 < column + ?w")
    case True
    obtain x xs where xs: "fold_chunks (1 + ?w) rs = x # xs" using fold_chunks_nonempty by (meson list.exhaust)
    with "2.IH"(1)[OF refl True] w 2(4) have "1 + ?w + length x \<le> 75 \<and> (\<forall>x \<in> set xs. length x \<le> 74)" by simp
    then show ?thesis using True xs 2(3) by (auto simp: Let_def)
  next
    case False
    obtain x xs where xs: "fold_chunks (column + ?w) rs = x # xs" using fold_chunks_nonempty by (meson list.exhaust)
    with "2.IH"(2)[OF refl False] False 2(4) have "column + ?w + length x \<le> 75 \<and> (\<forall>x \<in> set xs. length x \<le> 74)" by simp
    then show ?thesis using False xs by (auto simp: Let_def)
  qed
qed simp

text \<open>
  C33: A folded line consists of physical lines of at most 75 octets, the later ones counting their
  leading space, and for valid UTF-8 the physical lines join to the original line.\<close>

theorem foldICSLine_lines:
  "\<exists>first rest. foldICSLine line = join_chunks (first # rest) \<and> length first \<le> 75 \<and> list_all (\<lambda>x. length ('' '' @ x) \<le> 75) rest
     \<and> (valid_utf8 line \<longrightarrow> concat (first # rest) = line)"
proof -
  obtain x xs where xs: "fold_chunks 0 (runes line) = x # xs" using fold_chunks_nonempty by (meson list.exhaust)
  have "\<forall>r \<in> set (runes line). length (rune_text r) \<le> 4" using rune_text_short by blast
  then have "length x \<le> 75 \<and> (\<forall>y \<in> set xs. length y \<le> 74)" using fold_chunks_bounds[of 0 "runes line"] xs by simp
  moreover have "foldICSLine line = join_chunks (x # xs)" by (simp add: foldICSLine_def fold_runes_chunks xs)
  moreover have "valid_utf8 line \<longrightarrow> concat (x # xs) = line" using concat_fold_chunks[of 0 "runes line"] xs rune_text_valid by simp
  ultimately show ?thesis by (intro exI[of _ x] exI[of _ xs]) (auto simp: list_all_iff)
qed

lemma foldICSLine_lines_witness:
  "\<exists>first rest. foldICSLine (replicate 80 CHR ''x'') = join_chunks (first # rest) \<and> length first \<le> 75 \<and> concat (first # rest) = replicate 80 CHR ''x''"
proof -
  have "valid_utf8 (replicate 80 CHR ''x'')" by code_simp
  with foldICSLine_lines[of "replicate 80 CHR ''x''"] show ?thesis by blast
qed

end
