(* ===== verification/Http.thy ===== *)
theory Http
  imports Input System Ics
begin

text \<open>
  The handlers of \<open>internal/api\<close> for schedules and reminders (\<open>schedules.go\<close>, \<open>reminders.go\<close>,
  \<open>ics.go\<close>, \<open>recurrence.go\<close>): what they answer to a request and what they ask of the service. A request
  is its authenticated user, path parameters, query, headers and body; a response is its status, the
  headers that carry information and the value that is encoded into its body.
\<close>

section \<open>Requests and responses\<close>

record http_request =
  hr_user :: "uuid option"
  hr_id :: string
  hr_reminderId :: string
  hr_query :: "(string \<times> string list) list"
  hr_header :: "string \<Rightarrow> string"
  hr_body :: body

definition query_Get :: "http_request \<Rightarrow> string \<Rightarrow> string" where
  "query_Get rq name = (case map_of (hr_query rq) name of Some (v # _) \<Rightarrow> v | _ \<Rightarrow> [])"

record reminderResponse =
  rrs_ID :: string
  rrs_ScheduleID :: string
  rrs_MinutesBefore :: int
  rrs_Channel :: string
  rrs_CreatedAt :: time

record scheduleResponse =
  srs_ID :: string
  srs_Revision :: int
  srs_UserID :: string
  srs_Title :: string
  srs_Description :: "string option"
  srs_Location :: "string option"
  srs_StartAt :: time
  srs_EndAt :: "time option"
  srs_AllDay :: bool
  srs_Timezone :: string
  srs_StartDate :: "string option"
  srs_EndDate :: "string option"
  srs_Status :: string
  srs_Source :: string
  srs_ExtractionID :: "string option"
  srs_CreatedAt :: time
  srs_UpdatedAt :: time
  srs_Reminders :: "reminderResponse list"
  srs_SeriesID :: "string option"
  srs_OccurrenceIndex :: "int option"
  srs_Recurrence :: "RecurrenceRule option"

record reminderValidityResponse =
  rv_Valid :: bool
  rv_ScheduleID :: string
  rv_UserID :: string
  rv_Title :: string
  rv_Revision :: int
  rv_Status :: string
  rv_StartAt :: "time option"
  rv_EndAt :: "time option"
  rv_AllDay :: bool
  rv_Timezone :: string
  rv_StartDate :: "string option"
  rv_EndDate :: "string option"

datatype http_body = BError string | BSchedule scheduleResponse | BSchedules "scheduleResponse list" "string option"
  | BReminder reminderResponse | BReminders "reminderResponse list" | BDeleted int
  | BRecurrence "recurrenceOccurrence list" "recurrenceSkipped list" | BCalendar string
  | BExtraction "ExtractCandidate list" bool | BValidity reminderValidityResponse | BStrings "(string \<times> string) list"
  | BText string | BNone

record http_response =
  h_status :: int
  h_headers :: "(string \<times> string) list"
  h_body :: http_body

definition toReminderResponse :: "env \<Rightarrow> Reminder \<Rightarrow> reminderResponse" where
  "toReminderResponse e r = \<lparr>rrs_ID = uuid_string e (rem_ID r), rrs_ScheduleID = uuid_string e (rem_ScheduleID r),
     rrs_MinutesBefore = rem_MinutesBefore r, rrs_Channel = rem_Channel r, rrs_CreatedAt = rem_CreatedAt r\<rparr>"

definition toScheduleResponse :: "env \<Rightarrow> Schedule \<Rightarrow> scheduleResponse" where
  "toScheduleResponse e s = \<lparr>srs_ID = uuid_string e (s_ID s), srs_Revision = s_Revision s, srs_UserID = uuid_string e (s_UserID s),
     srs_Title = s_Title s, srs_Description = s_Description s, srs_Location = s_Location s, srs_StartAt = s_StartAt s,
     srs_EndAt = s_EndAt s, srs_AllDay = s_AllDay s, srs_Timezone = s_Timezone s, srs_StartDate = s_StartDate s,
     srs_EndDate = s_EndDate s, srs_Status = s_Status s, srs_Source = s_Source s,
     srs_ExtractionID = map_option (uuid_string e) (s_ExtractionID s), srs_CreatedAt = s_CreatedAt s, srs_UpdatedAt = s_UpdatedAt s,
     srs_Reminders = map (toReminderResponse e) (s_Reminders s), srs_SeriesID = map_option (uuid_string e) (s_SeriesID s),
     srs_OccurrenceIndex = s_OccurrenceIndex s, srs_Recurrence = s_Recurrence s\<rparr>"

definition writeJSON :: "int \<Rightarrow> http_body \<Rightarrow> http_response" where
  "writeJSON status b = \<lparr>h_status = status, h_headers = [(''Content-Type'', ''application/json'')], h_body = b\<rparr>"

text \<open>\<open>w.Header().Set\<close> before the response is written.\<close>

definition set_header :: "string \<Rightarrow> string \<Rightarrow> http_response \<Rightarrow> http_response" where
  "set_header name v r = r\<lparr>h_headers := (name, v) # filter (\<lambda>h. fst h \<noteq> name) (h_headers r)\<rparr>"

definition no_content :: http_response where
  "no_content = \<lparr>h_status = 204, h_headers = [], h_body = BNone\<rparr>"

definition writeError :: "problem \<Rightarrow> http_response" where
  "writeError p = writeJSON (fst p) (BError (snd p))"

definition unauthorized :: http_response where
  "unauthorized = writeError (401, ''unauthorized'')"

definition writeScheduleJSON :: "int \<Rightarrow> env \<Rightarrow> Schedule \<Rightarrow> http_response" where
  "writeScheduleJSON status e s = set_header ''ETag'' (etag (s_Revision s)) (writeJSON status (BSchedule (toScheduleResponse e s)))"

section \<open>Handlers as programs\<close>

type_synonym handler = "env \<Rightarrow> world \<Rightarrow> http_response \<times> world"

definition respond :: "http_response \<Rightarrow> handler" where
  "respond r = (\<lambda>e w. (r, w))"

definition accepted :: "problem + 'a \<Rightarrow> ('a \<Rightarrow> handler) \<Rightarrow> handler" where
  "accepted r k = (case r of Inl p \<Rightarrow> respond (writeError p) | Inr x \<Rightarrow> k x)"

definition reading :: "(env \<Rightarrow> handler) \<Rightarrow> handler" where
  "reading k = (\<lambda>e. k e e)"

text \<open>A call of the service: an error becomes a response, a result goes on.\<close>

definition calling :: "'a tx \<Rightarrow> (err \<Rightarrow> problem) \<Rightarrow> ('a \<Rightarrow> handler) \<Rightarrow> handler" where
  "calling m problem_of k = (\<lambda>e w. case m e w of
     (Inl er, w') \<Rightarrow> (writeError (problem_of er), w')
   | (Inr x, w') \<Rightarrow> k x e w')"

definition authenticated :: "http_request \<Rightarrow> (uuid \<Rightarrow> handler) \<Rightarrow> handler" where
  "authenticated rq = accepted (or_refuse (hr_user rq) 401 ''unauthorized'')"

definition decoded :: "'a \<Rightarrow> 'a decoder \<Rightarrow> http_request \<Rightarrow> problem + 'a" where
  "decoded zero dec rq = or_refuse (Option.bind (body_json (hr_body rq)) (dec zero)) 400 ''invalid json body''"

definition path_id :: "api \<Rightarrow> string \<Rightarrow> string \<Rightarrow> problem + uuid" where
  "path_id a s message = or_refuse (uuid_Parse a s) 400 message"

definition request_key :: "http_request \<Rightarrow> problem + string" where
  "request_key rq = (case idempotencyKey (hr_header rq ''Idempotency-Key'') of (key, valid) \<Rightarrow>
     if valid then Inr key else Inl (400, ''invalid Idempotency-Key''))"

section \<open>Errors of the service\<close>

text \<open>The text of the two errors whose text is sent.\<close>

fun err_text :: "err \<Rightarrow> string" where
  "err_text ErrReminderLimit = ''reminder limit reached''"
| "err_text ErrDuplicateReminder = ''duplicate reminder''"
| "err_text _ = []"

definition conflict_problem :: problem where
  "conflict_problem = (409, ''Idempotency-Key reused with different content'')"

definition deleted_problem :: problem where
  "deleted_problem = (410, ''account has been deleted'')"

definition stale_problem :: problem where
  "stale_problem = (412, ''schedule changed; reload and retry'')"

fun create_problem :: "err \<Rightarrow> problem" where
  "create_problem ErrIdempotencyConflict = conflict_problem"
| "create_problem ErrAccountDeleted = deleted_problem"
| "create_problem ErrReminderLimit = (409, err_text ErrReminderLimit)"
| "create_problem ErrDuplicateReminder = (409, err_text ErrDuplicateReminder)"
| "create_problem ErrInvalidReminder = (400, ''minutes_before must be between 0 and 10080'')"
| "create_problem _ = (500, ''failed to create schedule'')"

fun get_problem :: "err \<Rightarrow> problem" where
  "get_problem ErrNotFound = (404, ''schedule not found'')"
| "get_problem _ = (500, ''failed to get schedule'')"

fun replay_problem :: "err \<Rightarrow> problem" where
  "replay_problem ErrIdempotencyConflict = conflict_problem"
| "replay_problem ErrNotFound = (404, ''schedule not found'')"
| "replay_problem _ = (500, ''failed to load schedule retry'')"

fun update_problem :: "err \<Rightarrow> problem" where
  "update_problem ErrIdempotencyConflict = conflict_problem"
| "update_problem ErrNotFound = (404, ''schedule not found'')"
| "update_problem ErrRevisionConflict = stale_problem"
| "update_problem ErrNotRecurring = (400, ''following scope requires a recurring schedule'')"
| "update_problem ErrAccountDeleted = deleted_problem"
| "update_problem ErrInvalidSchedule = (400, ''end_at must be at least 1ms after start_at'')"
| "update_problem _ = (500, ''failed to update schedule'')"

fun delete_problem :: "err \<Rightarrow> problem" where
  "delete_problem ErrIdempotencyConflict = conflict_problem"
| "delete_problem ErrNotFound = (404, ''schedule not found'')"
| "delete_problem ErrNotRecurring = (400, ''following scope requires a recurring schedule'')"
| "delete_problem ErrRevisionConflict = stale_problem"
| "delete_problem ErrAccountDeleted = deleted_problem"
| "delete_problem _ = (500, ''failed to delete schedule'')"

fun bulk_problem :: "err \<Rightarrow> problem" where
  "bulk_problem ErrIdempotencyConflict = conflict_problem"
| "bulk_problem ErrNotFound = (404, ''one or more schedules not found'')"
| "bulk_problem ErrAccountDeleted = deleted_problem"
| "bulk_problem _ = (500, ''failed to bulk delete schedules'')"

fun list_reminders_problem :: "err \<Rightarrow> problem" where
  "list_reminders_problem ErrNotFound = (404, ''schedule not found'')"
| "list_reminders_problem ErrAccountDeleted = deleted_problem"
| "list_reminders_problem _ = (500, ''failed to list reminders'')"

fun add_reminder_problem :: "err \<Rightarrow> problem" where
  "add_reminder_problem ErrIdempotencyConflict = conflict_problem"
| "add_reminder_problem ErrReminderLimit = (409, err_text ErrReminderLimit)"
| "add_reminder_problem ErrDuplicateReminder = (409, err_text ErrDuplicateReminder)"
| "add_reminder_problem ErrInvalidReminder = (400, ''minutes_before must be between 0 and 10080'')"
| "add_reminder_problem ErrNotFound = (404, ''schedule not found'')"
| "add_reminder_problem ErrAccountDeleted = deleted_problem"
| "add_reminder_problem _ = (500, ''failed to add reminder'')"

fun delete_reminder_problem :: "err \<Rightarrow> problem" where
  "delete_reminder_problem ErrIdempotencyConflict = conflict_problem"
| "delete_reminder_problem ErrNotFound = (404, ''reminder not found'')"
| "delete_reminder_problem _ = (500, ''failed to delete reminder'')"

section \<open>Schedules\<close>

definition Handler_CreateSchedule :: "api \<Rightarrow> http_request \<Rightarrow> handler" where
  "Handler_CreateSchedule a rq =
     authenticated rq (\<lambda>userID.
     accepted (decoded zero_create into_create rq) (\<lambda>req.
     reading (\<lambda>e. accepted (create_request a (load_location e) (uuid_string e userID) userID req (hr_header rq ''Idempotency-Key'')) (\<lambda>(inp, occurrences).
       calling (case occurrences of Some occs \<Rightarrow> CreateRecurringSchedules userID inp occs | None \<Rightarrow> CreateSchedule userID inp) create_problem (\<lambda>sch.
       respond (writeScheduleJSON 201 e sch))))))"

definition Handler_GetSchedule :: "api \<Rightarrow> http_request \<Rightarrow> handler" where
  "Handler_GetSchedule a rq =
     authenticated rq (\<lambda>userID.
     accepted (path_id a (hr_id rq) ''invalid schedule id'') (\<lambda>ident.
     calling (GetSchedule userID ident) get_problem (\<lambda>sch.
     reading (\<lambda>e. respond (writeScheduleJSON 200 e sch)))))"

subsection \<open>Lists\<close>

text \<open>The range of a list or an export: both ends, and their local dates, the second one rounded up.\<close>

definition upper_date :: "location \<Rightarrow> time \<Rightarrow> string" where
  "upper_date zone t =
     (if wall_clock (wall zone t) = (0, 0, 0) \<and> t mod second = 0 then format_date (date_in zone t)
      else format_date (date_in zone (add_date zone t 0 0 1)))"

definition max_range :: duration where "max_range = 366 * 24 * hour"

definition display_timezone :: "http_request \<Rightarrow> string" where
  "display_timezone rq = (let tz = query_Get rq ''timezone'' in if tz = [] then ''UTC'' else tz)"

definition hex_digit :: "nat \<Rightarrow> char" where
  "hex_digit k = ''0123456789abcdef'' ! k"

definition hash_hex :: "hash \<Rightarrow> string" where
  "hash_hex h = map (\<lambda>k. hex_digit (unat h div 16 ^ (63 - k) mod 16)) [0..<64]"

definition listFilterHash :: "api \<Rightarrow> env \<Rightarrow> uuid \<Rightarrow> time \<Rightarrow> time \<Rightarrow> string option \<Rightarrow> string \<Rightarrow> string \<Rightarrow> string" where
  "listFilterHash a e userID from until status qry timezone =
     hash_hex (sha256 e (a_json_strings a [uuid_string e userID, format_rfc3339nano from, format_rfc3339nano until,
       (case status of None \<Rightarrow> [] | Some s \<Rightarrow> s), qry, timezone]))"

record list_query =
  lq_from :: time
  lq_to :: time
  lq_zone :: location
  lq_status :: "string option"
  lq_limit :: nat
  lq_cursor :: "string option"

definition list_range :: "env \<Rightarrow> http_request \<Rightarrow> problem + time \<times> time \<times> location" where
  "list_range e rq =
     andthen (refuse_if (query_Get rq ''from'' = [] \<or> query_Get rq ''to'' = []) 400 ''from and to are required'') (\<lambda>_.
     andthen (or_refuse (time_Parse (query_Get rq ''from'')) 400 ''invalid from (want RFC3339)'') (\<lambda>from.
     andthen (or_refuse (time_Parse (query_Get rq ''to'')) 400 ''invalid to (want RFC3339)'') (\<lambda>until.
     andthen (refuse_if (\<not> from < until) 400 ''from must be before to'') (\<lambda>_.
     andthen (refuse_if (max_range < time_sub until from) 400 ''date range must not exceed 366 days'') (\<lambda>_.
     andthen (or_refuse (load_location e (display_timezone rq)) 400 ''timezone must be an IANA timezone'') (\<lambda>zone.
     Inr (from, until, zone)))))))"

definition repeated :: "string list option \<Rightarrow> bool" where
  "repeated vs = (case vs of None \<Rightarrow> False | Some l \<Rightarrow> length l \<noteq> 1)"

definition list_request :: "env \<Rightarrow> http_request \<Rightarrow> problem + list_query" where
  "list_request e rq =
     andthen (list_range e rq) (\<lambda>(from, until, zone).
     let status = query_Get rq ''status''; limits = map_of (hr_query rq) ''limit''; cursors = map_of (hr_query rq) ''cursor'' in
     andthen (refuse_if (status \<noteq> [] \<and> \<not> validStatuses status) 400 ''invalid status'') (\<lambda>_.
     andthen (refuse_if (repeated limits \<or> repeated cursors) 400
       ''limit and cursor may be specified once'') (\<lambda>_.
     andthen (case limits of
         Some (v # _) \<Rightarrow>
           (case Atoi v of
              Some n \<Rightarrow> if n < 1 \<or> n > 100 then Inl (400, ''limit must be between 1 and 100'') else Inr (nat n)
            | None \<Rightarrow> Inl (400, ''limit must be between 1 and 100''))
       | _ \<Rightarrow> Inr 20) (\<lambda>limit.
     Inr \<lparr>lq_from = from, lq_to = until, lq_zone = zone, lq_status = (if status = [] then None else Some status),
       lq_limit = limit, lq_cursor = (if cursors = None then None else Some (query_Get rq ''cursor''))\<rparr>))))"

definition list_cursor :: "api \<Rightarrow> string \<Rightarrow> time \<Rightarrow> string option \<Rightarrow> problem + ScheduleCursor option" where
  "list_cursor a filterHash until token =
     (case token of
        None \<Rightarrow> Inr None
      | Some t \<Rightarrow>
          andthen (or_refuse (decodeScheduleCursor (a_codec a) t filterHash) 400 ''invalid cursor'') (\<lambda>cursor.
          andthen (refuse_if (\<not> cur_StartAt cursor < until) 400 ''invalid cursor'') (\<lambda>_. Inr (Some cursor))))"

definition next_cursor :: "api \<Rightarrow> string \<Rightarrow> bool \<Rightarrow> Schedule list \<Rightarrow> string option" where
  "next_cursor a filterHash hasMore schedules =
     (if hasMore \<and> schedules \<noteq> []
      then Some (encodeScheduleCursor (a_codec a) (s_StartAt (last schedules)) (s_ID (last schedules)) filterHash) else None)"

definition Handler_ListSchedules :: "api \<Rightarrow> http_request \<Rightarrow> handler" where
  "Handler_ListSchedules a rq =
     authenticated rq (\<lambda>userID. reading (\<lambda>e.
     accepted (list_request e rq) (\<lambda>q.
     let search = query_Get rq ''q'';
         filterHash = listFilterHash a e userID (lq_from q) (lq_to q) (lq_status q) search (display_timezone rq) in
     accepted (list_cursor a filterHash (lq_to q) (lq_cursor q)) (\<lambda>cursor.
     calling (ListSchedulesPage userID (lq_from q) (lq_to q) (format_date (date_in (lq_zone q) (lq_from q)))
         (upper_date (lq_zone q) (lq_to q)) (lq_status q) search cursor (lq_limit q))
       (\<lambda>_. (500, ''failed to list schedules'')) (\<lambda>(schedules, hasMore).
     respond (writeJSON 200 (BSchedules (map (toScheduleResponse e) schedules) (next_cursor a filterHash hasMore schedules))))))))"

definition maxICSExportEvents :: nat where "maxICSExportEvents = 100"

definition export_range :: "env \<Rightarrow> http_request \<Rightarrow> problem + time \<times> time \<times> location" where
  "export_range e rq =
     andthen (or_refuse (time_Parse (query_Get rq ''from'')) 400 ''from is required and must be RFC3339'') (\<lambda>from.
     andthen (or_refuse (time_Parse (query_Get rq ''to'')) 400 ''to is required, must be RFC3339, and must be after from'') (\<lambda>until.
     andthen (refuse_if (\<not> from < until) 400 ''to is required, must be RFC3339, and must be after from'') (\<lambda>_.
     andthen (refuse_if (max_range < time_sub until from) 400 ''date range must not exceed 366 days'') (\<lambda>_.
     andthen (or_refuse (load_location e (display_timezone rq)) 400 ''timezone must be an IANA timezone'') (\<lambda>zone.
     Inr (from, until, zone))))))"

definition Handler_ExportSchedulesICS :: "api \<Rightarrow> http_request \<Rightarrow> handler" where
  "Handler_ExportSchedulesICS a rq =
     authenticated rq (\<lambda>userID. reading (\<lambda>e.
     accepted (export_range e rq) (\<lambda>(from, until, zone).
     calling (ListSchedulesPage userID from until (format_date (date_in zone from)) (upper_date zone until) None [] None maxICSExportEvents)
       (\<lambda>_. (500, ''failed to export schedules'')) (\<lambda>(schedules, hasMore).
     accepted (refuse_if hasMore 413 ''export exceeds 100 schedules; narrow the date range'') (\<lambda>_.
     respond \<lparr>h_status = 200, h_headers = [(''X-Event-Count'', nat_digits (length schedules)),
         (''Content-Disposition'', ''attachment; filename='' @ [CHR 0x22] @ ''schedules.ics'' @ [CHR 0x22]), (''Content-Type'', ''text/calendar; charset=utf-8'')],
       h_body = BCalendar (schedulesCalendar (uuid_string e) schedules)\<rparr>)))))"

subsection \<open>Updates\<close>

type_synonym raw_body = "string \<Rightarrow> json option"

definition readString :: "json option \<Rightarrow> string" where
  "readString raw = (case raw of Some (JString s) \<Rightarrow> s | _ \<Rightarrow> [])"

text \<open>One member of a patch: absent members leave the patch alone, others must decode.\<close>

definition patch_member :: "raw_body \<Rightarrow> string \<Rightarrow> (json \<Rightarrow> problem + SchedulePatch) \<Rightarrow> SchedulePatch \<Rightarrow> problem + SchedulePatch" where
  "patch_member raw name k p = (case raw name of None \<Rightarrow> Inr p | Some j \<Rightarrow> k j)"

definition patch_title :: "raw_body \<Rightarrow> SchedulePatch \<Rightarrow> problem + SchedulePatch" where
  "patch_title raw p = patch_member raw ''title'' (\<lambda>j.
     case into_text None j of
       Some (Some t) \<Rightarrow>
         (case normalizeTitle t of (title, valid) \<Rightarrow>
            if valid then Inr (p\<lparr>p_Title := Some title\<rparr>) else Inl (400, ''title must contain 1 to 255 characters''))
     | _ \<Rightarrow> Inl (400, ''title must be a non-empty string'')) p"

definition patch_description :: "raw_body \<Rightarrow> SchedulePatch \<Rightarrow> problem + SchedulePatch" where
  "patch_description raw p = patch_member raw ''description'' (\<lambda>j.
     andthen (or_refuse (into_text None j) 400 ''invalid description'') (\<lambda>v. Inr (p\<lparr>p_Description := Some v\<rparr>))) p"

definition patch_location :: "raw_body \<Rightarrow> SchedulePatch \<Rightarrow> problem + SchedulePatch" where
  "patch_location raw p = patch_member raw ''location'' (\<lambda>j.
     andthen (or_refuse (into_text None j) 400 ''invalid location'') (\<lambda>v. Inr (p\<lparr>p_Location := Some v\<rparr>))) p"

definition patch_start_at :: "raw_body \<Rightarrow> SchedulePatch \<Rightarrow> problem + SchedulePatch" where
  "patch_start_at raw p = patch_member raw ''start_at'' (\<lambda>j.
     case into_pointer zero_time into_time None j of
       Some (Some t) \<Rightarrow> Inr (p\<lparr>p_StartAt := Some t\<rparr>)
     | _ \<Rightarrow> Inl (400, ''start_at must be a non-null RFC3339 timestamp'')) p"

definition patch_end_at :: "raw_body \<Rightarrow> SchedulePatch \<Rightarrow> problem + SchedulePatch" where
  "patch_end_at raw p = patch_member raw ''end_at'' (\<lambda>j.
     andthen (or_refuse (into_pointer zero_time into_time None j) 400 ''invalid end_at'') (\<lambda>v. Inr (p\<lparr>p_EndAt := Some v\<rparr>))) p"

definition patch_all_day :: "raw_body \<Rightarrow> SchedulePatch \<Rightarrow> problem + SchedulePatch" where
  "patch_all_day raw p = patch_member raw ''all_day'' (\<lambda>j.
     case into_pointer False into_bool None j of
       Some (Some b) \<Rightarrow> Inr (p\<lparr>p_AllDay := Some b\<rparr>)
     | _ \<Rightarrow> Inl (400, ''all_day must be a non-null boolean'')) p"

definition patch_timezone :: "(string \<Rightarrow> location option) \<Rightarrow> raw_body \<Rightarrow> SchedulePatch \<Rightarrow> problem + SchedulePatch" where
  "patch_timezone load raw p = patch_member raw ''timezone'' (\<lambda>j.
     case into_text None j of
       Some (Some tz) \<Rightarrow> if load tz = None then Inl (400, ''timezone must be an IANA timezone'') else Inr (p\<lparr>p_Timezone := Some tz\<rparr>)
     | _ \<Rightarrow> Inl (400, ''timezone must be an IANA timezone'')) p"

definition local_member :: "(string \<Rightarrow> location option) \<Rightarrow> raw_body \<Rightarrow> string \<Rightarrow> string \<Rightarrow> string \<Rightarrow> SchedulePatch \<Rightarrow> json \<Rightarrow> problem + time" where
  "local_member load raw other fld message p j =
     (case (into_text None j, p_Timezone p) of
        (Some (Some local), Some tz) \<Rightarrow>
          if raw other \<noteq> None then Inl (400, message)
          else map_sum writeTimeInputError (\<lambda>x. x) (resolveLocalDateTime load local tz (readString (raw fld)))
      | _ \<Rightarrow> Inl (400, message))"

definition patch_local_start :: "(string \<Rightarrow> location option) \<Rightarrow> raw_body \<Rightarrow> SchedulePatch \<Rightarrow> problem + SchedulePatch" where
  "patch_local_start load raw p = patch_member raw ''local_start_at'' (\<lambda>j.
     andthen (local_member load raw ''start_at'' ''start_fold'' ''local_start_at requires timezone and a local timestamp'' p j)
       (\<lambda>t. Inr (p\<lparr>p_StartAt := Some t\<rparr>))) p"

definition patch_local_end :: "(string \<Rightarrow> location option) \<Rightarrow> raw_body \<Rightarrow> SchedulePatch \<Rightarrow> problem + SchedulePatch" where
  "patch_local_end load raw p = patch_member raw ''local_end_at'' (\<lambda>j.
     andthen (local_member load raw ''end_at'' ''end_fold'' ''local_end_at requires timezone and a local timestamp'' p j)
       (\<lambda>t. Inr (p\<lparr>p_EndAt := Some (Some t)\<rparr>))) p"

definition patch_dates :: "(string \<Rightarrow> location option) \<Rightarrow> raw_body \<Rightarrow> SchedulePatch \<Rightarrow> problem + SchedulePatch" where
  "patch_dates load raw p = patch_member raw ''start_date'' (\<lambda>j.
     case (into_text None j, Option.bind (raw ''end_date'') (into_text None), p_Timezone p) of
       (Some (Some sd), Some (Some ed), Some tz) \<Rightarrow>
         (case (dateAtTimezoneMidnight load sd tz, dateAtTimezoneMidnight load ed tz) of
            (Inr start, Inr end) \<Rightarrow>
              if start < end
              then Inr (p\<lparr>p_StartDate := Some (Some sd), p_EndDate := Some (Some ed), p_StartAt := Some start,
                p_EndAt := Some (Some end), p_AllDay := Some True\<rparr>)
              else Inl (400, ''invalid all-day date range'')
          | _ \<Rightarrow> Inl (400, ''invalid all-day date range''))
     | _ \<Rightarrow> Inl (400, ''start_date and end_date require timezone and exclusive date values'')) p"

definition patch_status :: "raw_body \<Rightarrow> SchedulePatch \<Rightarrow> problem + SchedulePatch" where
  "patch_status raw p = patch_member raw ''status'' (\<lambda>j.
     case into_text None j of
       Some (Some st) \<Rightarrow> if validStatuses st then Inr (p\<lparr>p_Status := Some st\<rparr>) else Inl (400, ''status must be one of confirmed, tentative, cancelled'')
     | _ \<Rightarrow> Inl (400, ''status must be one of confirmed, tentative, cancelled'')) p"

definition derefStringPatch :: "string option option \<Rightarrow> string option" where
  "derefStringPatch v = (case v of None \<Rightarrow> None | Some x \<Rightarrow> x)"

definition empty_patch :: SchedulePatch where
  "empty_patch = \<lparr>p_ExpectedRevision = None, p_Scope = [], p_StartFold = [], p_EndFold = [], p_Title = None, p_Description = None,
     p_Location = None, p_StartAt = None, p_EndAt = None, p_AllDay = None, p_Timezone = None, p_StartDate = None, p_EndDate = None,
     p_Status = None\<rparr>"

definition patch_request :: "(string \<Rightarrow> location option) \<Rightarrow> raw_body \<Rightarrow> int \<Rightarrow> problem + SchedulePatch" where
  "patch_request load raw expectedRevision =
     (let scope = readString (raw ''scope'');
          start = empty_patch\<lparr>p_ExpectedRevision := Some expectedRevision, p_Scope := scope,
            p_StartFold := readString (raw ''start_fold''), p_EndFold := readString (raw ''end_fold'')\<rparr> in
      andthen (refuse_if (scope \<noteq> [] \<and> scope \<noteq> ''this'' \<and> scope \<noteq> ''following'') 400 ''scope must be this or following'') (\<lambda>_.
      andthen (patch_title raw start) (\<lambda>p.
      andthen (patch_description raw p) (\<lambda>p.
      andthen (patch_location raw p) (\<lambda>p.
      andthen (patch_start_at raw p) (\<lambda>p.
      andthen (patch_end_at raw p) (\<lambda>p.
      andthen (patch_all_day raw p) (\<lambda>p.
      andthen (patch_timezone load raw p) (\<lambda>p.
      andthen (patch_local_start load raw p) (\<lambda>p.
      andthen (patch_local_end load raw p) (\<lambda>p.
      andthen (patch_dates load raw p) (\<lambda>p.
      andthen (patch_status raw p) (\<lambda>p.
      let message = scheduleTextInputError (derefStringPatch (p_Description p)) (derefStringPatch (p_Location p)) in
      andthen (refuse_if (message \<noteq> []) 400 message) (\<lambda>_. Inr p))))))))))))))"

definition Handler_UpdateSchedule :: "api \<Rightarrow> http_request \<Rightarrow> handler" where
  "Handler_UpdateSchedule a rq =
     authenticated rq (\<lambda>userID.
     accepted (path_id a (hr_id rq) ''invalid schedule id'') (\<lambda>ident.
     accepted (or_refuse (parseIfMatch (hr_header rq ''If-Match'')) 428 ''If-Match with schedule ETag is required'') (\<lambda>expectedRevision.
     accepted (or_refuse (Option.bind (body_json (hr_body rq)) (\<lambda>j. map_option (Pair j) (into_raw_map j))) 400 ''invalid json body'') (\<lambda>(j, members).
     accepted (request_key rq) (\<lambda>key. reading (\<lambda>e.
     let requestHash = sha256 e (a_json_patch a j (hr_header rq ''If-Match'')) in
     calling (ReplayScheduleUpdate userID ident key requestHash) replay_problem (\<lambda>replay.
     case replay of
       Some sch \<Rightarrow> respond (writeScheduleJSON 200 e sch)
     | None \<Rightarrow>
         accepted (patch_request (load_location e) (raw_member members) expectedRevision) (\<lambda>fields.
         calling (UpdateSchedule userID ident fields key requestHash) update_problem (\<lambda>updated.
         respond (writeScheduleJSON 200 e updated))))))))))"

subsection \<open>Deletions\<close>

definition request_scope :: "http_request \<Rightarrow> string" where
  "request_scope rq = (let s = query_Get rq ''scope'' in if s = [] then ''this'' else s)"

definition Handler_DeleteSchedule :: "api \<Rightarrow> http_request \<Rightarrow> handler" where
  "Handler_DeleteSchedule a rq =
     authenticated rq (\<lambda>userID.
     accepted (path_id a (hr_id rq) ''invalid schedule id'') (\<lambda>ident.
     accepted (request_key rq) (\<lambda>key.
     let scope = request_scope rq; ifMatch = hr_header rq ''If-Match'' in
     accepted (refuse_if (scope \<noteq> ''this'' \<and> scope \<noteq> ''following'') 400 ''scope must be this or following'') (\<lambda>_.
     if scope = ''following''
     then accepted (or_refuse (parseIfMatch ifMatch) 428 ''If-Match with schedule ETag is required for following scope'') (\<lambda>expectedRevision.
       reading (\<lambda>e.
       calling (DeleteScheduleFollowing userID ident key expectedRevision (sha256 e (a_json_strings a [uuid_string e ident, scope, ifMatch])))
         delete_problem (\<lambda>_. respond no_content)))
     else calling (DeleteSchedule userID ident key) delete_problem (\<lambda>_. respond no_content)))))"

fun parse_ids :: "api \<Rightarrow> uuid list \<Rightarrow> string list \<Rightarrow> problem + uuid list" where
  "parse_ids a seen [] = Inr []"
| "parse_ids a seen (s # rest) =
     andthen (or_refuse (uuid_Parse a s) 400 ''invalid id in ids'') (\<lambda>ident.
     andthen (refuse_if (ident \<in> set seen) 400 ''ids must be unique'') (\<lambda>_.
     andthen (parse_ids a (ident # seen) rest) (\<lambda>ids. Inr (ident # ids))))"

definition Handler_BulkDeleteSchedules :: "api \<Rightarrow> http_request \<Rightarrow> handler" where
  "Handler_BulkDeleteSchedules a rq =
     authenticated rq (\<lambda>userID.
     accepted (decoded [] into_bulk rq) (\<lambda>req.
     accepted (case a_val_bulk a req of None \<Rightarrow> Inr () | Some message \<Rightarrow> Inl (400, message)) (\<lambda>_.
     accepted (parse_ids a [] req) (\<lambda>ids.
     accepted (request_key rq) (\<lambda>key. reading (\<lambda>e.
     calling (BulkDeleteSchedules userID ids key (sha256 e (a_json_strings a (sort_by str_le req)))) bulk_problem (\<lambda>n.
     respond (writeJSON 200 (BDeleted n)))))))))"

section \<open>Reminders\<close>

definition Handler_ListReminders :: "api \<Rightarrow> http_request \<Rightarrow> handler" where
  "Handler_ListReminders a rq =
     authenticated rq (\<lambda>userID.
     accepted (path_id a (hr_id rq) ''invalid schedule id'') (\<lambda>scheduleID.
     calling (ListReminders userID scheduleID) list_reminders_problem (\<lambda>reminders.
     reading (\<lambda>e. respond (writeJSON 200 (BReminders (map (toReminderResponse e) reminders)))))))"

definition Handler_AddReminder :: "api \<Rightarrow> http_request \<Rightarrow> handler" where
  "Handler_AddReminder a rq =
     authenticated rq (\<lambda>userID.
     accepted (path_id a (hr_id rq) ''invalid schedule id'') (\<lambda>scheduleID.
     accepted (decoded zero_reminder into_reminder rq) (\<lambda>req.
     accepted (case a_val_reminder a req of None \<Rightarrow> Inr () | Some message \<Rightarrow> Inl (400, message)) (\<lambda>_. reading (\<lambda>e.
     accepted (checkReminderChannel a (uuid_string e userID) userID [req]) (\<lambda>_.
     accepted (request_key rq) (\<lambda>key.
     calling (AddReminder userID scheduleID (rq_MinutesBefore req) (rq_Channel req) key (sha256 e (a_json_reminder a req))) add_reminder_problem (\<lambda>r.
     respond (writeJSON 201 (BReminder (toReminderResponse e r)))))))))))"

definition Handler_DeleteReminder :: "api \<Rightarrow> http_request \<Rightarrow> handler" where
  "Handler_DeleteReminder a rq =
     authenticated rq (\<lambda>userID.
     accepted (path_id a (hr_id rq) ''invalid schedule id'') (\<lambda>scheduleID.
     accepted (path_id a (hr_reminderId rq) ''invalid reminder id'') (\<lambda>reminderID.
     accepted (request_key rq) (\<lambda>key.
     calling (DeleteReminder userID scheduleID reminderID key) delete_reminder_problem (\<lambda>_.
     respond no_content)))))"

section \<open>Preview\<close>

definition preview_request :: "api \<Rightarrow> (string \<Rightarrow> location option) \<Rightarrow> createScheduleRequest option
    \<Rightarrow> problem + recurrenceOccurrence list \<times> recurrenceSkipped list" where
  "preview_request a load body =
     (case body of
        None \<Rightarrow> Inl (400, ''schedule fields and recurrence are required'')
      | Some req \<Rightarrow>
          andthen (or_refuse (cq_Recurrence req) 400 ''schedule fields and recurrence are required'') (\<lambda>rule.
          andthen (refuse_if (\<not> snd (normalizeTitle (cq_Title req))) 400 ''title must contain 1 to 255 characters'') (\<lambda>_.
          let timezone = request_timezone req in
          andthen (refuse_if (load timezone = None) 400 ''timezone must be an IANA timezone'') (\<lambda>_.
          andthen (map_sum writeTimeInputError (\<lambda>x. x) (resolveRecurrenceAnchorTimes load req timezone)) (\<lambda>(startAt, endAt, startDate, endDate).
          map_sum (recurrence_problem a) (\<lambda>x. x)
            (generateOccurrences load startAt endAt (cq_AllDay req) startDate endDate timezone rule (cq_StartFold req) (cq_EndFold req)))))))"

definition Handler_PreviewRecurrence :: "api \<Rightarrow> http_request \<Rightarrow> handler" where
  "Handler_PreviewRecurrence a rq =
     authenticated rq (\<lambda>_. reading (\<lambda>e.
     accepted (preview_request a (load_location e) (Option.bind (body_json (hr_body rq)) (into_create zero_create))) (\<lambda>(occurrences, skipped).
     respond (writeJSON 200 (BRecurrence occurrences skipped)))))"

end
