(* ===== verification/Guard.thy ===== *)
theory Guard
  imports Http
begin

text \<open>
  What the handlers of \<open>Http\<close> may do to the tables. A handler is idle if it leaves them alone, and
  guarded for a user if it leaves them alone or ends with one successful request of that user to the
  service, which it then answers with a status below 400. Both are closed under the ways in which
  handlers are put together; reading is idle, and a call of a mutation is guarded because a failing
  mutation is rolled back.
\<close>

section \<open>Idle and guarded handlers\<close>

definition idle :: "handler \<Rightarrow> bool" where
  "idle h \<longleftrightarrow> (\<forall>e w resp w'. h e w = (resp, w') \<longrightarrow> w_db w' = w_db w)"

definition guarded :: "uuid \<Rightarrow> handler \<Rightarrow> bool" where
  "guarded u h \<longleftrightarrow> (\<forall>e w resp w'. h e w = (resp, w') \<longrightarrow> w_db w' = w_db w
     \<or> h_status resp < 400 \<and> (\<exists>r w1. w_db w1 = w_db w \<and> perform u r e w1 = (Inr (), w')))"

text \<open>A continuation that only answers, and with a success.\<close>

definition answers :: "handler \<Rightarrow> bool" where
  "answers h \<longleftrightarrow> (\<forall>e w. snd (h e w) = w \<and> h_status (fst (h e w)) < 400)"

named_theorems handler_intros

lemma idle_respond [handler_intros]: "idle (respond r)"
  by (simp add: idle_def respond_def)

lemma idle_accepted [handler_intros]: "(\<And>x. idle (k x)) \<Longrightarrow> idle (accepted r k)"
  by (cases r) (simp_all add: accepted_def idle_respond)

lemma idle_reading [handler_intros]: "(\<And>e. idle (k e)) \<Longrightarrow> idle (reading k)"
  by (simp add: idle_def reading_def)

lemma idle_calling [handler_intros]:
  assumes "steps (=) m" and "\<And>x. idle (k x)"
  shows "idle (calling m p k)"
  unfolding idle_def
proof (intro allI impI)
  fix e w resp w' assume run: "calling m p k e w = (resp, w')"
  obtain r w1 where m: "m e w = (r, w1)" by (cases "m e w")
  from stepsD[OF assms(1) m] run m assms(2) show "w_db w' = w_db w"
    by (cases r) (auto simp: calling_def idle_def)
qed

lemma idle_case_prod [handler_intros]: "(\<And>x y. idle (k x y)) \<Longrightarrow> idle (case p of (x, y) \<Rightarrow> k x y)"
  by (cases p) simp

lemma idle_Let [handler_intros]: "(\<And>x. idle (k x)) \<Longrightarrow> idle (let x = v in k x)"
  by simp

lemma idle_guarded: "idle h \<Longrightarrow> guarded u h"
  by (auto simp: idle_def guarded_def)

lemma guarded_respond [handler_intros]: "guarded u (respond r)"
  by (rule idle_guarded) (rule idle_respond)

lemma guarded_accepted [handler_intros]: "(\<And>x. guarded u (k x)) \<Longrightarrow> guarded u (accepted r k)"
  by (cases r) (simp_all add: accepted_def guarded_respond)

lemma guarded_reading [handler_intros]: "(\<And>e. guarded u (k e)) \<Longrightarrow> guarded u (reading k)"
  by (simp add: guarded_def reading_def)

lemma guarded_if [handler_intros]: "guarded u a \<Longrightarrow> guarded u b \<Longrightarrow> guarded u (if c then a else b)"
  by simp

lemma guarded_Let [handler_intros]: "(\<And>x. guarded u (k x)) \<Longrightarrow> guarded u (let x = v in k x)"
  by simp

lemma guarded_case_prod [handler_intros]: "(\<And>x y. guarded u (k x y)) \<Longrightarrow> guarded u (case p of (x, y) \<Rightarrow> k x y)"
  by (cases p) simp

lemma guarded_option [handler_intros]:
  "guarded u a \<Longrightarrow> (\<And>x. guarded u (k x)) \<Longrightarrow> guarded u (case v of None \<Rightarrow> a | Some x \<Rightarrow> k x)"
  by (cases v) simp_all

lemma guarded_calling_read:
  assumes "steps (=) m" and "\<And>x. guarded u (k x)"
  shows "guarded u (calling m p k)"
  unfolding guarded_def
proof (intro allI impI)
  fix e w resp w' assume run: "calling m p k e w = (resp, w')"
  obtain r w1 where m: "m e w = (r, w1)" by (cases "m e w")
  then have same: "w_db w1 = w_db w" using stepsD[OF assms(1) m] by simp
  show "w_db w' = w_db w \<or> h_status resp < 400 \<and> (\<exists>r w1. w_db w1 = w_db w \<and> perform u r e w1 = (Inr (), w'))"
  proof (cases r)
    case (Inl er)
    then show ?thesis using run m same by (simp add: calling_def)
  next
    case (Inr x)
    then have "k x e w1 = (resp, w')" using run m by (simp add: calling_def)
    then show ?thesis using assms(2)[of x] same unfolding guarded_def by metis
  qed
qed

lemma guarded_calling_request:
  assumes "void m = perform u r" and "\<And>x. answers (k x)"
  shows "guarded u (calling m p k)"
  unfolding guarded_def
proof (intro allI impI)
  fix e w resp w' assume run: "calling m p k e w = (resp, w')"
  obtain res w1 where m: "m e w = (res, w1)" by (cases "m e w")
  then have req: "perform u r e w = (map_sum (\<lambda>x. x) (\<lambda>_. ()) res, w1)"
    unfolding assms(1)[symmetric] by (cases res) (simp_all add: void_def bnd_def ret_def)
  show "w_db w' = w_db w \<or> h_status resp < 400 \<and> (\<exists>r w1. w_db w1 = w_db w \<and> perform u r e w1 = (Inr (), w'))"
  proof (cases res)
    case (Inl er)
    then have "w_db w1 = w_db w" using refused_perform[of u r] req by (auto simp: refused_def)
    then show ?thesis using run m Inl by (simp add: calling_def)
  next
    case (Inr x)
    then have "k x e w1 = (resp, w')" using run m by (simp add: calling_def)
    then have "w' = w1" "h_status resp < 400" using assms(2)[of x] by (auto simp: answers_def) (metis fst_conv snd_conv)+
    then show ?thesis using req Inr by auto
  qed
qed

lemma void_unit: "void (m :: unit tx) = m"
  by (intro ext) (auto simp: void_def bnd_def ret_def split: prod.split sum.split)

lemma answers_respond: "h_status r < 400 \<Longrightarrow> answers (respond r)"
  by (simp add: answers_def respond_def)

lemma answers_reading: "(\<And>e. answers (k e)) \<Longrightarrow> answers (reading k)"
  by (simp add: answers_def reading_def)

lemma status_simps [simp]:
  "h_status (writeJSON st b) = st" "h_status (set_header n v r) = h_status r" "h_status (writeScheduleJSON st e s) = st"
  "h_status (writeError p) = fst p" "h_status no_content = 204"
  by (simp_all add: writeJSON_def set_header_def writeScheduleJSON_def writeError_def no_content_def)

section \<open>Reading the tables\<close>

lemma same_getSchedule [handler_intros]: "steps (=) (GetSchedule u i)"
  unfolding GetSchedule_def getSchedule_def loadOccurrenceMetadata_def repo_GetSchedule_def repo_ListReminders_def
    repo_GetScheduleOccurrence_def
  by (intro same.steps_bnd same.steps_option same.steps_fail same.steps_ret same.steps_query same.steps_sql)

lemma same_ListReminders [handler_intros]: "steps (=) (ListReminders u i)"
  unfolding ListReminders_def repo_ListReminders_def
  by (intro same.steps_bnd same_getSchedule same.steps_ret same.steps_query same.steps_sql)

lemma same_ListSchedulesPage [handler_intros]: "steps (=) (ListSchedulesPage u from until fd td st q c l)"
  unfolding ListSchedulesPage_def Let_def loadOccurrenceMetadata_def repo_GetScheduleOccurrence_def repo_ListSchedulesPage_def
  by (intro same.steps_bnd same.steps_collect same.steps_ret same.steps_query same.steps_sql) (auto split: if_splits)

lemma same_ReplayScheduleUpdate [handler_intros]: "steps (=) (ReplayScheduleUpdate u i k h)"
proof -
  have resp: "steps (=) (case mr_Response r of Some (RSchedule sch) \<Rightarrow> ret (Some sch) | _ \<Rightarrow> fail JSONError)" for r
    by (auto split: option.split response.split intro: same.steps_ret same.steps_fail)
  show ?thesis
    unfolding ReplayScheduleUpdate_def
    by (intro same.steps_if same.steps_bnd same.steps_option same.steps_fail same.steps_ret same.steps_ask same.steps_sql
        same_getSchedule resp) auto
qed

section \<open>The handlers\<close>

text \<open>Without a user a handler answers 401 and does nothing.\<close>

lemma authenticated_none: "hr_user rq = None \<Longrightarrow> authenticated rq k e w = (unauthorized, w)"
  by (simp add: authenticated_def accepted_def or_refuse_def respond_def unauthorized_def)

lemma authenticated_some: "hr_user rq = Some u \<Longrightarrow> authenticated rq k = k u"
  by (simp add: authenticated_def accepted_def or_refuse_def)

lemma guarded_create:
  "(\<And>x. answers (k x)) \<Longrightarrow>
   guarded u (calling (case occs of Some occs \<Rightarrow> CreateRecurringSchedules u inp occs | None \<Rightarrow> CreateSchedule u inp) p k)"
  by (cases occs)
    (auto intro: guarded_calling_request[where r = "Create inp"] guarded_calling_request[where r = "CreateSeries inp x" for x])

lemmas request_intros =
  guarded_calling_request[where r = "Create inp" for inp]
  guarded_calling_request[where r = "Update i f k h" for i f k h]
  guarded_calling_request[where r = "Delete i k" for i k]
  guarded_calling_request[where r = "DeleteFollowing i k v h" for i k v h]
  guarded_calling_request[where r = "BulkDelete ids k h" for ids k h]
  guarded_calling_request[where r = "AddReminderTo i mb c k h" for i mb c k h]
  guarded_calling_request[where r = "DeleteReminderFrom i j k" for i j k]

lemma guarded_Handler_CreateSchedule: "hr_user rq = Some u \<Longrightarrow> guarded u (Handler_CreateSchedule a rq)"
  unfolding Handler_CreateSchedule_def authenticated_some
  by (intro handler_intros guarded_create answers_respond) simp

lemma idle_Handler_GetSchedule: "hr_user rq = Some u \<Longrightarrow> idle (Handler_GetSchedule a rq)"
  unfolding Handler_GetSchedule_def authenticated_some by (intro handler_intros)

lemma idle_Handler_ListSchedules: "hr_user rq = Some u \<Longrightarrow> idle (Handler_ListSchedules a rq)"
  unfolding Handler_ListSchedules_def authenticated_some by (intro handler_intros)

lemma idle_Handler_ExportSchedulesICS: "hr_user rq = Some u \<Longrightarrow> idle (Handler_ExportSchedulesICS a rq)"
  unfolding Handler_ExportSchedulesICS_def authenticated_some by (intro handler_intros)

lemma guarded_Handler_UpdateSchedule: "hr_user rq = Some u \<Longrightarrow> guarded u (Handler_UpdateSchedule a rq)"
  unfolding Handler_UpdateSchedule_def authenticated_some
  by (intro handler_intros guarded_calling_read request_intros(2) answers_respond) simp_all

lemma guarded_Handler_DeleteSchedule: "hr_user rq = Some u \<Longrightarrow> guarded u (Handler_DeleteSchedule a rq)"
  unfolding Handler_DeleteSchedule_def authenticated_some
  by (intro handler_intros request_intros(3,4) answers_respond) (simp_all add: void_unit)

lemma guarded_Handler_BulkDeleteSchedules: "hr_user rq = Some u \<Longrightarrow> guarded u (Handler_BulkDeleteSchedules a rq)"
  unfolding Handler_BulkDeleteSchedules_def authenticated_some
  by (intro handler_intros request_intros(5) answers_respond) simp_all

lemma idle_Handler_ListReminders: "hr_user rq = Some u \<Longrightarrow> idle (Handler_ListReminders a rq)"
  unfolding Handler_ListReminders_def authenticated_some by (intro handler_intros)

lemma guarded_Handler_AddReminder: "hr_user rq = Some u \<Longrightarrow> guarded u (Handler_AddReminder a rq)"
  unfolding Handler_AddReminder_def authenticated_some
  by (intro handler_intros request_intros(6) answers_respond) simp_all

lemma guarded_Handler_DeleteReminder: "hr_user rq = Some u \<Longrightarrow> guarded u (Handler_DeleteReminder a rq)"
  unfolding Handler_DeleteReminder_def authenticated_some
  by (intro handler_intros request_intros(7) answers_respond) (simp_all add: void_unit)

lemma idle_Handler_PreviewRecurrence: "hr_user rq = Some u \<Longrightarrow> idle (Handler_PreviewRecurrence a rq)"
  unfolding Handler_PreviewRecurrence_def authenticated_some by (intro handler_intros)

end
