(* ===== verification/Clone.thy ===== *)
theory Clone
  imports Guard
begin

text \<open>
  Copying a schedule: \<open>CloneSchedule\<close> of \<open>internal/api/clone.go\<close>. The copy takes every field of its source
  that the body does not override; the dates of an all-day copy follow the start that was given.
  The length in days is computed by the code in floating point, which is modelled as rounding to the
  nearest number with 53 significant bits.
\<close>

section \<open>Requests\<close>

record cloneScheduleRequest =
  xq_Title :: "string option"
  xq_Description :: "json option"
  xq_Location :: "json option"
  xq_StartAt :: "time option"
  xq_EndAt :: "json option"
  xq_AllDay :: "bool option"
  xq_Timezone :: "string option"
  xq_StartDate :: "string option"
  xq_EndDate :: "string option"
  xq_LocalStartAt :: "string option"
  xq_LocalEndAt :: "string option"
  xq_StartFold :: string
  xq_EndFold :: string

definition zero_clone :: cloneScheduleRequest where
  "zero_clone = \<lparr>xq_Title = None, xq_Description = None, xq_Location = None, xq_StartAt = None, xq_EndAt = None, xq_AllDay = None,
     xq_Timezone = None, xq_StartDate = None, xq_EndDate = None, xq_LocalStartAt = None, xq_LocalEndAt = None, xq_StartFold = [],
     xq_EndFold = []\<rparr>"

definition into_clone :: "cloneScheduleRequest decoder" where
  "into_clone = into_struct
     [json_member ''title'' xq_Title (\<lambda>v. xq_Title_update (\<lambda>_. v)) into_text,
      json_member ''description'' xq_Description (\<lambda>v. xq_Description_update (\<lambda>_. v)) into_raw,
      json_member ''location'' xq_Location (\<lambda>v. xq_Location_update (\<lambda>_. v)) into_raw,
      json_member ''start_at'' xq_StartAt (\<lambda>v. xq_StartAt_update (\<lambda>_. v)) (into_pointer zero_time into_time),
      json_member ''end_at'' xq_EndAt (\<lambda>v. xq_EndAt_update (\<lambda>_. v)) into_raw,
      json_member ''all_day'' xq_AllDay (\<lambda>v. xq_AllDay_update (\<lambda>_. v)) (into_pointer False into_bool),
      json_member ''timezone'' xq_Timezone (\<lambda>v. xq_Timezone_update (\<lambda>_. v)) into_text,
      json_member ''start_date'' xq_StartDate (\<lambda>v. xq_StartDate_update (\<lambda>_. v)) into_text,
      json_member ''end_date'' xq_EndDate (\<lambda>v. xq_EndDate_update (\<lambda>_. v)) into_text,
      json_member ''local_start_at'' xq_LocalStartAt (\<lambda>v. xq_LocalStartAt_update (\<lambda>_. v)) into_text,
      json_member ''local_end_at'' xq_LocalEndAt (\<lambda>v. xq_LocalEndAt_update (\<lambda>_. v)) into_text,
      json_member ''start_fold'' xq_StartFold (\<lambda>v. xq_StartFold_update (\<lambda>_. v)) into_string,
      json_member ''end_fold'' xq_EndFold (\<lambda>v. xq_EndFold_update (\<lambda>_. v)) into_string]"

text \<open>An empty body is a request without overrides.\<close>

definition clone_body :: "body \<Rightarrow> problem + cloneScheduleRequest" where
  "clone_body b =
     (case b of
        NoBody \<Rightarrow> Inr zero_clone
      | BadJSON \<Rightarrow> Inl (400, ''invalid json body'')
      | JSONBody j \<Rightarrow> or_refuse (into_clone zero_clone j) 400 ''invalid json body'')"

section \<open>Days of a duration\<close>

fun bit_length :: "nat \<Rightarrow> nat" where
  "bit_length n = (if n = 0 then 0 else Suc (bit_length (n div 2)))"

declare bit_length.simps [simp del]

definition round_even :: "rat \<Rightarrow> int" where
  "round_even q = (let n = \<lfloor>q\<rfloor>; f = q - of_int n in
     if f < 1 / 2 \<or> f = 1 / 2 \<and> even n then n else n + 1)"

text \<open>Rounding of a number that is zero or at least \<open>1 / 2 ^ 60\<close>.\<close>

definition float64 :: "rat \<Rightarrow> rat" where
  "float64 q =
     (if q = 0 then 0
      else let l = bit_length (nat \<lfloor>q * 2 ^ 60\<rfloor>) in
        if 113 \<le> l then of_int (round_even (q / 2 ^ (l - 113))) * 2 ^ (l - 113)
        else of_int (round_even (q * 2 ^ (113 - l))) / 2 ^ (113 - l))"

text \<open>\<open>Duration.Hours\<close> of a duration that is not negative.\<close>

definition Hours :: "duration \<Rightarrow> rat" where
  "Hours d = float64 (of_int (d div hour) + float64 (of_int (d mod hour) / of_int hour))"

definition whole_days :: "duration \<Rightarrow> int" where
  "whole_days d = \<lfloor>float64 (Hours d / 24)\<rfloor>"

text \<open>A number of whole days comes out exactly.\<close>

lemma bit_length_le: "n < 2 ^ k \<Longrightarrow> bit_length n \<le> k"
proof (induction n arbitrary: k rule: bit_length.induct)
  case (1 n)
  show ?case
  proof (cases "n = 0")
    case True
    then show ?thesis by (simp add: bit_length.simps)
  next
    case False
    then obtain j where k: "k = Suc j" using 1(2) by (cases k) auto
    have "n div 2 < 2 ^ j" using 1(2) k by simp
    with 1(1)[OF False] False k show ?thesis by (subst bit_length.simps) simp
  qed
qed

lemma round_even_of_int [simp]: "round_even (of_int n) = n"
  by (simp add: round_even_def)

lemma float64_of_int:
  assumes "0 \<le> n" and "n < 2 ^ 53"
  shows "float64 (of_int n) = of_int n"
proof -
  let ?l = "bit_length (nat \<lfloor>(of_int n :: rat) * 2 ^ 60\<rfloor>)"
  have "(of_int n :: rat) * 2 ^ 60 = of_int (n * 2 ^ 60)" by simp
  then have "nat \<lfloor>(of_int n :: rat) * 2 ^ 60\<rfloor> = nat (n * 2 ^ 60)" by (simp only: floor_of_int)
  moreover have "n * 2 ^ 60 < 2 ^ 113" using assms by simp
  then have "nat (n * 2 ^ 60) < 2 ^ 113" using assms by (simp add: nat_less_iff)
  ultimately have l: "?l \<le> 113" using bit_length_le by metis
  have "round_even (of_int n * 2 ^ k) = n * 2 ^ k" for k
    using round_even_of_int[of "n * 2 ^ k"] by simp
  then show ?thesis using l by (auto simp: float64_def Let_def dest: antisym)
qed

lemma whole_days_exact:
  assumes "0 \<le> n" and "n \<le> 106751"
  shows "whole_days (n * day) = n"
proof -
  have "n * day = (24 * n) * hour" by simp
  then have "n * day div hour = 24 * n" "n * day mod hour = 0" by simp_all
  then have "Hours (n * day) = float64 (of_int (24 * n))"
    using float64_of_int[of 0] by (simp add: Hours_def)
  also have "\<dots> = of_int (24 * n)" using assms by (intro float64_of_int) simp_all
  finally show ?thesis using assms float64_of_int[of n] by (simp add: whole_days_def)
qed

section \<open>Dates of a copy\<close>

definition local_dates :: "location \<Rightarrow> time \<Rightarrow> int \<Rightarrow> string option \<times> string option" where
  "local_dates zone t n = (Some (format_date (date_in zone t)), Some (format_date (date_in zone (add_date zone t 0 0 n))))"

definition source_days :: "Schedule \<Rightarrow> int" where
  "source_days source =
     (case (Option.bind (s_StartDate source) parse_date, Option.bind (s_EndDate source) parse_date) of
        (Some a, Some b) \<Rightarrow> if a < b then max 1 (whole_days (time_sub (b * day) (a * day))) else 1
      | _ \<Rightarrow> 1)"

definition elapsed_days :: "time \<Rightarrow> time option \<Rightarrow> int" where
  "elapsed_days start fin =
     (case fin of
        None \<Rightarrow> 1
      | Some t \<Rightarrow>
          if start < t
          then (let d = time_sub t start in max 1 (whole_days d + (if d mod (24 * hour) \<noteq> 0 then 1 else 0)))
          else 1)"

definition clone_dates :: "location \<Rightarrow> Schedule \<Rightarrow> cloneScheduleRequest \<Rightarrow> bool \<Rightarrow> time \<Rightarrow> time option \<Rightarrow> string option \<times> string option" where
  "clone_dates zone source req allDay startAt endAt =
     (let given = (if xq_StartDate req \<noteq> None \<or> xq_EndDate req \<noteq> None then (xq_StartDate req, xq_EndDate req)
            else (s_StartDate source, s_EndDate source));
          moved = (if allDay \<and> (xq_StartAt req \<noteq> None \<or> xq_LocalStartAt req \<noteq> None) \<and> xq_StartDate req = None
            then local_dates zone startAt (source_days source) else given)
      in if \<not> allDay then (None, None)
         else if fst moved = None then local_dates zone startAt (elapsed_days startAt endAt) else moved)"

text \<open>A copy that is moved is as long as its source.\<close>

lemma source_days_exact:
  assumes "Option.bind (s_StartDate source) parse_date = Some a" and "Option.bind (s_EndDate source) parse_date = Some b"
    and "a < b" and "b - a \<le> 106751"
  shows "source_days source = b - a"
proof -
  have "b * day - a * day = (b - a) * day" by (simp add: left_diff_distrib)
  moreover have "time_sub (b * day) (a * day) = b * day - a * day"
    using assms(3,4) by (intro time_sub_exact) (simp add: max_int64_def)
  ultimately show ?thesis using assms whole_days_exact[of "b - a"] by (simp add: source_days_def)
qed

section \<open>The handler\<close>

definition clone_start :: "(string \<Rightarrow> location option) \<Rightarrow> Schedule \<Rightarrow> cloneScheduleRequest \<Rightarrow> string \<Rightarrow> problem + time" where
  "clone_start load source req timezone =
     (let startAt = (case xq_StartAt req of Some t \<Rightarrow> t | None \<Rightarrow> s_StartAt source) in
      case xq_LocalStartAt req of
        None \<Rightarrow> Inr startAt
      | Some local \<Rightarrow>
          andthen (refuse_if (xq_StartAt req \<noteq> None) 400 ''provide only one of start_at and local_start_at'') (\<lambda>_.
          map_sum writeTimeInputError (\<lambda>x. x) (resolveLocalDateTime load local timezone (xq_StartFold req))))"

definition clone_end :: "(string \<Rightarrow> location option) \<Rightarrow> cloneScheduleRequest \<Rightarrow> string \<Rightarrow> time option \<Rightarrow> problem + time option" where
  "clone_end load req timezone endAt =
     (case xq_LocalEndAt req of
        None \<Rightarrow> Inr endAt
      | Some local \<Rightarrow>
          andthen (refuse_if (xq_EndAt req \<noteq> None) 400 ''provide only one of end_at and local_end_at'') (\<lambda>_.
          map_sum writeTimeInputError Some (resolveLocalDateTime load local timezone (xq_EndFold req))))"

definition override_json :: "json option \<Rightarrow> 'a option decoder \<Rightarrow> 'a option \<Rightarrow> string \<Rightarrow> problem + 'a option" where
  "override_json raw dec cur message = (case raw of None \<Rightarrow> Inr cur | Some j \<Rightarrow> or_refuse (dec cur j) 400 message)"

text \<open>The texts of the copy.\<close>

definition clone_texts :: "Schedule \<Rightarrow> cloneScheduleRequest \<Rightarrow> problem + string \<times> string option \<times> string option" where
  "clone_texts source req =
     andthen (case xq_Title req of
         None \<Rightarrow> Inr (s_Title source)
       | Some t \<Rightarrow> (case normalizeTitle t of (title, valid) \<Rightarrow>
           if valid then Inr title else Inl (400, ''title must contain 1 to 255 characters''))) (\<lambda>title.
     andthen (override_json (xq_Description req) into_text (s_Description source) ''invalid description'') (\<lambda>description.
     andthen (override_json (xq_Location req) into_text (s_Location source) ''invalid location'') (\<lambda>location.
     let message = scheduleTextInputError description location in
     andthen (refuse_if (message \<noteq> []) 400 message) (\<lambda>_. Inr (title, description, location)))))"

definition clone_timezone :: "Schedule \<Rightarrow> cloneScheduleRequest \<Rightarrow> string" where
  "clone_timezone source req =
     (let timezone = (case xq_Timezone req of Some tz \<Rightarrow> tz | None \<Rightarrow> s_Timezone source) in if timezone = [] then ''UTC'' else timezone)"

text \<open>Whether the copy is all-day, and its times.\<close>

definition clone_times :: "(string \<Rightarrow> location option) \<Rightarrow> Schedule \<Rightarrow> cloneScheduleRequest \<Rightarrow> string \<Rightarrow> problem + bool \<times> schedule_times" where
  "clone_times load source req timezone =
     andthen (or_refuse (load timezone) 400 ''timezone must be an IANA timezone'') (\<lambda>zone.
     andthen (override_json (xq_EndAt req) (into_pointer zero_time into_time) (s_EndAt source) ''invalid end_at'') (\<lambda>endAt.
     andthen (clone_start load source req timezone) (\<lambda>startAt.
     andthen (clone_end load req timezone endAt) (\<lambda>endAt.
     andthen (refuse_if ((xq_StartDate req = None) \<noteq> (xq_EndDate req = None)) 400 ''start_date and end_date must be supplied together'') (\<lambda>_.
     let allDay = (xq_StartDate req \<noteq> None \<or> (case xq_AllDay req of Some b \<Rightarrow> b | None \<Rightarrow> s_AllDay source));
         dates = clone_dates zone source req allDay startAt endAt in
     if allDay \<and> fst dates \<noteq> None \<and> snd dates \<noteq> None
     then map_sum writeTimeInputError (Pair allDay)
       (resolveScheduleTimes load None None None None (fst dates) (snd dates) True timezone [] [])
     else Inr (allDay, startAt, endAt, dates))))))"

definition clone_request :: "api \<Rightarrow> (string \<Rightarrow> location option) \<Rightarrow> string \<Rightarrow> uuid \<Rightarrow> Schedule \<Rightarrow> cloneScheduleRequest \<Rightarrow> string
    \<Rightarrow> problem + CreateScheduleInput" where
  "clone_request a load user userID source req keyHeader =
     andthen (clone_texts source req) (\<lambda>(title, description, location).
     let timezone = clone_timezone source req in
     andthen (clone_times load source req timezone) (\<lambda>(allDay, startAt, endAt, startDate, endDate).
     let message = scheduleInputError description location startAt endAt in
     andthen (refuse_if (message \<noteq> []) 400 message) (\<lambda>_.
     andthen (refuse_if (\<not> snd (idempotencyKey keyHeader)) 400 ''invalid Idempotency-Key'') (\<lambda>_.
     andthen (checkReminderChannel a user userID
       (map (\<lambda>r. \<lparr>rq_MinutesBefore = rem_MinutesBefore r, rq_Channel = rem_Channel r\<rparr>) (s_Reminders source))) (\<lambda>_.
     Inr \<lparr>in_IdempotencyKey = fst (idempotencyKey keyHeader), in_Title = title, in_Description = description, in_Location = location,
       in_StartAt = startAt, in_EndAt = endAt, in_AllDay = allDay, in_Timezone = timezone, in_StartDate = startDate, in_EndDate = endDate,
       in_Status = ''confirmed'', in_Source = ''manual'', in_ExtractionID = None,
       in_Reminders = map (\<lambda>r. \<lparr>ri_MinutesBefore = rem_MinutesBefore r, ri_Channel = rem_Channel r\<rparr>) (s_Reminders source),
       in_Recurrence = None\<rparr>)))))"

fun source_problem :: "err \<Rightarrow> problem" where
  "source_problem ErrNotFound = (404, ''schedule not found'')"
| "source_problem _ = (500, ''failed to load source schedule'')"

fun clone_problem :: "err \<Rightarrow> problem" where
  "clone_problem ErrAccountDeleted = deleted_problem"
| "clone_problem ErrIdempotencyConflict = conflict_problem"
| "clone_problem ErrDuplicateReminder = (409, err_text ErrDuplicateReminder)"
| "clone_problem ErrReminderLimit = (409, err_text ErrReminderLimit)"
| "clone_problem _ = (500, ''failed to clone schedule'')"

definition Handler_CloneSchedule :: "api \<Rightarrow> http_request \<Rightarrow> handler" where
  "Handler_CloneSchedule a rq =
     authenticated rq (\<lambda>userID.
     accepted (path_id a (hr_id rq) ''invalid schedule id'') (\<lambda>sourceID.
     calling (GetSchedule userID sourceID) source_problem (\<lambda>source.
     accepted (clone_body (hr_body rq)) (\<lambda>req. reading (\<lambda>e.
     accepted (clone_request a (load_location e) (uuid_string e userID) userID source req (hr_header rq ''Idempotency-Key'')) (\<lambda>inp.
     calling (CreateSchedule userID inp) clone_problem (\<lambda>created.
     respond (writeScheduleJSON 201 e created))))))))"

lemma guarded_Handler_CloneSchedule: "hr_user rq = Some u \<Longrightarrow> guarded u (Handler_CloneSchedule a rq)"
  unfolding Handler_CloneSchedule_def authenticated_some
  by (intro handler_intros guarded_calling_read request_intros(1) answers_respond) simp_all

section \<open>What a copy is\<close>

text \<open>The schedules that can be copied: those the service keeps.\<close>

definition source_ok_for_clone :: "Schedule \<Rightarrow> bool" where
  "source_ok_for_clone source \<longleftrightarrow> s_Title source \<noteq> [] \<and> TrimSpace (s_Title source) = s_Title source
     \<and> RuneCountInString (s_Title source) \<le> 255 \<and> (s_StartDate source = None) = (s_EndDate source = None)
     \<and> (\<forall>r \<in> set (s_Reminders source). 0 \<le> rem_MinutesBefore r \<and> rem_MinutesBefore r \<le> maxReminderMinutes)"

lemma clone_texts_ok:
  assumes "clone_texts source req = Inr (title, description, location)" and "source_ok_for_clone source"
  shows "title \<noteq> [] \<and> TrimSpace title = title \<and> RuneCountInString title \<le> 255
    \<and> (req = zero_clone \<longrightarrow> title = s_Title source \<and> description = s_Description source \<and> location = s_Location source)"
  using assms
  by (auto simp: clone_texts_def normalizeTitle_def Let_def source_ok_for_clone_def TrimSpace_idem override_json_def zero_clone_def
      split: option.splits if_splits)

lemma clone_dates_None:
  assumes "source_ok_for_clone source" and "(xq_StartDate req = None) = (xq_EndDate req = None)"
    and "clone_dates zone source req allDay t t' = (sd, ed)"
  shows "(sd = None \<longleftrightarrow> \<not> allDay) \<and> (ed = None \<longleftrightarrow> \<not> allDay)"
  using assms
  by (cases "xq_StartDate req"; cases "xq_EndDate req"; cases "s_StartDate source"; cases "s_EndDate source")
    (auto simp: clone_dates_def local_dates_def source_ok_for_clone_def Let_def dest!: sym[of "Some _"] split: if_splits)

lemma clone_times_ok:
  assumes run: "clone_times load source req tz = Inr (allDay, moments)" and src: "source_ok_for_clone source"
  shows "load tz \<noteq> None \<and> times_ok load allDay tz moments
    \<and> (req = zero_clone \<longrightarrow> allDay = s_AllDay source \<and> (if allDay then s_StartDate source \<noteq> None \<longrightarrow> snd (snd moments) = (s_StartDate source, s_EndDate source)
        else moments = (s_StartAt source, s_EndAt source, None, None)))"
proof -
  obtain zone startAt endAt where zone: "load tz = Some zone" and both: "(xq_StartDate req = None) = (xq_EndDate req = None)"
    and start: "clone_start load source req tz = Inr startAt"
    and fin: "\<exists>t. override_json (xq_EndAt req) (into_pointer zero_time into_time) (s_EndAt source) ''invalid end_at'' = Inr t \<and> clone_end load req tz t = Inr endAt"
    and moments: "(let allDay = (xq_StartDate req \<noteq> None \<or> (case xq_AllDay req of Some b \<Rightarrow> b | None \<Rightarrow> s_AllDay source));
         dates = clone_dates zone source req allDay startAt endAt in
     if allDay \<and> fst dates \<noteq> None \<and> snd dates \<noteq> None
     then map_sum writeTimeInputError (Pair allDay)
       (resolveScheduleTimes load None None None None (fst dates) (snd dates) True tz [] [])
     else Inr (allDay, startAt, endAt, dates)) = Inr (allDay, moments)"
    using run by (auto simp: clone_times_def)
  let ?dates = "clone_dates zone source req allDay startAt endAt"
  have allDay: "allDay = (xq_StartDate req \<noteq> None \<or> (case xq_AllDay req of Some b \<Rightarrow> b | None \<Rightarrow> s_AllDay source))"
    using moments by (auto simp: Let_def map_sum_def split: if_splits sum.splits)
  have none: "fst ?dates = None \<longleftrightarrow> \<not> allDay" "snd ?dates = None \<longleftrightarrow> \<not> allDay"
    using clone_dates_None[OF src both, of zone allDay startAt endAt "fst ?dates" "snd ?dates"] by auto
  show ?thesis
  proof (cases allDay)
    case True
    then have res: "resolveScheduleTimes load None None None None (fst ?dates) (snd ?dates) True tz [] [] = Inr moments"
      using moments none unfolding allDay[symmetric] by (auto simp: Let_def map_sum_def split: sum.splits)
    then have "snd (snd moments) = ?dates"
      using none True by (auto simp: resolveScheduleTimes_def date_times_def prod_eq_iff split: if_splits option.splits sum.splits)
    moreover have "req = zero_clone \<Longrightarrow> s_StartDate source \<noteq> None \<Longrightarrow> ?dates = (s_StartDate source, s_EndDate source)"
      using True by (auto simp: clone_dates_def zero_clone_def Let_def)
    ultimately show ?thesis
      using resolveScheduleTimes_ok[OF res] zone True allDay by (auto simp: zero_clone_def)
  next
    case False
    then have "moments = (startAt, endAt, ?dates)" "?dates = (None, None)"
      using moments none unfolding allDay[symmetric] by (auto simp: Let_def prod_eq_iff)
    moreover have "req = zero_clone \<Longrightarrow> startAt = s_StartAt source \<and> endAt = s_EndAt source"
      using start fin by (simp add: zero_clone_def clone_start_def clone_end_def override_json_def)
    ultimately show ?thesis using zone False allDay by (auto simp: times_ok_def zero_clone_def)
  qed
qed


definition sample_source :: Schedule where
  "sample_source = mapSchedule (sample_schedule\<lparr>sr_Title := ''holiday'', sr_EndAt := Some (2 * day), sr_AllDay := True,
     sr_StartDate := Some 0, sr_EndDate := Some 2\<rparr>) []"

lemma sample_source_fields [simp]:
  "s_Title sample_source = ''holiday''" "s_AllDay sample_source" "s_StartDate sample_source = Some ''1970-01-01''"
  "s_EndDate sample_source = Some ''1970-01-03''" "s_Reminders sample_source = []"
proof -
  have "format_date 0 = ''1970-01-01''" "format_date 2 = ''1970-01-03''" by code_simp+
  then show "s_Title sample_source = ''holiday''" "s_AllDay sample_source" "s_StartDate sample_source = Some ''1970-01-01''"
    "s_EndDate sample_source = Some ''1970-01-03''" "s_Reminders sample_source = []"
    by (simp_all add: sample_source_def mapSchedule_def sample_schedule_def datePtr_def mapReminders_def)
qed


end
