(* ===== verification/Auth.thy ===== *)
theory Auth
  imports Http
begin

text \<open>
  The authentication of requests, \<open>internal/middleware/jwtauth.go\<close>: the bearer token is verified against
  the key set of the issuer, which is fetched again when it lacks the key of the token, and the issuer
  is asked whether the account is still active. The user is the subject of the token. The record \<open>jwt\<close>
  holds what lies outside: the JOSE library, the key cache and the answer of the issuer.
\<close>

section \<open>Tokens\<close>

record 'k jwt =
  ja_keyID :: "string \<Rightarrow> string option" \<comment> \<open>\<open>jws.Parse\<close> and the key identifier of the first signature\<close>
  ja_cached :: "'k option"
  ja_refreshed :: "'k option"
  ja_has :: "'k \<Rightarrow> string \<Rightarrow> bool"
  ja_parse :: "'k \<Rightarrow> string \<Rightarrow> string \<Rightarrow> string \<Rightarrow> string option" \<comment> \<open>\<open>jwt.Parse\<close> for an issuer and an audience: the subject\<close>
  ja_issuer :: string
  ja_audience :: string
  ja_late :: bool \<comment> \<open>whether the two seconds for the verification had passed\<close>
  ja_introspect :: "string \<Rightarrow> service_reply option"

datatype verify_error = errJWKSUnavailable | InvalidToken

definition verify :: "'k jwt \<Rightarrow> string \<Rightarrow> verify_error + string" where
  "verify j raw =
     (case ja_keyID j raw of
        None \<Rightarrow> Inl InvalidToken
      | Some kid \<Rightarrow>
          (case ja_cached j of
             None \<Rightarrow> Inl errJWKSUnavailable
           | Some cached \<Rightarrow>
               (case (if ja_has j cached kid then Some cached else ja_refreshed j) of
                  None \<Rightarrow> Inl errJWKSUnavailable
                | Some keys \<Rightarrow>
                    (case ja_parse j keys (ja_issuer j) (ja_audience j) raw of
                       None \<Rightarrow> Inl InvalidToken
                     | Some subject \<Rightarrow> Inr subject))))"

definition strip_prefix :: "string \<Rightarrow> string \<Rightarrow> string option" where
  "strip_prefix p s = (if take (length p) s = p then Some (drop (length p) s) else None)"

definition bearerToken :: "http_request \<Rightarrow> string" where
  "bearerToken rq = (case strip_prefix ''Bearer '' (hr_header rq ''Authorization'') of None \<Rightarrow> [] | Some t \<Rightarrow> TrimSpace t)"

definition into_active :: "bool decoder" where
  "into_active = into_struct [json_member ''active'' (\<lambda>b. b) (\<lambda>v _. v) into_bool]"

text \<open>\<open>None\<close> is an error.\<close>

definition active :: "'k jwt \<Rightarrow> string \<Rightarrow> bool option" where
  "active j raw =
     (case ja_introspect j raw of
        None \<Rightarrow> None
      | Some reply \<Rightarrow>
          if sr_status reply = 401 then Some False
          else if sr_status reply = 200 then Option.bind (sr_body reply) (into_active False)
          else None)"

section \<open>The middleware\<close>

definition unavailable :: http_response where
  "unavailable = writeError (503, ''auth unavailable'')"

definition authenticate :: "'k jwt \<Rightarrow> (string \<Rightarrow> uuid option) \<Rightarrow> http_request \<Rightarrow> http_response + uuid" where
  "authenticate j parse rq =
     (let raw = bearerToken rq in
      if raw = [] then Inl unauthorized
      else case verify j raw of
          Inl er \<Rightarrow> Inl (if er = errJWKSUnavailable \<or> ja_late j then unavailable else unauthorized)
        | Inr subject \<Rightarrow>
            (case parse subject of
               None \<Rightarrow> Inl unauthorized
             | Some u \<Rightarrow>
                 (case active j raw of
                    None \<Rightarrow> Inl unavailable
                  | Some b \<Rightarrow> if b then Inr u else Inl unauthorized)))"

definition Middleware :: "'k jwt \<Rightarrow> (string \<Rightarrow> uuid option) \<Rightarrow> (http_request \<Rightarrow> handler) \<Rightarrow> http_request \<Rightarrow> handler" where
  "Middleware j parse h rq =
     (case authenticate j parse rq of
        Inl resp \<Rightarrow> respond resp
      | Inr u \<Rightarrow> h (rq\<lparr>hr_user := Some u\<rparr>))"

section \<open>Who is authenticated\<close>

text \<open>
  The evidence for a user: a token that the key set of the issuer verifies, with the user as its subject,
  for an account that the issuer reports as active.
\<close>

definition vouched :: "'k jwt \<Rightarrow> (string \<Rightarrow> uuid option) \<Rightarrow> http_request \<Rightarrow> uuid \<Rightarrow> bool" where
  "vouched j parse rq u \<longleftrightarrow> (\<exists>raw kid keys subject reply.
     raw = bearerToken rq \<and> raw \<noteq> [] \<and> ja_keyID j raw = Some kid
     \<and> (ja_cached j = Some keys \<and> ja_has j keys kid \<or> ja_cached j \<noteq> None \<and> ja_refreshed j = Some keys)
     \<and> ja_parse j keys (ja_issuer j) (ja_audience j) raw = Some subject \<and> parse subject = Some u
     \<and> ja_introspect j raw = Some reply \<and> sr_status reply = 200 \<and> Option.bind (sr_body reply) (into_active False) = Some True)"

lemma verify_Inr:
  "verify j raw = Inr subject \<Longrightarrow> \<exists>kid keys. ja_keyID j raw = Some kid
     \<and> (ja_cached j = Some keys \<and> ja_has j keys kid \<or> ja_cached j \<noteq> None \<and> ja_refreshed j = Some keys)
     \<and> ja_parse j keys (ja_issuer j) (ja_audience j) raw = Some subject"
  by (auto simp: verify_def split: option.splits if_splits)

lemma authenticate_vouched: "authenticate j parse rq = Inr u \<Longrightarrow> vouched j parse rq u"
  unfolding vouched_def authenticate_def active_def Let_def
  by (auto dest!: verify_Inr split: if_splits sum.splits option.splits)

lemma authenticate_refused: "authenticate j parse rq = Inl resp \<Longrightarrow> resp = unauthorized \<or> resp = unavailable"
  by (auto simp: authenticate_def Let_def split: if_splits sum.splits option.splits)

end
