(* ===== verification/Gateway.thy ===== *)
theory Gateway
  imports Clone Auth
begin

text \<open>
  The rest of the HTTP layer: the handler for extraction (\<open>internal/api/extract.go\<close>), the internal check
  of a reminder (\<open>internal_services.go\<close>), health and status (\<open>health.go\<close>, \<open>internal/db/schema.go\<close>), the
  headers for other origins (\<open>cors.go\<close>), request identifiers (\<open>internal/observability/requestid.go\<close>)
  and the table of routes (\<open>router.go\<close>). \<open>serve\<close> is the server: what it answers to a request for a route.
  How a path selects its route is the business of the router library.
\<close>

section \<open>Extraction\<close>

record extractRequest =
  eq_Text :: string
  eq_Now :: time
  eq_Timezone :: string

definition zero_extract :: extractRequest where
  "zero_extract = \<lparr>eq_Text = [], eq_Now = zero_time, eq_Timezone = []\<rparr>"

definition into_extract :: "extractRequest decoder" where
  "into_extract = into_struct
     [json_member ''text'' eq_Text (\<lambda>v. eq_Text_update (\<lambda>_. v)) into_string,
      json_member ''now'' eq_Now (\<lambda>v. eq_Now_update (\<lambda>_. v)) into_time,
      json_member ''timezone'' eq_Timezone (\<lambda>v. eq_Timezone_update (\<lambda>_. v)) into_string]"

text \<open>What lies outside: the model, MySQL's folding of titles, the validator, and the limits that were hit.\<close>

record extraction =
  xe_gemini :: gemini
  xe_call :: ai_call
  xe_latency :: int
  xe_fold :: "string \<Rightarrow> string"
  xe_val :: "extractRequest \<Rightarrow> string option"
  xe_tooLarge :: bool \<comment> \<open>the body was cut off at its limit\<close>
  xe_deadline :: bool \<comment> \<open>a statement that failed did so because the time for the request had passed\<close>
  xe_timedOut :: bool \<comment> \<open>the timeout handler had answered before\<close>

definition maxExtractTextChars :: nat where "maxExtractTextChars = 10000"
definition maxExtractTextBytes :: nat where "maxExtractTextBytes = 64 * 1024"

definition extract_request :: "extraction \<Rightarrow> (string \<Rightarrow> location option) \<Rightarrow> http_request \<Rightarrow> problem + svc_ExtractInput" where
  "extract_request x load rq =
     andthen (refuse_if (xe_tooLarge x) 413 ''request body too large'') (\<lambda>_.
     andthen (decoded zero_extract into_extract rq) (\<lambda>req.
     andthen (case xe_val x req of None \<Rightarrow> Inr () | Some message \<Rightarrow> Inl (400, message)) (\<lambda>_.
     andthen (refuse_if (TrimSpace (eq_Text req) = []) 400 ''text must not be blank'') (\<lambda>_.
     andthen (refuse_if (maxExtractTextChars < RuneCountInString (eq_Text req) \<or> maxExtractTextBytes < length (eq_Text req))
       413 ''text exceeds 10000 characters or 64KiB'') (\<lambda>_.
     andthen (refuse_if (load (eq_Timezone req) = None) 400 ''invalid timezone'') (\<lambda>_.
     Inr \<lparr>sx_Text = eq_Text req, sx_Now = eq_Now req, sx_Timezone = eq_Timezone req, sx_APIKey = hr_header rq ''X-Gemini-Key''\<rparr>))))))"

text \<open>The whole seconds of a duration that is not negative; \<open>Duration.Seconds\<close> is a floating-point number.\<close>

definition whole_seconds :: "duration \<Rightarrow> int" where
  "whole_seconds d = \<lfloor>float64 (of_int (d div second) + float64 (of_int (d mod second) / of_int second))\<rfloor>"

definition extract_problem :: "bool \<Rightarrow> extract_error \<Rightarrow> http_response" where
  "extract_problem late er =
     (if er = ServiceError ErrAccountDeleted then writeError deleted_problem
      else if er = ServiceError ErrExtractBusy then writeError (429, ''extraction already in progress'')
      else if er = ServiceError ErrExtractUserRateLimited
      then set_header ''Retry-After'' ''60'' (writeError (429, ''extraction request limit reached''))
      else if er = ServiceError DBError \<and> late \<or> er = OtherAIError (RequestFailed True) then writeError (504, ''extraction timed out'')
      else case er of
          ErrExtractKeyUnavailable \<Rightarrow> writeError (502, ''ai_key_unavailable'')
        | ErrExtractInvalidKey \<Rightarrow> writeError (502, ''ai_key_invalid'')
        | ErrExtractModelUnavailable \<Rightarrow> writeError (503, ''ai_model_unavailable'')
        | ErrExtractUpstreamUnavailable \<Rightarrow> writeError (503, ''ai_upstream_unavailable'')
        | ExtractRateLimitedError d \<Rightarrow> set_header ''Retry-After'' (FormatInt (whole_seconds d)) (writeError (429, ''rate_limited''))
        | _ \<Rightarrow> writeError (502, ''extraction failed''))"

definition toExtractResponse :: "ExtractCandidate list \<Rightarrow> bool \<Rightarrow> http_body" where
  "toExtractResponse candidates truncated = BExtraction candidates truncated"

definition Handler_ExtractSchedules :: "extraction \<Rightarrow> http_request \<Rightarrow> handler" where
  "Handler_ExtractSchedules x rq =
     authenticated rq (\<lambda>userID. reading (\<lambda>e.
     accepted (extract_request x (load_location e) rq) (\<lambda>inp e w.
       case ExtractSchedules (xe_gemini x) (xe_call x) (xe_latency x) (xe_fold x) userID inp e w of
         (Inl er, w') \<Rightarrow> (extract_problem (xe_deadline x) er, w')
       | (Inr (candidates, truncated), w') \<Rightarrow> (writeJSON 200 (toExtractResponse candidates truncated), w'))))"

definition TimeoutHandler :: "bool \<Rightarrow> handler \<Rightarrow> handler" where
  "TimeoutHandler timedOut h = (\<lambda>e w. case h e w of (resp, w') \<Rightarrow>
     (if timedOut then \<lparr>h_status = 503, h_headers = [], h_body = BStrings [(''error'', ''extraction timed out'')]\<rparr> else resp, w'))"

section \<open>Reminders of other services\<close>

definition validInternalBearer :: "http_request \<Rightarrow> string \<Rightarrow> bool" where
  "validInternalBearer rq expected \<longleftrightarrow> expected \<noteq> [] \<and> hr_header rq ''Authorization'' = ''Bearer '' @ expected"

text \<open>\<open>None\<close> is an error.\<close>

definition accountActive :: "api \<Rightarrow> uuid \<Rightarrow> bool option" where
  "accountActive a userID =
     (if a_statusURL a = [] \<or> a_internalToken a = [] then None
      else Option.bind (a_account a userID) (\<lambda>reply.
        if sr_status reply \<noteq> 200 then None else Option.bind (sr_body reply) (into_active False)))"

definition reminderInstant :: "(string \<Rightarrow> location option) \<Rightarrow> Schedule \<Rightarrow> duration \<Rightarrow> time option" where
  "reminderInstant load sch offset =
     (if s_AllDay sch
      then Option.bind (load (s_Timezone sch)) (\<lambda>zone. Option.bind (s_StartDate sch) (\<lambda>sd. Option.bind (parse_date sd) (\<lambda>n.
        case civil_from_days n of (y, m, d) \<Rightarrow> Some (time_date y m d 9 0 0 0 zone - offset))))
      else Some (s_StartAt sch - offset))"

record validity_query =
  vq_ScheduleID :: uuid
  vq_UserID :: uuid
  vq_MinutesBefore :: int
  vq_Channel :: string
  vq_RemindAt :: time

definition validity_query_of :: "api \<Rightarrow> http_request \<Rightarrow> problem + validity_query" where
  "validity_query_of a rq =
     (case (uuid_Parse a (hr_id rq), uuid_Parse a (query_Get rq ''user_id''), ParseInt 64 (query_Get rq ''revision''),
         ParseInt 32 (query_Get rq ''minutes_before''), time_Parse (query_Get rq ''remind_at'')) of
        (Some sid, Some uid, Some revision, Some mb, Some remindAt) \<Rightarrow>
          if revision \<le> 0 \<or> mb < 0 \<or> 10080 < mb \<or> query_Get rq ''channel'' = [] then Inl (400, ''invalid reminder validity query'')
          else Inr \<lparr>vq_ScheduleID = sid, vq_UserID = uid, vq_MinutesBefore = mb, vq_Channel = query_Get rq ''channel'', vq_RemindAt = remindAt\<rparr>
      | _ \<Rightarrow> Inl (400, ''invalid reminder validity query''))"

text \<open>The reminder is one of the schedule and is due when the caller says.\<close>

definition reminder_matches :: "(string \<Rightarrow> location option) \<Rightarrow> Schedule \<Rightarrow> validity_query \<Rightarrow> bool" where
  "reminder_matches load sch q \<longleftrightarrow> vq_Channel q = ''telegram'' \<and> s_Status sch = ''confirmed''
     \<and> (\<exists>r \<in> set (s_Reminders sch). rem_MinutesBefore r = vq_MinutesBefore q \<and> rem_Channel r = vq_Channel q)
     \<and> reminderInstant load sch (vq_MinutesBefore q * minute) = Some (vq_RemindAt q)"

definition validity_response :: "env \<Rightarrow> validity_query \<Rightarrow> reminderValidityResponse" where
  "validity_response e q = \<lparr>rv_Valid = False, rv_ScheduleID = uuid_string e (vq_ScheduleID q), rv_UserID = uuid_string e (vq_UserID q),
     rv_Title = [], rv_Revision = 0, rv_Status = [], rv_StartAt = None, rv_EndAt = None, rv_AllDay = False, rv_Timezone = [],
     rv_StartDate = None, rv_EndDate = None\<rparr>"

definition validity_of :: "env \<Rightarrow> validity_query \<Rightarrow> Schedule \<Rightarrow> reminderValidityResponse" where
  "validity_of e q sch = (validity_response e q)\<lparr>rv_Revision := s_Revision sch, rv_Status := s_Status sch, rv_Title := s_Title sch,
     rv_StartAt := Some (s_StartAt sch), rv_EndAt := s_EndAt sch, rv_AllDay := s_AllDay sch, rv_Timezone := s_Timezone sch,
     rv_StartDate := s_StartDate sch, rv_EndDate := s_EndDate sch\<rparr>"

text \<open>Both outcomes of a call go on.\<close>

definition attempting :: "'a tx \<Rightarrow> (err + 'a \<Rightarrow> handler) \<Rightarrow> handler" where
  "attempting m k = (\<lambda>e w. case m e w of (r, w') \<Rightarrow> k r e w')"

definition reminderValidity :: "api \<Rightarrow> http_request \<Rightarrow> handler" where
  "reminderValidity a rq =
     accepted (refuse_if (a_internalToken a = []) 503 ''internal service authentication unavailable'') (\<lambda>_.
     accepted (refuse_if (\<not> validInternalBearer rq (a_internalToken a)) 401 ''unauthorized'') (\<lambda>_.
     accepted (validity_query_of a rq) (\<lambda>q. reading (\<lambda>e.
     attempting (GetSchedule (vq_UserID q) (vq_ScheduleID q)) (\<lambda>res.
     case res of
       Inl er \<Rightarrow> respond (if er = ErrNotFound then writeJSON 200 (BValidity (validity_response e q))
         else writeError (503, ''schedule validity lookup unavailable''))
     | Inr sch \<Rightarrow>
         (if reminder_matches (load_location e) sch q
          then accepted (or_refuse (accountActive a (vq_UserID q)) 503 ''account status validation unavailable'') (\<lambda>b.
            respond (writeJSON 200 (BValidity ((validity_of e q sch)\<lparr>rv_Valid := b\<rparr>))))
          else respond (writeJSON 200 (BValidity (validity_of e q sch)))))))))"

section \<open>Health\<close>

definition healthz :: handler where
  "healthz = respond (writeJSON 200 (BStrings [(''status'', ''ok'')]))"

text \<open>A ping, and one query for each table the service needs.\<close>

definition required_tables :: "string list" where
  "required_tables = [''schedules'', ''schedule_reminders'', ''event_outbox'', ''schedule_create_requests'', ''schedule_mutation_requests'',
     ''account_deletion_tombstones'', ''schedule_series'', ''schedule_occurrences'']"

definition CheckReady :: "unit tx" where
  "CheckReady = bnd (query (\<lambda>_. ())) (\<lambda>_. foreach required_tables (\<lambda>_. query (\<lambda>_. ())))"

definition readyz :: "unit tx option \<Rightarrow> handler" where
  "readyz readiness =
     (let down = writeJSON 503 (BStrings [(''status'', ''not ready'')]) in
      case readiness of
        None \<Rightarrow> respond down
      | Some m \<Rightarrow> attempting m (\<lambda>res. respond (if isl res then down else writeJSON 200 (BStrings [(''status'', ''ready'')]))))"

definition status_body :: "string \<Rightarrow> string \<Rightarrow> http_body" where
  "status_body schedules followup = BStrings [(''schedules'', schedules), (''followup'', followup)]"

definition status_page :: "unit tx option \<Rightarrow> bool tx option \<Rightarrow> handler" where
  "status_page readiness followup =
     (let down = writeJSON 503 (status_body ''unavailable'' ''delayed'') in
      case readiness of
        None \<Rightarrow> respond down
      | Some m \<Rightarrow> attempting m (\<lambda>res.
          if isl res then respond down
          else case followup of
              None \<Rightarrow> respond (writeJSON 200 (status_body ''available'' ''delayed''))
            | Some f \<Rightarrow> attempting f (\<lambda>ok.
                respond (writeJSON 200 (status_body ''available'' (if ok = Inr True then ''available'' else ''delayed''))))))"

section \<open>Routes\<close>

datatype route = HealthRoute | ReadyRoute | StatusRoute | ValidityRoute | ExportRoute | CreateRoute | CloneRoute | ListRoute
  | ExtractRoute | PreviewRoute | BulkDeleteRoute | GetRoute | UpdateRoute | DeleteRoute | ListRemindersRoute | AddReminderRoute
  | DeleteReminderRoute

record 'k server =
  sv_api :: api
  sv_jwt :: "'k jwt"
  sv_extraction :: extraction
  sv_connected :: bool \<comment> \<open>whether the publisher is connected\<close>
  sv_origins :: string

fun public_route :: "route \<Rightarrow> bool" where
  "public_route HealthRoute = True"
| "public_route ReadyRoute = True"
| "public_route StatusRoute = True"
| "public_route ValidityRoute = True"
| "public_route _ = False"

fun route_handler :: "'k server \<Rightarrow> route \<Rightarrow> http_request \<Rightarrow> handler" where
  "route_handler s HealthRoute = (\<lambda>_. healthz)"
| "route_handler s ReadyRoute = (\<lambda>_. readyz (Some CheckReady))"
| "route_handler s StatusRoute = (\<lambda>_. status_page (Some CheckReady) (Some (FollowupAvailable (sv_connected s))))"
| "route_handler s ValidityRoute = reminderValidity (sv_api s)"
| "route_handler s ExportRoute = Handler_ExportSchedulesICS (sv_api s)"
| "route_handler s CreateRoute = Handler_CreateSchedule (sv_api s)"
| "route_handler s CloneRoute = Handler_CloneSchedule (sv_api s)"
| "route_handler s ListRoute = Handler_ListSchedules (sv_api s)"
| "route_handler s ExtractRoute = (\<lambda>rq. TimeoutHandler (xe_timedOut (sv_extraction s)) (Handler_ExtractSchedules (sv_extraction s) rq))"
| "route_handler s PreviewRoute = Handler_PreviewRecurrence (sv_api s)"
| "route_handler s BulkDeleteRoute = Handler_BulkDeleteSchedules (sv_api s)"
| "route_handler s GetRoute = Handler_GetSchedule (sv_api s)"
| "route_handler s UpdateRoute = Handler_UpdateSchedule (sv_api s)"
| "route_handler s DeleteRoute = Handler_DeleteSchedule (sv_api s)"
| "route_handler s ListRemindersRoute = Handler_ListReminders (sv_api s)"
| "route_handler s AddReminderRoute = Handler_AddReminder (sv_api s)"
| "route_handler s DeleteReminderRoute = Handler_DeleteReminder (sv_api s)"

definition Router :: "'k server \<Rightarrow> route \<Rightarrow> http_request \<Rightarrow> handler" where
  "Router s r rq =
     (if public_route r then route_handler s r rq
      else Middleware (sv_jwt s) (uuid_Parse (sv_api s)) (route_handler s r) rq)"

section \<open>Around the routes\<close>

definition adding :: "(http_response \<Rightarrow> http_response) \<Rightarrow> handler \<Rightarrow> handler" where
  "adding f h = (\<lambda>e w. case h e w of (resp, w') \<Rightarrow> (f resp, w'))"

definition WithRequestID :: "handler \<Rightarrow> handler" where
  "WithRequestID h = reading (\<lambda>e. adding (set_header ''X-Request-ID'' (request_id e)) h)"

fun split_commas :: "string \<Rightarrow> string \<Rightarrow> string list" where
  "split_commas acc [] = [rev acc]"
| "split_commas acc (c # s) = (if c = CHR '','' then rev acc # split_commas [] s else split_commas (c # acc) s)"

definition defaultCORSOrigins :: string where
  "defaultCORSOrigins = ''https://www.ggang.cloud''"

definition cors_origins :: "string \<Rightarrow> string list" where
  "cors_origins v = filter (\<lambda>s. s \<noteq> []) (map TrimSpace (split_commas [] (if v = [] then defaultCORSOrigins else v)))"

definition cors_headers :: "string \<Rightarrow> http_response \<Rightarrow> http_response" where
  "cors_headers origin = set_header ''Access-Control-Allow-Origin'' origin
     \<circ> set_header ''Access-Control-Allow-Methods'' ''GET, POST, PATCH, DELETE, OPTIONS''
     \<circ> set_header ''Access-Control-Allow-Headers'' ''Authorization, Content-Type, Idempotency-Key, X-Gemini-Key''
     \<circ> set_header ''Access-Control-Expose-Headers'' ''X-Request-ID'' \<circ> set_header ''Vary'' ''Origin''"

definition CORS :: "string \<Rightarrow> bool \<Rightarrow> http_request \<Rightarrow> handler \<Rightarrow> handler" where
  "CORS v preflight rq next =
     (let origin = hr_header rq ''Origin'' in
      if origin \<notin> set (cors_origins v) then next
      else if preflight then respond (cors_headers origin no_content)
      else adding (cors_headers origin) next)"

text \<open>The answer of the server; \<open>preflight\<close> says that the method is \<open>OPTIONS\<close>, which selects no route.\<close>

definition serve :: "'k server \<Rightarrow> route \<Rightarrow> http_request \<Rightarrow> handler" where
  "serve s r rq = CORS (sv_origins s) False rq (WithRequestID (Router s r rq))"

end
