(* ===== verification/Limiter.thy ===== *)
theory Limiter
  imports System
begin

text \<open>
  The admission of extractions as a rate limiter: the instants at which one user was admitted over a run of the
  whole service, in which requests, dispatches, clean-ups of other accounts and extractions of other
  users happen in between. The clock of the database does not go backwards.
\<close>

section \<open>Runs\<close>

text \<open>The steps that are no admission of the user and no clean-up of the account.\<close>

inductive other_step :: "uuid \<Rightarrow> world \<Rightarrow> world \<Rightarrow> bool" for u where
  "perform v r e w = (res, w') \<Longrightarrow> other_step u w w'"
| "drain fuel e w = (res', w') \<Longrightarrow> other_step u w w'"
| "v \<noteq> u \<Longrightarrow> CleanupDeletedAccount v e w = (res, w') \<Longrightarrow> other_step u w w'"
| "v \<noteq> u \<or> isl adm \<Longrightarrow> admitExtraction v e w = (adm, w') \<Longrightarrow> other_step u w w'"
| "status \<in> {''success'', ''failed''} \<Longrightarrow> recordExtraction v model n status latency e w = (res, w') \<Longrightarrow> other_step u w w'"
| "finishExtraction i e w = (res, w') \<Longrightarrow> other_step u w w'"
| "cleanup_extractions before do_apply e w = (num, w') \<Longrightarrow> other_step u w w'"

lemma other_step_service: "other_step u w w' \<Longrightarrow> service_step w w'"
  by (erule other_step.cases) (blast intro: service_step.intros)+

text \<open>\<open>admission_run u ts t w\<close>: the user was admitted at the instants \<open>ts\<close>, the last of them at \<open>t\<close> or before.\<close>

inductive admission_run :: "uuid \<Rightarrow> time list \<Rightarrow> time \<Rightarrow> world \<Rightarrow> bool" for u where
  start: "db_wf (w_db w) \<Longrightarrow> admissions_of u (w_db w) = [] \<Longrightarrow> admission_run u [] t w"
| admitted: "admission_run u ts t w \<Longrightarrow> admitExtraction u e w = (Inr i, w') \<Longrightarrow> mono (now_at e) \<Longrightarrow> t \<le> now_at e (w_step w) \<Longrightarrow>
    admission_run u (ts @ [now_at e (w_step w + 6)]) (now_at e (w_step w + 6)) w'"
| other: "admission_run u ts t w \<Longrightarrow> other_step u w w' \<Longrightarrow> admission_run u ts t w'"

section \<open>The other steps keep the record\<close>

text \<open>Requests do not touch the table of admissions.\<close>

interpretation admission_frame: user_store u "\<lambda>d. db_wf d \<and> t_admissions d = rows" for u rows
proof unfold_locales
  show "db_wf (d\<lparr>t_reminders := t_reminders d @ [r]\<rparr>) \<and> t_admissions (d\<lparr>t_reminders := t_reminders d @ [r]\<rparr>) = rows"
    if "db_wf d \<and> t_admissions d = rows" "owns d u (rmr_ScheduleID r)"
      "\<forall>q \<in> set (t_reminders d). rmr_ID q \<noteq> rmr_ID r" "reminder_fits d r" for d r
    using that integrity.insert_reminder[of d u r] by simp
  show "db_wf (d\<lparr>t_outbox := upd_where q g (t_outbox d)\<rparr>) \<and> t_admissions (d\<lparr>t_outbox := upd_where q g (t_outbox d)\<rparr>) = rows"
    if "db_wf d \<and> t_admissions d = rows" "\<And>r. outbox_identity (g r) = outbox_identity r"
    for d q and g :: "outbox_row \<Rightarrow> outbox_row"
    using that integrity.lease[of d g q] by simp
qed (auto intro: wf_changes)

abbreviation started :: "uuid \<Rightarrow> db \<Rightarrow> time list" where
  "started u d \<equiv> map ad_StartedAt (admissions_of u d)"

lemma started_other:
  assumes "other_step u w w'" and wf: "db_wf (w_db w)"
  shows "started u (w_db w') = started u (w_db w)"
  using assms(1)
proof cases
  case (1 v r e res)
  then show ?thesis using admission_frame.perform_keeps[OF 1, of "t_admissions (w_db w)"] wf by (simp add: admissions_of_def)
next
  case (2 fuel e res')
  then show ?thesis using stepsD[OF lease_steps_drain 2] by (simp add: admissions_of_def lease_only_tables)
next
  case (3 v e res)
  show ?thesis
  proof (cases res)
    case (Inl er)
    then show ?thesis using 3 cleanup_error by auto
  next
    case (Inr y)
    then have "w_db w' = cleaned (uuid_string e v) v (w_db w)" using CleanupDeletedAccount_run 3 by blast
    then have "user_view u (w_db w') = user_view u (w_db w)" using cleaned_view_other[OF wf] 3 by simp
    then show ?thesis by (simp add: user_view_def admissions_of_def)
  qed
next
  case (4 v adm e)
  show ?thesis
  proof (cases adm)
    case (Inl er)
    then show ?thesis using 4 admitExtraction_error by simp
  next
    case (Inr i)
    with 4 have "v \<noteq> u" by simp
    with admitExtraction_run[of v e w i w'] 4 Inr show ?thesis
      by (auto simp: admissions_of_def admitted_db_def drop_old_admissions_def Let_def intro!: arg_cong[of _ _ "map ad_StartedAt"] filter_cong)
  qed
next
  case (5 status v model n latency e res)
  then have "t_admissions (w_db w') = t_admissions (w_db w)"
    using recordExtraction_row[of w' v model n status latency e w] by auto
  then show ?thesis by (simp add: admissions_of_def)
next
  case (6 i e res)
  then have "w' = snd (finishExtraction i e w)" by simp
  from finishExtraction_rows[OF this] have
    "map (\<lambda>a. (ad_ID a, ad_UserID a, ad_StartedAt a)) (t_admissions (w_db w')) = map (\<lambda>a. (ad_ID a, ad_UserID a, ad_StartedAt a)) (t_admissions (w_db w))"
    by simp
  from arg_cong[OF this, of "\<lambda>xs. map (snd \<circ> snd) (filter (\<lambda>x. fst (snd x) = u) xs)"] show ?thesis
    by (simp add: admissions_of_def filter_map comp_def)
next
  case (7 before do_apply e num)
  then have "t_admissions (w_db w') = t_admissions (w_db w)"
    by (auto simp: cleanup_extractions_def bnd_def sql_def ret_def Let_def split: if_splits)
  then show ?thesis by (simp add: admissions_of_def)
qed

section \<open>The window\<close>

lemma sorted_few_above:
  fixes ts :: "time list"
  assumes "sorted ts" and "length (filter (\<lambda>s. c < s) ts) < 5" and "5 \<le> length ts"
  shows "ts ! (length ts - 5) \<le> c"
proof (rule ccontr)
  let ?n = "length ts - 5"
  assume "\<not> ts ! ?n \<le> c"
  then have "c < ts ! (?n + j)" if "?n + j < length ts" for j
    using sorted_nth_mono[OF assms(1), of ?n "?n + j"] that by simp
  then have "\<forall>s \<in> set (drop ?n ts). c < s" by (auto simp: in_set_conv_nth)
  then have "filter (\<lambda>s. c < s) (drop ?n ts) = drop ?n ts" by simp
  moreover have "length (filter (\<lambda>s. c < s) (drop ?n ts)) \<le> length (filter (\<lambda>s. c < s) ts)"
    by (metis append_take_drop_id filter_append le_add2 length_append)
  ultimately show False using assms by simp
qed

definition limited :: "uuid \<Rightarrow> time list \<Rightarrow> time \<Rightarrow> db \<Rightarrow> bool" where
  "limited u ts t d \<longleftrightarrow> db_wf d \<and> sorted ts \<and> (\<forall>s \<in> set ts. s \<le> t)
     \<and> (\<exists>c \<le> t - 60 * second. started u d = filter (\<lambda>s. c < s) ts)
     \<and> (\<forall>k. k + 5 < length ts \<longrightarrow> ts ! k + 60 * second \<le> ts ! (k + 5))"

lemma limited_admitted:
  assumes "limited u ts t (w_db w)" and run: "admitExtraction u e w = (Inr i, w')" and clock: "mono (now_at e)" "t \<le> now_at e (w_step w)"
  shows "limited u (ts @ [now_at e (w_step w + 6)]) (now_at e (w_step w + 6)) (w_db w')"
proof -
  define t1 t3 where "t1 = now_at e (w_step w + 4)" and "t3 = now_at e (w_step w + 6)"
  have t: "t \<le> t1" "t1 \<le> t3" using clock(2) monoD[OF clock(1), of "w_step w" "w_step w + 4"] monoD[OF clock(1), of "w_step w + 4" "w_step w + 6"]
    by (simp_all add: t1_def t3_def)
  obtain c where c: "c \<le> t - 60 * second" "started u (w_db w) = filter (\<lambda>s. c < s) ts" using assms(1) by (auto simp: limited_def)
  note adm = admitExtraction_run[OF run, folded t1_def t3_def]
  have recent: "map ad_StartedAt (filter (\<lambda>a. t1 - 60 * second < ad_StartedAt a) (admissions_of u (w_db w))) = filter (\<lambda>s. t1 - 60 * second < s) ts"
  proof -
    have "map ad_StartedAt (filter (\<lambda>a. t1 - 60 * second < ad_StartedAt a) (admissions_of u (w_db w)))
        = filter (\<lambda>s. t1 - 60 * second < s) (started u (w_db w))" by (simp add: filter_map comp_def)
    also have "\<dots> = filter (\<lambda>s. t1 - 60 * second < s) ts" using c t by (auto simp: c(2) intro!: filter_cong)
    finally show ?thesis .
  qed
  have few: "length (filter (\<lambda>s. t1 - 60 * second < s) ts) < 5"
    using adm recent[symmetric] by (simp add: admissions_drop_old)
  have st: "started u (w_db w') = filter (\<lambda>s. t1 - 60 * second < s) (ts @ [t3])"
    using adm recent t by (simp add: admitted_rows)
  have "ts ! k + 60 * second \<le> t3" if "k + 5 = length ts" for k
  proof -
    from that have "k = length ts - 5" "5 \<le> length ts" by simp_all
    with sorted_few_above[OF _ few] assms(1) t show ?thesis by (auto simp: limited_def)
  qed
  then have "(ts @ [t3]) ! k + 60 * second \<le> (ts @ [t3]) ! (k + 5)" if "k + 5 < length (ts @ [t3])" for k
    using that assms(1) by (cases "k + 5 = length ts") (auto simp: limited_def nth_append)
  moreover have "db_wf (w_db w')" using wf_step[OF service_step.extraction_admitted[OF run]] assms(1) by (simp add: limited_def)
  moreover have "sorted (ts @ [t3])" "\<forall>s \<in> set (ts @ [t3]). s \<le> t3"
    using assms(1) t by (auto simp: limited_def sorted_append)
  ultimately show ?thesis
    unfolding limited_def t3_def[symmetric] using st t by (intro conjI exI[of _ "t1 - 60 * second"] allI impI) auto
qed

lemma admission_run_limited: "admission_run u ts t w \<Longrightarrow> limited u ts t (w_db w)"
proof (induction rule: admission_run.induct)
  case (start w t)
  then show ?case by (auto simp: limited_def)
next
  case (admitted ts t w e i w')
  then show ?case by (intro limited_admitted)
next
  case (other ts t w w')
  then have "started u (w_db w') = started u (w_db w)" "db_wf (w_db w')"
    using started_other wf_step[OF other_step_service] by (auto simp: limited_def)
  with other.IH show ?case by (simp add: limited_def)
qed

text \<open>
  C13: The rate limit holds over every run of the service: of the admissions of one user, six successive ones always span at
  least 60 seconds, whatever else happens in between, as long as the account is not cleaned up and the
  clock of the database does not go backwards.\<close>

theorem admissions_limited:
  assumes "admission_run u ts t w" and "k + 5 < length ts"
  shows "ts ! k + 60 * second \<le> ts ! (k + 5)"
  using admission_run_limited[OF assms(1)] assms(2) by (simp add: limited_def)

text \<open>Six admissions, one after the other, with a slow clock: each finds the previous one out of date.\<close>

definition slow_env :: env where
  "slow_env = sample_env\<lparr>now_at := (\<lambda>n. int n * 20 * second)\<rparr>"

definition only_old :: "uuid \<Rightarrow> world \<Rightarrow> bool" where
  "only_old u w \<longleftrightarrow> t_tombstones (w_db w) = []
     \<and> (\<forall>a \<in> set (t_admissions (w_db w)). ad_UserID a = u \<and> ad_StartedAt a \<le> now_at slow_env (w_step w))"

lemma admit_slowly:
  assumes "only_old u w"
  shows "\<exists>i w'. admitExtraction u slow_env w = (Inr i, w') \<and> only_old u w'"
proof -
  have none: "t_admissions (drop_old_admissions u (int (w_step w + 4) * 20 * second) (insert_ai_user u (w_db w))) = []"
    using assms by (auto simp: only_old_def drop_old_admissions_def slow_env_def filter_empty_conv)
  have adm: "admissions_of u (drop_old_admissions u (int (w_step w + 4) * 20 * second) (insert_ai_user u (w_db w))) = []"
    using none by (simp add: admissions_of_def)
  have "\<exists>i w'. admitExtraction u slow_env w = (Inr i, w')"
    using assms none adm unfolding only_old_def
    by (simp add: admitExtraction_def admit_body_def bnd_def new_uuid_def run_tx_def ret_def Let_def ensureAccountNotDeleted_def
        query_def exec_def exec_now_def sql_def guard_def count_admissions_def insert_admission_def slow_env_def add.commute)
  then obtain i w' where run: "admitExtraction u slow_env w = (Inr i, w')" by blast
  from admitExtraction_run[OF run] none assms have "only_old u w'"
    by (auto simp: only_old_def admitted_db_def Let_def slow_env_def drop_old_admissions_def)
  with run show ?thesis by blast
qed

lemma sample_admissions:
  "\<exists>ts t w. admission_run 1 ts t w \<and> length ts = n \<and> t \<le> now_at slow_env (w_step w) \<and> only_old 1 w"
proof (induction n)
  case 0
  have "admission_run 1 [] 0 (sample_world sample_db)"
    using sample_db_wf by (intro admission_run.start) (simp add: sample_world_def, simp add: admissions_of_def sample_defs)
  moreover have "only_old 1 (sample_world sample_db)" by (simp add: only_old_def sample_defs)
  ultimately show ?case by (intro exI[of _ "[]"] exI[of _ 0] exI[of _ "sample_world sample_db"]) (simp add: slow_env_def)
next
  case (Suc n)
  then obtain ts t w where IH: "admission_run 1 ts t w" "length ts = n" "t \<le> now_at slow_env (w_step w)" "only_old 1 w" by blast
  obtain i w' where run: "admitExtraction 1 slow_env w = (Inr i, w')" "only_old 1 w'" using admit_slowly[OF IH(4)] by blast
  have mono: "mono (now_at slow_env)" by (auto simp: slow_env_def mono_def)
  have "admission_run 1 (ts @ [now_at slow_env (w_step w + 6)]) (now_at slow_env (w_step w + 6)) w'"
    by (rule admission_run.admitted[OF IH(1) run(1) mono IH(3)])
  moreover have "now_at slow_env (w_step w + 6) \<le> now_at slow_env (w_step w')"
    using admitExtraction_run[OF run(1)] monoD[OF mono, of "w_step w + 6" "w_step w'"] by simp
  ultimately show ?case using IH(2) run(2) by (intro exI conjI) auto
qed

lemma admissions_limited_witness:
  "\<exists>ts t w. admission_run 1 ts t w \<and> length ts = 6 \<and> ts ! 0 + 60 * second \<le> ts ! 5"
proof -
  obtain ts t w where run: "admission_run 1 ts t w" and len: "length ts = 6"
    using sample_admissions[of 6] by blast
  show ?thesis using run len admissions_limited[OF run, of 0] by auto
qed

end
