(* ===== verification/Serve.thy ===== *)
theory Serve
  imports Gateway Limiter
begin

text \<open>
  What the server as a whole guarantees, whatever the request: nothing is done without a vouched user, a
  change of the tables is one successful request of that user, and a reminder is called valid only if it
  is due. The handlers' laws are those of \<open>Guard\<close>; the effect of a request is that of \<open>System\<close>.
\<close>

section \<open>Reading handlers\<close>

lemma idle_attempting [handler_intros]:
  assumes "steps (=) m" and "\<And>x. idle (k x)"
  shows "idle (attempting m k)"
  unfolding idle_def
proof (intro allI impI)
  fix e w resp w' assume run: "attempting m k e w = (resp, w')"
  obtain r w1 where m: "m e w = (r, w1)" by (cases "m e w")
  with stepsD[OF assms(1) m] run assms(2)[of r] show "w_db w' = w_db w"
    by (auto simp: attempting_def idle_def)
qed

lemma idle_if [handler_intros]: "idle a \<Longrightarrow> idle b \<Longrightarrow> idle (if c then a else b)"
  by simp

lemma idle_option [handler_intros]: "idle a \<Longrightarrow> (\<And>x. idle (k x)) \<Longrightarrow> idle (case v of None \<Rightarrow> a | Some x \<Rightarrow> k x)"
  by (cases v) simp_all

lemma idle_sum [handler_intros]: "(\<And>x. idle (h x)) \<Longrightarrow> (\<And>x. idle (k x)) \<Longrightarrow> idle (case v of Inl x \<Rightarrow> h x | Inr x \<Rightarrow> k x)"
  by (cases v) simp_all

lemma idle_reminderValidity: "idle (reminderValidity a rq)"
  unfolding reminderValidity_def by (intro handler_intros)

lemma same_CheckReady: "steps (=) CheckReady"
  unfolding CheckReady_def by (intro same.steps_bnd same.steps_foreach same.steps_query)

lemma same_FollowupAvailable: "steps (=) (FollowupAvailable c)"
  unfolding FollowupAvailable_def
  by (intro same.steps_bnd same.steps_if same.steps_ask same.steps_ret same.steps_sql) auto

lemma idle_readyz: "steps (=) m \<Longrightarrow> idle (readyz (Some m))"
  unfolding readyz_def Let_def option.case by (intro handler_intros)

lemma idle_status_page: "steps (=) m \<Longrightarrow> steps (=) f \<Longrightarrow> idle (status_page (Some m) (Some f))"
  unfolding status_page_def Let_def option.case by (intro handler_intros)

lemma idle_public: "public_route r \<Longrightarrow> idle (route_handler s r rq)"
  by (cases r) (simp_all add: healthz_def idle_respond idle_readyz idle_status_page idle_reminderValidity same_CheckReady
      same_FollowupAvailable)

section \<open>Protected handlers\<close>

text \<open>What a protected route does to the tables on behalf of a user.\<close>

definition effect_of :: "route \<Rightarrow> uuid \<Rightarrow> env \<Rightarrow> world \<Rightarrow> int \<Rightarrow> world \<Rightarrow> bool" where
  "effect_of r u e w status w' \<longleftrightarrow> w_db w' = w_db w
     \<or> (if r = ExtractRoute then ai_change (w_db w) (w_db w')
        else status < 400 \<and> (\<exists>q w1. w_db w1 = w_db w \<and> perform u q e w1 = (Inr (), w')))"

interpretation ai_change: db_relation ai_change
  by unfold_locales (auto simp: ai_change_def ai_only_def)

lemma ai_change_ExtractSchedules:
  assumes run: "ExtractSchedules g c l f u inp e w = (res, w')"
  shows "ai_change (w_db w) (w_db w')"
proof -
  obtain r w1 where adm: "admitExtraction u e w = (r, w1)" by (cases "admitExtraction u e w")
  note admitted = ai_change_admit[OF adm]
  show ?thesis
  proof (cases r)
    case (Inl er)
    then show ?thesis using run adm admitted by (simp add: ExtractSchedules_def)
  next
    case (Inr i)
    obtain res' w2 where mid: "extract_admitted g c l f u inp e w1 = (res', w2)" by (cases "extract_admitted g c l f u inp e w1")
    have "ai_change (w_db w1) (w_db w2)"
    proof -
      have recorded: "ai_change (w_db v) (w_db (snd (recordExtraction u m n st lat e v)))"
        if "st \<in> {''success'', ''failed''}" for v m n st lat
        using ai_change_record[OF that] by (metis prod.collapse)
      have read: "w_db v = w_db w1" if "markPossibleDuplicates f u tz cs e w1 = (x, v)" for tz cs x v
        using stepsD[OF same_markPossibleDuplicates that] by simp
      show ?thesis
        using mid by (auto simp: extract_admitted_def Let_def ai_change.R_refl split: sum.splits prod.splits dest!: read)
          (metis read recorded insertCI)+
    qed
    moreover have "ai_change (w_db w2) (w_db (snd (finishExtraction i e w2)))"
      using ai_change_finish by (metis prod.collapse)
    ultimately have "ai_change (w_db w) (w_db (snd (finishExtraction i e w2)))"
      using admitted by (blast intro: ai_change.R_trans)
    then show ?thesis using run adm mid Inr by (simp add: ExtractSchedules_def)
  qed
qed

lemma effect_guarded: "guarded u h \<Longrightarrow> h e w = (resp, w') \<Longrightarrow> r \<noteq> ExtractRoute \<Longrightarrow> effect_of r u e w (h_status resp) w'"
  unfolding guarded_def effect_of_def by metis

lemma effect_protected:
  assumes "\<not> public_route r" and user: "hr_user rq = Some u" and run: "route_handler s r rq e w = (resp, w')"
  shows "effect_of r u e w (h_status resp) w'"
proof (cases "r = ExtractRoute")
  case True
  with run user ai_change_ExtractSchedules show ?thesis
    by (auto simp: ai_change.R_refl effect_of_def TimeoutHandler_def Handler_ExtractSchedules_def authenticated_some reading_def accepted_def respond_def
        split: sum.splits prod.splits)
next
  case False
  have "guarded u (route_handler s r rq)"
    using assms(1) False user
    by (cases r) (simp_all add: guarded_Handler_CreateSchedule guarded_Handler_CloneSchedule guarded_Handler_UpdateSchedule
        guarded_Handler_DeleteSchedule guarded_Handler_BulkDeleteSchedules guarded_Handler_AddReminder guarded_Handler_DeleteReminder
        idle_guarded idle_Handler_GetSchedule idle_Handler_ListSchedules idle_Handler_ExportSchedulesICS idle_Handler_ListReminders
        idle_Handler_PreviewRecurrence)
  with run False show ?thesis by (rule effect_guarded[rotated])
qed

section \<open>The server\<close>

lemma serve_Router:
  assumes "serve s r rq e w = (resp, w')"
  obtains resp' where "Router s r rq e w = (resp', w')" and "h_status resp = h_status resp'" and "h_body resp = h_body resp'"
  using assms
  by (auto simp: serve_def CORS_def WithRequestID_def adding_def reading_def cors_headers_def set_header_def Let_def split: if_splits prod.splits)

lemma serve_effect:
  assumes run: "serve s r rq e w = (resp, w')"
  shows "w_db w' = w_db w \<or> (\<exists>u. vouched (sv_jwt s) (uuid_Parse (sv_api s)) rq u \<and> effect_of r u e w (h_status resp) w')"
proof -
  obtain resp' where router: "Router s r rq e w = (resp', w')" and st: "h_status resp = h_status resp'" using run by (rule serve_Router)
  show ?thesis
  proof (cases "public_route r")
    case True
    then show ?thesis using router idle_public[of r s rq] by (auto simp: Router_def idle_def)
  next
    case False
    show ?thesis
    proof (cases "authenticate (sv_jwt s) (uuid_Parse (sv_api s)) rq")
      case (Inl resp)
      then show ?thesis using router False by (auto simp: Router_def Middleware_def respond_def)
    next
      case (Inr u)
      then have "route_handler s r (rq\<lparr>hr_user := Some u\<rparr>) e w = (resp', w')"
        using router False by (auto simp: Router_def Middleware_def)
      from effect_protected[OF False _ this] st have "effect_of r u e w (h_status resp) w'" by simp
      then show ?thesis using authenticate_vouched[OF Inr] by blast
    qed
  qed
qed

text \<open>
  C3: Whatever is asked of the server: if it changes the tables, the request carries a token that the key set of the issuer
  verifies, for an account the issuer calls active, and the change is one successful request of that
  user to the service, answered with a status below 400, or an extraction, which leaves the calendar
  alone. What the tables hold for users the request does not vouch for is not changed.\<close>

theorem served_requests_guarded:
  assumes run: "serve s r rq e w = (resp, w')"
  defines "vouches \<equiv> vouched (sv_jwt s) (uuid_Parse (sv_api s)) rq"
  shows "(w_db w' \<noteq> w_db w \<longrightarrow> (\<exists>u. vouches u
       \<and> (if r = ExtractRoute then ai_only (w_db w) (w_db w')
          else h_status resp < 400 \<and> (\<exists>q w1. w_db w1 = w_db w \<and> perform u q e w1 = (Inr (), w')))))
    \<and> (db_wf (w_db w) \<and> r \<noteq> ExtractRoute \<longrightarrow> (\<forall>v. \<not> vouches v \<longrightarrow> user_view v (w_db w') = user_view v (w_db w)))"
proof -
  have "w_db w' = w_db w \<or> (\<exists>u. vouches u \<and> effect_of r u e w (h_status resp) w')"
    using serve_effect[OF run] by (simp add: vouches_def)
  moreover have "user_view v (w_db w') = user_view v (w_db w)"
    if "db_wf (w_db w)" "w_db w1 = w_db w" "perform u q e w1 = (Inr (), w')" "v \<noteq> u" for u q w1 v
  proof -
    have "isolated u (w_db w) (w_db w1)" using that by (auto simp: isolated_def)
    then have "isolated u (w_db w) (w_db w')" by (rule isolation.perform_keeps[OF that(3)])
    then show ?thesis using that(4) by (auto simp: isolated_def)
  qed
  moreover have "ai_change a b \<Longrightarrow> ai_only a b" for a b by (simp add: ai_change_def)
  ultimately show ?thesis unfolding effect_of_def by metis
qed

text \<open>
  C14: Protected routes fail closed: a request that vouches for nobody is answered with 401 or 503, and nothing at all
  happens, not even a statement.\<close>

theorem unvouched_requests_refused:
  assumes "serve s r rq e w = (resp, w')" and "\<not> public_route r"
    and "\<nexists>u. vouched (sv_jwt s) (uuid_Parse (sv_api s)) rq u"
  shows "w' = w \<and> (h_status resp = 401 \<or> h_status resp = 503)"
proof -
  obtain resp' where router: "Router s r rq e w = (resp', w')" and st: "h_status resp = h_status resp'" using assms(1) by (rule serve_Router)
  obtain resp0 where "authenticate (sv_jwt s) (uuid_Parse (sv_api s)) rq = Inl resp0"
    using assms(3) authenticate_vouched by (metis sumE)
  with router st assms(2) show ?thesis
    using authenticate_refused by (fastforce simp: Router_def Middleware_def respond_def unauthorized_def unavailable_def)
qed

text \<open>
  C40: The answer that a reminder is valid can be trusted: the caller knows the shared secret, the schedule belongs to the
  user and is confirmed, it has this reminder on the Telegram channel, the time that was asked for is
  the one at which the reminder is due (counted from nine in the morning of the first day if the event is all-day), and
  the account is active. The tables are not changed.\<close>

theorem reminderValidity_sound:
  assumes run: "reminderValidity a rq e w = (resp, w')"
  shows "w_db w' = w_db w
    \<and> (\<forall>v. h_body resp = BValidity v \<and> rv_Valid v \<longrightarrow> (\<exists>q sch.
        hr_header rq ''Authorization'' = ''Bearer '' @ a_internalToken a \<and> a_internalToken a \<noteq> []
        \<and> validity_query_of a rq = Inr q \<and> schedule_of (w_db w) (vq_UserID q) (vq_ScheduleID q) = Some sch
        \<and> s_Status sch = ''confirmed'' \<and> v = (validity_of e q sch)\<lparr>rv_Valid := True\<rparr>
        \<and> (\<exists>r \<in> set (s_Reminders sch). rem_MinutesBefore r = vq_MinutesBefore q \<and> rem_Channel r = ''telegram'')
        \<and> reminderInstant (load_location e) sch (vq_MinutesBefore q * minute) = Some (vq_RemindAt q)
        \<and> accountActive a (vq_UserID q) = Some True))"
proof -
  have "w_db w' = w_db w" using idle_reminderValidity[of a rq] run by (simp add: idle_def)
  moreover have "\<exists>q sch. hr_header rq ''Authorization'' = ''Bearer '' @ a_internalToken a \<and> a_internalToken a \<noteq> []
        \<and> validity_query_of a rq = Inr q \<and> (\<exists>w1. GetSchedule (vq_UserID q) (vq_ScheduleID q) e w = (Inr sch, w1))
        \<and> v = (validity_of e q sch)\<lparr>rv_Valid := True\<rparr> \<and> reminder_matches (load_location e) sch q \<and> accountActive a (vq_UserID q) = Some True"
    if "h_body resp = BValidity v" "rv_Valid v" for v
    using run that
    by (auto simp: reminderValidity_def accepted_def refuse_if_def or_refuse_def reading_def attempting_def respond_def
        writeJSON_def writeError_def validInternalBearer_def validity_of_def validity_response_def split: sum.splits if_splits prod.splits option.splits)
  ultimately show ?thesis
    using getSchedule_run unfolding GetSchedule_def reminder_matches_def by fastforce
qed

section \<open>Examples\<close>

definition sample_request :: http_request where
  "sample_request = \<lparr>hr_user = None, hr_id = ''11'', hr_reminderId = [], hr_query = [],
     hr_header = (\<lambda>name. if name = ''Authorization'' then ''Bearer token'' else []), hr_body = NoBody\<rparr>"

definition sample_jwt :: "bool jwt" where
  "sample_jwt = \<lparr>ja_keyID = (\<lambda>_. Some ''k1''), ja_cached = Some False, ja_refreshed = Some True, ja_has = (\<lambda>keys _. keys),
     ja_parse = (\<lambda>keys _ _ raw. if keys \<and> raw = ''token'' then Some ''1'' else None), ja_issuer = ''auth'', ja_audience = ''core'',
     ja_late = False, ja_introspect = (\<lambda>_. Some \<lparr>sr_status = 200, sr_body = Some (JObject [(''active'', JBool True)])\<rparr>)\<rparr>"

definition sample_extraction :: extraction where
  "sample_extraction = \<lparr>xe_gemini = sample_gemini, xe_call = sample_call, xe_latency = 0, xe_fold = (\<lambda>s. s), xe_val = (\<lambda>_. None),
     xe_tooLarge = False, xe_deadline = False, xe_timedOut = False\<rparr>"

definition sample_server :: "bool server" where
  "sample_server = \<lparr>sv_api = sample_api, sv_jwt = sample_jwt, sv_extraction = sample_extraction, sv_connected = True, sv_origins = []\<rparr>"

lemma no_origin: "[] \<notin> set (cors_origins v)"
  by (simp add: cors_origins_def)

lemma sample_served:
  assumes "DeleteSchedule 1 11 [] e w = (Inr (), w')"
  shows "\<exists>resp. serve sample_server DeleteRoute sample_request e w = (resp, w') \<and> h_status resp < 400"
proof -
  have auth: "authenticate sample_jwt (uuid_Parse sample_api) sample_request = Inr 1" by code_simp
  have parts: "path_id sample_api (hr_id sample_request) ''invalid schedule id'' = Inr 11" "request_key sample_request = Inr []"
    "request_scope sample_request = ''this''" by code_simp+
  have "Handler_DeleteSchedule sample_api (sample_request\<lparr>hr_user := Some 1\<rparr>) e w = (no_content, w')"
    using parts assms
    by (simp add: Handler_DeleteSchedule_def authenticated_some accepted_def refuse_if_def calling_def respond_def request_key_def request_scope_def query_Get_def)
  moreover have "hr_header sample_request ''Origin'' = []" by (simp add: sample_request_def)
  ultimately show ?thesis
    using no_origin auth by (simp add: serve_def CORS_def WithRequestID_def adding_def reading_def Router_def Middleware_def sample_server_def Let_def)
qed

lemma served_requests_guarded_witness:
  "\<exists>resp w'. serve sample_server DeleteRoute sample_request sample_env (sample_world sample_db) = (resp, w')
     \<and> w_db w' \<noteq> sample_db \<and> (\<exists>u q w1. w_db w1 = sample_db \<and> perform u q sample_env w1 = (Inr (), w'))"
proof -
  obtain w' where del: "DeleteSchedule 1 11 [] sample_env (sample_world sample_db) = (Inr (), w')"
    and "erased_schedules {11} sample_db (w_db w')" using sample_delete by blast
  then have changed: "w_db w' \<noteq> sample_db" by (auto simp: erased_schedules_def sample_defs)
  obtain resp where run: "serve sample_server DeleteRoute sample_request sample_env (sample_world sample_db) = (resp, w')"
    using sample_served[OF del] by blast
  with changed served_requests_guarded[OF run] show ?thesis by auto
qed

lemma unvouched_requests_refused_witness:
  "\<exists>resp w'. serve sample_server DeleteRoute (sample_request\<lparr>hr_header := \<lambda>_. []\<rparr>) sample_env (sample_world sample_db) = (resp, w')
     \<and> w' = sample_world sample_db"
proof -
  let ?rq = "sample_request\<lparr>hr_header := \<lambda>_. []\<rparr>"
  obtain resp w' where run: "serve sample_server DeleteRoute ?rq sample_env (sample_world sample_db) = (resp, w')" by fastforce
  have "\<nexists>u. vouched (sv_jwt sample_server) (uuid_Parse (sv_api sample_server)) ?rq u"
    by (simp add: vouched_def bearerToken_def strip_prefix_def)
  from unvouched_requests_refused[OF run _ this] run show ?thesis by auto
qed

definition validity_request :: http_request where
  "validity_request = sample_request\<lparr>hr_query := [(''user_id'', [''1'']), (''revision'', [''3'']), (''minutes_before'', [''30'']),
     (''channel'', [''telegram'']), (''remind_at'', [''1969-12-31T23:30:00Z''])],
     hr_header := (\<lambda>name. if name = ''Authorization'' then ''Bearer secret'' else [])\<rparr>"

definition active_api :: api where
  "active_api = sample_api\<lparr>a_account := (\<lambda>_. Some \<lparr>sr_status = 200, sr_body = Some (JObject [(''active'', JBool True)])\<rparr>)\<rparr>"

lemma reminderValidity_sound_witness:
  "\<exists>resp w' v. reminderValidity active_api validity_request sample_env (sample_world sample_db) = (resp, w')
     \<and> h_body resp = BValidity v \<and> rv_Valid v \<and> w_db w' = sample_db"
proof -
  obtain q where q: "validity_query_of active_api validity_request = Inr q" "vq_UserID q = 1" "vq_ScheduleID q = 11"
    "vq_MinutesBefore q = 30" "vq_Channel q = ''telegram''" "vq_RemindAt q = - 30 * minute"
  proof -
    have "case validity_query_of active_api validity_request of
        Inr q \<Rightarrow> vq_UserID q = 1 \<and> vq_ScheduleID q = 11 \<and> vq_MinutesBefore q = 30 \<and> vq_Channel q = ''telegram'' \<and> vq_RemindAt q = - 30 * minute
      | Inl _ \<Rightarrow> False" by code_simp
    then show thesis using that by (auto split: sum.splits)
  qed
  obtain sch where sch: "schedule_of sample_db 1 11 = Some sch" "s_Status sch = ''confirmed''" "\<not> s_AllDay sch" "s_StartAt sch = 0"
    "\<exists>r \<in> set (s_Reminders sch). rem_MinutesBefore r = 30 \<and> rem_Channel r = ''telegram''"
  proof -
    have "case schedule_of sample_db 1 11 of
        Some s \<Rightarrow> s_Status s = ''confirmed'' \<and> \<not> s_AllDay s \<and> s_StartAt s = 0 \<and> (\<exists>r \<in> set (s_Reminders s). rem_MinutesBefore r = 30 \<and> rem_Channel r = ''telegram'')
      | None \<Rightarrow> False" by code_simp
    then show thesis using that by (auto split: option.splits)
  qed
  have get: "GetSchedule 1 11 sample_env (sample_world sample_db) = (Inr sch, sample_world sample_db\<lparr>w_step := 3\<rparr>)"
    unfolding GetSchedule_def getSchedule_run by (simp add: sch)
  have act: "accountActive active_api 1 = Some True" "validInternalBearer validity_request (a_internalToken active_api)"
    "a_internalToken active_api \<noteq> []" by code_simp+
  have "reminder_matches (load_location sample_env) sch q" using sch q by (simp add: reminder_matches_def reminderInstant_def)
  then have run: "reminderValidity active_api validity_request sample_env (sample_world sample_db)
      = (writeJSON 200 (BValidity ((validity_of sample_env q sch)\<lparr>rv_Valid := True\<rparr>)), sample_world sample_db\<lparr>w_step := 3\<rparr>)"
    using q get act by (simp add: reminderValidity_def accepted_def refuse_if_def or_refuse_def reading_def attempting_def respond_def)
  from reminderValidity_sound[OF run] show ?thesis unfolding run by (simp add: writeJSON_def)
qed

end
