(* ===== verification/Consumer.thy ===== *)
theory Consumer
  imports System
begin

text \<open>
  The subscription loop of \<open>internal/accountdeletion/consumer.go\<close>: connect until it works, then
  handle the messages that are delivered, one at a time, until the process stops. The client of the message
  broker is a parameter: which of its calls succeed, and which messages it delivers.
\<close>

section \<open>Definitions\<close>

text \<open>
  One delivery: its decoded message, the application clock, whether publishing the result and
  acknowledging succeed, and the environment of the statements. \<open>MaxAckPending\<close> is one, so deliveries
  do not overlap; a message that is not acknowledged is delivered again, as a later element of the list.
\<close>

record delivery =
  dl_event :: "deletionRequest option"
  dl_now :: time
  dl_published :: bool
  dl_acked :: bool
  dl_env :: env

fun consume :: "(string \<Rightarrow> uuid option) \<Rightarrow> (uuid \<Rightarrow> unit tx) \<Rightarrow> delivery list \<Rightarrow> world \<Rightarrow> handled list \<times> world" where
  "consume parse cleanup [] w = ([], w)"
| "consume parse cleanup (d # ds) w =
     (case handleMessage parse (dl_now d) (dl_published d) (dl_acked d) cleanup (dl_event d) (dl_env d) w of (h, w1) \<Rightarrow>
        case consume parse cleanup ds w1 of (hs, w2) \<Rightarrow> (h # hs, w2))"

text \<open>One round of the loop: which of the five calls succeed, and what is delivered if all do.\<close>

record attempt =
  at_Connect :: bool
  at_JetStream :: bool
  at_Stream :: bool
  at_Consumer :: bool
  at_Consume :: bool
  at_Deliveries :: "delivery list"

definition subscribed :: "attempt \<Rightarrow> bool" where
  "subscribed a \<longleftrightarrow> at_Connect a \<and> at_JetStream a \<and> at_Stream a \<and> at_Consumer a \<and> at_Consume a"

text \<open>What the loop did to connections: opened, closed, and how often it waited for the next round.\<close>

record connections =
  cn_opened :: nat
  cn_closed :: nat
  cn_waits :: nat

text \<open>
  The rounds until the context is cancelled. A round that subscribes is the last one: it ends only with the
  context.
\<close>

fun Consumer_Run :: "(string \<Rightarrow> uuid option) \<Rightarrow> (uuid \<Rightarrow> unit tx) \<Rightarrow> attempt list \<Rightarrow> world
    \<Rightarrow> connections \<times> handled list \<times> world" where
  "Consumer_Run parse cleanup [] w = (\<lparr>cn_opened = 0, cn_closed = 0, cn_waits = 0\<rparr>, [], w)"
| "Consumer_Run parse cleanup (a # as) w =
     (if \<not> at_Connect a
      then (case Consumer_Run parse cleanup as w of (c, rest) \<Rightarrow> (c\<lparr>cn_waits := Suc (cn_waits c)\<rparr>, rest))
      else if \<not> (at_JetStream a \<and> at_Stream a \<and> at_Consumer a \<and> at_Consume a)
      then (case Consumer_Run parse cleanup as w of (c, rest) \<Rightarrow>
        (c\<lparr>cn_opened := Suc (cn_opened c), cn_closed := Suc (cn_closed c), cn_waits := Suc (cn_waits c)\<rparr>, rest))
      else (\<lparr>cn_opened = 1, cn_closed = 1, cn_waits = 0\<rparr>, consume parse cleanup (at_Deliveries a) w))"

section \<open>The loop\<close>

lemma Consumer_Run_cases:
  assumes "Consumer_Run parse cleanup as w = (c, hs, w')"
  shows "cn_opened c = cn_closed c \<and> cn_waits c = length (takeWhile (\<lambda>a. \<not> subscribed a) as)
     \<and> (hs, w') = (case find subscribed as of None \<Rightarrow> ([], w) | Some a \<Rightarrow> consume parse cleanup (at_Deliveries a) w)"
  using assms
  by (induction as arbitrary: c) (auto simp: subscribed_def split: if_splits prod.splits)

section \<open>Messages as steps of the service\<close>

lemma handleMessage_step:
  assumes "handleMessage parse now pub ack CleanupDeletedAccount event e w = (h, w')"
  shows "service_step\<^sup>*\<^sup>* w w'"
  using assms unfolding handleMessage_def Let_def
  by (auto split: option.splits if_splits prod.splits intro: service_step.account_deleted)

lemma consume_steps: "consume parse CleanupDeletedAccount ds w = (hs, w') \<Longrightarrow> service_step\<^sup>*\<^sup>* w w'"
proof (induction ds arbitrary: w hs)
  case (Cons d ds)
  then obtain h w1 hs' where one: "handleMessage parse (dl_now d) (dl_published d) (dl_acked d) CleanupDeletedAccount (dl_event d) (dl_env d) w = (h, w1)"
    and rest: "consume parse CleanupDeletedAccount ds w1 = (hs', w')" by (auto split: prod.splits)
  from handleMessage_step[OF one] Cons.IH[OF rest] show ?case by (rule rtranclp_trans)
qed simp

lemma steps_wf: "service_step\<^sup>*\<^sup>* w w' \<Longrightarrow> db_wf (w_db w) \<Longrightarrow> db_wf (w_db w')"
  by (induction rule: rtranclp_induct) (auto dest: wf_step)

lemma steps_gone: "service_step\<^sup>*\<^sup>* w w' \<Longrightarrow> db_wf (w_db w) \<Longrightarrow> account_gone u (w_db w) \<Longrightarrow> account_gone u (w_db w')"
  by (induction rule: rtranclp_induct) (auto dest: steps_wf service_step_gone)

section \<open>Deletions complete\<close>

text \<open>A well-formed event for the account \<open>u\<close>, delivered while everything works.\<close>

definition well_formed_event :: "(string \<Rightarrow> uuid option) \<Rightarrow> uuid \<Rightarrow> deletionRequest \<Rightarrow> bool" where
  "well_formed_event parse u ev \<longleftrightarrow> parse (dq_UserID ev) = Some u \<and> dq_EventID ev \<noteq> [] \<and> dq_RequestID ev \<noteq> []"

definition undisturbed :: "delivery \<Rightarrow> bool" where
  "undisturbed d \<longleftrightarrow> (\<forall>n. \<not> fault_at (dl_env d) n) \<and> json_time_ok (dl_now d) \<and> dl_published d \<and> dl_acked d"

lemma cleanup_undisturbed:
  assumes "\<And>n. \<not> fault_at e n"
  shows "\<exists>w'. CleanupDeletedAccount u e w = (Inr (), w')"
  using assms by (simp add: cleanup_eval)

text \<open>What the consumer answers to such a delivery.\<close>

definition completion :: "deletionRequest \<Rightarrow> time \<Rightarrow> handled" where
  "completion ev now = Consumed (Some (dq_EventID ev @ '':core:completed'',
     \<lparr>dr_EventID = dq_EventID ev, dr_RequestID = dq_RequestID ev, dr_Service = ''core'', dr_Status = ''completed'', dr_OccurredAt = now\<rparr>))"

lemma handleMessage_completes:
  assumes "dl_event d = Some ev" and "well_formed_event parse u ev" and "undisturbed d"
  obtains w' where "handleMessage parse (dl_now d) (dl_published d) (dl_acked d) CleanupDeletedAccount (dl_event d) (dl_env d) w
      = (completion ev (dl_now d), w')"
    and "CleanupDeletedAccount u (dl_env d) w = (Inr (), w')"
proof -
  obtain w' where "CleanupDeletedAccount u (dl_env d) w = (Inr (), w')"
    using cleanup_undisturbed[of "dl_env d" u w] assms(3) by (auto simp: undisturbed_def)
  with that assms show thesis
    by (simp add: handleMessage_def Let_def well_formed_event_def undisturbed_def completion_def)
qed

lemma consume_completes:
  assumes "consume parse CleanupDeletedAccount ds w = (hs, w')" and "d \<in> set ds" and "dl_event d = Some ev"
    and "well_formed_event parse u ev" and "undisturbed d" and "db_wf (w_db w)"
  shows "completion ev (dl_now d) \<in> set hs \<and> account_gone u (w_db w')"
  using assms(1,2,6)
proof (induction ds arbitrary: w hs)
  case (Cons d' ds)
  then obtain h w1 hs' where one: "handleMessage parse (dl_now d') (dl_published d') (dl_acked d') CleanupDeletedAccount (dl_event d') (dl_env d') w = (h, w1)"
    and rest: "consume parse CleanupDeletedAccount ds w1 = (hs', w')" and hs: "hs = h # hs'" by (auto split: prod.splits)
  have wf: "db_wf (w_db w1)" using steps_wf[OF handleMessage_step[OF one]] Cons.prems by blast
  show ?case
  proof (cases "d' = d")
    case True
    obtain w2 where "handleMessage parse (dl_now d) (dl_published d) (dl_acked d) CleanupDeletedAccount (dl_event d) (dl_env d) w
        = (completion ev (dl_now d), w2)" and c: "CleanupDeletedAccount u (dl_env d) w = (Inr (), w2)"
      using assms(3-5) by (rule handleMessage_completes)
    with one True have "h = completion ev (dl_now d)" "w2 = w1" by simp_all
    moreover have "account_gone u (w_db w1)" using cleanup_gone[OF c] Cons.prems \<open>w2 = w1\<close> by simp
    ultimately show ?thesis using steps_gone[OF consume_steps[OF rest] wf] hs by simp
  qed (use Cons.IH[OF rest _ wf] Cons.prems hs in auto)
qed simp

text \<open>
  C23: Deletions complete: the consumer keeps trying until it is subscribed, however often connecting, finding the stream or
  subscribing fails, closing every connection it opened; and if afterwards a well-formed event is delivered
  once while the database and the broker work, then, whatever happened to the other deliveries before
  and after, the completion of that event has been published and nothing of the account is left.\<close>

theorem account_deletion_completes:
  assumes run: "Consumer_Run parse CleanupDeletedAccount (failed @ a # later) w = (c, hs, w')" and wf: "db_wf (w_db w)"
    and sub: "\<forall>b \<in> set failed. \<not> subscribed b" "subscribed a"
    and d: "d \<in> set (at_Deliveries a)" "dl_event d = Some ev" "well_formed_event parse u ev" "undisturbed d"
  shows "completion ev (dl_now d) \<in> set hs \<and> account_gone u (w_db w')
    \<and> cn_opened c = cn_closed c \<and> cn_waits c = length failed"
proof -
  have "find subscribed (failed @ a # later) = Some a" "takeWhile (\<lambda>b. \<not> subscribed b) (failed @ a # later) = failed"
    using sub by (induction failed) auto
  with Consumer_Run_cases[OF run] have "consume parse CleanupDeletedAccount (at_Deliveries a) w = (hs, w')"
    and "cn_opened c = cn_closed c \<and> cn_waits c = length failed" by simp_all
  with consume_completes[OF _ d wf] show ?thesis by blast
qed

definition sample_deletion :: delivery where
  "sample_deletion = \<lparr>dl_event = Some \<lparr>dq_EventID = ''e'', dq_RequestID = ''r'', dq_UserID = ''1'', dq_CredentialVersion = 1, dq_OccurredAt = 0\<rparr>,
     dl_now = 0, dl_published = True, dl_acked = True, dl_env = sample_env\<rparr>"

definition sample_attempts :: "attempt list" where
  "sample_attempts = [\<lparr>at_Connect = True, at_JetStream = True, at_Stream = False, at_Consumer = True, at_Consume = True, at_Deliveries = []\<rparr>]
     @ \<lparr>at_Connect = True, at_JetStream = True, at_Stream = True, at_Consumer = True, at_Consume = True,
       at_Deliveries = [sample_deletion\<lparr>dl_event := None\<rparr>, sample_deletion]\<rparr> # []"

lemma account_deletion_completes_witness:
  "\<exists>c hs w'. Consumer_Run (\<lambda>_. Some 1) CleanupDeletedAccount sample_attempts (sample_world sample_db) = (c, hs, w')
     \<and> account_gone 1 (w_db w') \<and> cn_waits c = 1"
proof -
  obtain c hs w' where run: "Consumer_Run (\<lambda>_. Some 1) CleanupDeletedAccount sample_attempts (sample_world sample_db) = (c, hs, w')"
    by (metis prod_cases3)
  have "json_time_ok 0" by code_simp
  then have "undisturbed sample_deletion" by (simp add: undisturbed_def sample_deletion_def sample_env_def)
  with account_deletion_completes[OF run[unfolded sample_attempts_def], of sample_deletion] run sample_db_wf show ?thesis
    by (simp add: subscribed_def well_formed_event_def) (simp add: sample_deletion_def)
qed

end
