(* ===== verification/Program.thy ===== *)
theory Program
  imports Serve Consumer
begin

text \<open>
  The program: the HTTP server, the consumer of account deletions, the background dispatcher and the command
  that clears extractions, on one database. A request or a message that no other work overlaps is one
  step, from the bytes of the request to the answer; work that overlaps other work appears as its
  single transactions, in any order. On the tables every step of the program is a step of the
  service (\<open>System\<close>), so what was shown of the service holds of the program.
\<close>

section \<open>Steps\<close>

text \<open>
  A \<open>server\<close> holds, besides the configuration, what the key set, the issuer and the model answer to one
  request; \<open>S\<close> is the set of the servers that can occur, so these answers may change from step to step.
\<close>

inductive program_step :: "'k server set \<Rightarrow> world \<Rightarrow> world \<Rightarrow> bool" for S where
  served: "s \<in> S \<Longrightarrow> serve s r rq e w = (resp, w') \<Longrightarrow> program_step S w w'"
| delivered: "handleMessage parse now pub ack CleanupDeletedAccount event e w = (h, w') \<Longrightarrow> program_step S w w'"
| transaction: "service_step w w' \<Longrightarrow> program_step S w w'"

text \<open>What one step does to the tables.\<close>

lemma program_step_effect:
  assumes "program_step S w w'"
  obtains (same) "ai_change (w_db w) (w_db w')"
    | (service) w1 w2 where "w_db w1 = w_db w" and "service_step\<^sup>*\<^sup>* w1 w2" and "w_db w2 = w_db w'"
  using assms
proof (cases rule: program_step.cases)
  case (served s r rq e resp)
  from serve_effect[OF served(2)] show thesis
    by (auto simp: effect_of_def ai_change.R_refl split: if_splits intro: same service dest: one_request)
next
  case (delivered parse now pub ack event e h)
  then show thesis using handleMessage_step service by blast
next
  case transaction
  then show thesis using service by blast
qed

text \<open>An invariant of the tables that transactions and extractions keep is one of the program.\<close>

lemma program_invariant:
  assumes "(program_step S)\<^sup>*\<^sup>* w w'" and "I (w_db w)"
    and ai: "\<And>a b. ai_change a b \<Longrightarrow> I a \<Longrightarrow> I b"
    and step: "\<And>v v'. service_step v v' \<Longrightarrow> I (w_db v) \<Longrightarrow> I (w_db v')"
  shows "I (w_db w')"
  using assms(1,2)
proof (induction rule: rtranclp_induct)
  case (step v v')
  have many: "service_step\<^sup>*\<^sup>* a b \<Longrightarrow> I (w_db a) \<Longrightarrow> I (w_db b)" for a b
    by (induction rule: rtranclp_induct) (use assms(4) in auto)
  from step.hyps(2) show ?case
  proof (cases rule: program_step_effect)
    case same
    then show ?thesis using ai step.IH[OF step.prems] by blast
  next
    case (service w1 w2)
    then show ?thesis using many[of w1 w2] step.IH[OF step.prems] by simp
  qed
qed simp

section \<open>Properties of the program\<close>

text \<open>
  C6: In every state the program can reach, whatever requests, tokens and messages arrive and whatever fails on the
  way, the tables are well formed (keys unique, references resolved, occurrences owned by the
  owner of their series) and every schedule has at most five distinct reminders between zero minutes
  and a week ahead.\<close>

theorem program_states_consistent:
  assumes "(program_step S)\<^sup>*\<^sup>* w0 w" and "db_wf (w_db w0)" and "reminder_limits (w_db w0)"
  shows "db_wf (w_db w) \<and> reminder_limits (w_db w)"
  using assms(1) by (rule program_invariant) (use assms(2,3) ai_change_wf ai_change_limits service_step_consistent in blast)+

lemma program_states_consistent_witness:
  "\<exists>resp w'. serve sample_server DeleteRoute sample_request sample_env (sample_world sample_db) = (resp, w')
     \<and> w_db w' \<noteq> sample_db \<and> db_wf (w_db w') \<and> reminder_limits (w_db w')"
proof -
  obtain w' where del: "DeleteSchedule 1 11 [] sample_env (sample_world sample_db) = (Inr (), w')"
    and "erased_schedules {11} sample_db (w_db w')" using sample_delete by blast
  then have changed: "w_db w' \<noteq> sample_db" by (auto simp: erased_schedules_def sample_defs)
  obtain resp where run: "serve sample_server DeleteRoute sample_request sample_env (sample_world sample_db) = (resp, w')"
    using sample_served[OF del] by blast
  then have "(program_step {sample_server})\<^sup>*\<^sup>* (sample_world sample_db) w'" by (intro r_into_rtranclp program_step.served[OF singletonI])
  with changed run program_states_consistent[OF this] sample_db_wf sample_db_limits show ?thesis by auto
qed

text \<open>
  C1: A completed deletion is final: once the consumer has answered a deletion event with its completion, no sequence of
  requests, with whatever tokens, of messages, of dispatches and of transactions that were
  under way brings back anything of the account.\<close>

theorem completed_deletion_is_final:
  assumes msg: "handleMessage parse now pub ack CleanupDeletedAccount (Some ev) e w0 = (h, w1)"
    and finished: "h \<in> {Consumed (Some (mid, res)), Redeliver (Some (mid, res))}" "dr_Status res = ''completed''"
    and user: "parse (dq_UserID ev) = Some u" and wf: "db_wf (w_db w0)" and later: "(program_step S)\<^sup>*\<^sup>* w1 w"
  shows "user_view u (w_db w) = ([], [], [], [], [], [], [u], [], [], [])"
proof -
  have "CleanupDeletedAccount u e w0 = (Inr (), w1)"
    using msg finished user by (auto simp: handleMessage_def Let_def split: if_splits prod.splits sum.splits)
  then have "db_wf (w_db w1) \<and> account_gone u (w_db w1)" using wf by (rule cleanup_gone)
  with later have "db_wf (w_db w) \<and> account_gone u (w_db w)"
    by (rule program_invariant)
      (use ai_change_wf ai_change_deleted wf_step service_step_gone in \<open>auto simp: account_gone_def\<close>)
  then show ?thesis by (simp add: account_gone_def)
qed

lemma completed_deletion_is_final_witness:
  "\<exists>h w1 resp w2. handleMessage (\<lambda>_. Some 1) 0 True True CleanupDeletedAccount (dl_event sample_deletion) sample_env (sample_world sample_db) = (h, w1)
     \<and> serve sample_server DeleteRoute sample_request sample_env w1 = (resp, w2)
     \<and> user_view 1 (w_db w2) = ([], [], [], [], [], [], [1], [], [], [])"
proof -
  obtain ev where ev: "dl_event sample_deletion = Some ev" "dq_EventID ev \<noteq> []" "dq_RequestID ev \<noteq> []"
    by (simp add: sample_deletion_def)
  obtain w1 where c: "CleanupDeletedAccount 1 sample_env (sample_world sample_db) = (Inr (), w1)"
    using cleanup_sample by blast
  have "json_time_ok 0" by code_simp
  with c ev obtain mid res where run: "handleMessage (\<lambda>_. Some 1) 0 True True CleanupDeletedAccount (Some ev) sample_env (sample_world sample_db)
      = (Consumed (Some (mid, res)), w1)" and "dr_Status res = ''completed''"
    by (simp add: handleMessage_def Let_def)
  obtain resp w2 where sv: "serve sample_server DeleteRoute sample_request sample_env w1 = (resp, w2)" by fastforce
  then have "(program_step {sample_server})\<^sup>*\<^sup>* w1 w2" by (intro r_into_rtranclp program_step.served[OF singletonI])
  with completed_deletion_is_final[OF run _ \<open>dr_Status res = ''completed''\<close>] sample_db_wf run sv ev show ?thesis by auto
qed

end
