(* ===== verification/Observe.thy ===== *)
theory Observe
  imports Gateway
begin

text \<open>
  The table of routes with the counters that every request passes (\<open>router.go\<close>,
  \<open>internal/observability/metrics.go\<close>), and the choice of the trace exporter and sampler from the
  environment (\<open>tracing.go\<close>). The Prometheus and OpenTelemetry libraries are parameters.
\<close>

section \<open>Table of routes\<close>

definition routes :: "(string \<times> string \<times> route) list" where
  "routes =
     [(''GET'', ''/healthz'', HealthRoute),
      (''GET'', ''/readyz'', ReadyRoute),
      (''GET'', ''/status'', StatusRoute),
      (''GET'', ''/internal/reminders/{scheduleID}/validity'', ValidityRoute),
      (''GET'', ''/schedules.ics'', ExportRoute),
      (''POST'', ''/schedules/'', CreateRoute),
      (''POST'', ''/schedules/{id}/clone'', CloneRoute),
      (''GET'', ''/schedules/'', ListRoute),
      (''POST'', ''/schedules/extract'', ExtractRoute),
      (''POST'', ''/schedules/recurrence/preview'', PreviewRoute),
      (''POST'', ''/schedules/bulk-delete'', BulkDeleteRoute),
      (''GET'', ''/schedules/{id}/'', GetRoute),
      (''PATCH'', ''/schedules/{id}/'', UpdateRoute),
      (''DELETE'', ''/schedules/{id}/'', DeleteRoute),
      (''GET'', ''/schedules/{id}/reminders'', ListRemindersRoute),
      (''POST'', ''/schedules/{id}/reminders'', AddReminderRoute),
      (''DELETE'', ''/schedules/{id}/reminders/{reminderId}'', DeleteReminderRoute)]"

text \<open>Every route is registered once, and exactly those below \<open>/schedules\<close> are behind the authentication.\<close>

lemma routes_complete: "r \<in> (snd \<circ> snd) ` set routes"
  by (cases r) (simp_all add: routes_def)

lemma routes_distinct: "distinct (map (snd \<circ> snd) routes)" "distinct (map (\<lambda>(m, p, r). (m, p)) routes)"
  by (simp_all add: routes_def)

lemma routes_protected: "(m, p, r) \<in> set routes \<Longrightarrow> public_route r \<longleftrightarrow> strip_prefix ''/schedules'' p = None"
  by (auto simp: routes_def strip_prefix_def)

section \<open>Request metrics\<close>

text \<open>The labels are method, route and status. Durations are in nanoseconds; the histogram reads them in seconds.\<close>

type_synonym labels = "string \<times> string \<times> string"

record http_metrics =
  hm_requests :: "labels \<Rightarrow> int"
  hm_durations :: "labels \<Rightarrow> duration list"

definition Itoa :: "int \<Rightarrow> string" where
  "Itoa n = (if n < 0 then ''-'' else '''') @ nat_digits (nat \<bar>n\<bar>)"

text \<open>
  \<open>pattern\<close> is the pattern that the router library reports after the request, empty if none matched, and
  \<open>elapsed\<close> the time the handler took.
\<close>

definition HTTPMetrics :: "string \<Rightarrow> string \<Rightarrow> duration \<Rightarrow> handler \<Rightarrow> env \<Rightarrow> world \<times> http_metrics
    \<Rightarrow> http_response \<times> world \<times> http_metrics" where
  "HTTPMetrics meth pattern elapsed h e wm =
     (case h e (fst wm) of (resp, w') \<Rightarrow>
        let route = (if pattern = [] then ''unmatched'' else pattern);
            l = (meth, route, Itoa (h_status resp));
            m = snd wm
        in (resp, w', \<lparr>hm_requests = (hm_requests m)(l := hm_requests m l + 1),
                       hm_durations = (hm_durations m)(l := hm_durations m l @ [elapsed])\<rparr>))"

text \<open>The metrics do not change what is answered or done, and count each request once.\<close>

lemma HTTPMetrics_transparent:
  assumes "HTTPMetrics meth pattern elapsed h e (w, m) = (resp, w', m')"
  shows "h e w = (resp, w')
    \<and> (\<Sum>l \<in> L. hm_requests m' l) = (\<Sum>l \<in> L. hm_requests m l)
        + (if finite L \<and> (meth, if pattern = [] then ''unmatched'' else pattern, Itoa (h_status resp)) \<in> L then 1 else 0)"
proof -
  have sum: "(\<Sum>l \<in> L. (f(k := f k + 1)) l) = (\<Sum>l \<in> L. f l) + (if finite L \<and> k \<in> L then 1 else 0)"
    for f :: "labels \<Rightarrow> int" and k
  proof (cases "finite L \<and> k \<in> L")
    case True
    then have "(\<Sum>l \<in> L. (f(k := f k + 1)) l) = f k + 1 + (\<Sum>l \<in> L - {k}. f l)"
      by (subst sum.remove[of L k]) auto
    with True show ?thesis by (simp add: sum.remove[of L k f])
  next
    case False
    then show ?thesis by (cases "finite L") (auto intro!: sum.cong)
  qed
  show ?thesis using assms unfolding HTTPMetrics_def Let_def by (auto simp: sum split: prod.splits simp del: fun_upd_apply)
qed

section \<open>Tracing\<close>

datatype sampler = AlwaysSample | NeverSample | TraceIDRatioBased rat | ParentBased sampler

text \<open>
  \<open>getenv\<close> is \<open>os.Getenv\<close>, empty for an unset variable. \<open>parse_float\<close> is \<open>strconv.ParseFloat\<close>, with
  \<open>None\<close> for its error and for the values that are no finite numbers: both fail the test of the range.
\<close>

definition serviceName :: "(string \<Rightarrow> string) \<Rightarrow> string" where
  "serviceName getenv = (if getenv ''OTEL_SERVICE_NAME'' \<noteq> [] then getenv ''OTEL_SERVICE_NAME'' else ''core'')"

definition ratio_sampler :: "(string \<Rightarrow> rat option) \<Rightarrow> string \<Rightarrow> (rat \<Rightarrow> sampler) \<Rightarrow> sampler" where
  "ratio_sampler parse_float arg mk =
     (case parse_float arg of
        Some r \<Rightarrow> if 0 \<le> r \<and> r \<le> 1 then mk r else ParentBased AlwaysSample
      | None \<Rightarrow> ParentBased AlwaysSample)"

definition samplerFromEnv :: "(string \<Rightarrow> string) \<Rightarrow> (string \<Rightarrow> rat option) \<Rightarrow> sampler" where
  "samplerFromEnv getenv parse_float =
     (let v = getenv ''OTEL_TRACES_SAMPLER''; arg = getenv ''OTEL_TRACES_SAMPLER_ARG''
      in if v = ''always_off'' then NeverSample
         else if v = ''traceidratio'' then ratio_sampler parse_float arg TraceIDRatioBased
         else if v = ''parentbased_always_off'' then ParentBased NeverSample
         else if v = ''parentbased_traceidratio'' then ratio_sampler parse_float arg (\<lambda>r. ParentBased (TraceIDRatioBased r))
         else if v = ''always_on'' then AlwaysSample
         else ParentBased AlwaysSample)"


datatype tracing = TracingError | NoExport | Export string sampler

text \<open>\<open>exporter\<close> and \<open>resource\<close> say whether creating them succeeds.\<close>

definition SetupTracing :: "(string \<Rightarrow> string) \<Rightarrow> (string \<Rightarrow> rat option) \<Rightarrow> bool \<Rightarrow> bool \<Rightarrow> tracing" where
  "SetupTracing getenv parse_float exporter res =
     (if getenv ''OTEL_TRACES_EXPORTER'' \<noteq> ''otlp'' then NoExport
      else if \<not> exporter then TracingError
      else if \<not> res then TracingError
      else Export (serviceName getenv) (samplerFromEnv getenv parse_float))"

text \<open>A ratio that is used lies between zero and one, whatever the environment says.\<close>

fun ratio_ok :: "sampler \<Rightarrow> bool" where
  "ratio_ok (TraceIDRatioBased r) = (0 \<le> r \<and> r \<le> 1)"
| "ratio_ok (ParentBased s) = ratio_ok s"
| "ratio_ok _ = True"

lemma samplerFromEnv_ratio: "ratio_ok (samplerFromEnv getenv parse_float)"
  by (simp add: samplerFromEnv_def ratio_sampler_def Let_def split: option.split)

lemma SetupTracing_off: "getenv ''OTEL_TRACES_EXPORTER'' \<noteq> ''otlp'' \<Longrightarrow> SetupTracing getenv parse_float x r = NoExport"
  by (simp add: SetupTracing_def)

end
