(* ===== verification/Columns.thy ===== *)
theory Columns
  imports Types
begin

text \<open>
  How values get into and out of columns: the scanners and valuers of the enumerated columns
  (\<open>internal/repo/models.go\<close>) and the conversions of \<open>internal/service/convert.go\<close>. What is written is
  what is read back. The rest of the development has the values themselves in its rows.
\<close>

section \<open>Enumerated columns\<close>

text \<open>What the driver hands to \<open>Scan\<close>: nil, bytes, a string, or a value of another type, named as \<open>%T\<close> does.\<close>

datatype driver_value = DNull | DBytes string | DString string | DOther string

definition type_text :: "driver_value \<Rightarrow> string" where
  "type_text src = (case src of DNull \<Rightarrow> ''<nil>'' | DBytes _ \<Rightarrow> ''[]uint8'' | DString _ \<Rightarrow> ''string'' | DOther t \<Rightarrow> t)"

text \<open>The error, if any, and what the receiver holds afterwards.\<close>

definition Enum_Scan :: "string \<Rightarrow> string \<Rightarrow> driver_value \<Rightarrow> string option \<times> string" where
  "Enum_Scan name e src =
     (case src of
        DBytes s \<Rightarrow> (None, s)
      | DString s \<Rightarrow> (None, s)
      | _ \<Rightarrow> (Some (''unsupported scan type for '' @ name @ '': '' @ type_text src), e))"

record null_enum =
  ne_Value :: string
  ne_Valid :: bool

definition Null_Scan :: "(string \<Rightarrow> driver_value \<Rightarrow> string option \<times> string) \<Rightarrow> null_enum \<Rightarrow> driver_value \<Rightarrow> string option \<times> null_enum" where
  "Null_Scan scan ns src =
     (if src = DNull then (None, \<lparr>ne_Value = [], ne_Valid = False\<rparr>)
      else case scan (ne_Value ns) src of (er, v) \<Rightarrow> (er, \<lparr>ne_Value = v, ne_Valid = True\<rparr>))"

definition Null_Value :: "null_enum \<Rightarrow> driver_value" where
  "Null_Value ns = (if \<not> ne_Valid ns then DNull else DString (ne_Value ns))"

definition AiExtractionsStatus_Scan :: "string \<Rightarrow> driver_value \<Rightarrow> string option \<times> string" where
  "AiExtractionsStatus_Scan = Enum_Scan ''AiExtractionsStatus''"

definition NullAiExtractionsStatus_Scan :: "null_enum \<Rightarrow> driver_value \<Rightarrow> string option \<times> null_enum" where
  "NullAiExtractionsStatus_Scan = Null_Scan AiExtractionsStatus_Scan"

definition NullAiExtractionsStatus_Value :: "null_enum \<Rightarrow> driver_value" where
  "NullAiExtractionsStatus_Value = Null_Value"

definition ScheduleRemindersChannel_Scan :: "string \<Rightarrow> driver_value \<Rightarrow> string option \<times> string" where
  "ScheduleRemindersChannel_Scan = Enum_Scan ''ScheduleRemindersChannel''"

definition NullScheduleRemindersChannel_Scan :: "null_enum \<Rightarrow> driver_value \<Rightarrow> string option \<times> null_enum" where
  "NullScheduleRemindersChannel_Scan = Null_Scan ScheduleRemindersChannel_Scan"

definition NullScheduleRemindersChannel_Value :: "null_enum \<Rightarrow> driver_value" where
  "NullScheduleRemindersChannel_Value = Null_Value"

definition SchedulesSource_Scan :: "string \<Rightarrow> driver_value \<Rightarrow> string option \<times> string" where
  "SchedulesSource_Scan = Enum_Scan ''SchedulesSource''"

definition NullSchedulesSource_Scan :: "null_enum \<Rightarrow> driver_value \<Rightarrow> string option \<times> null_enum" where
  "NullSchedulesSource_Scan = Null_Scan SchedulesSource_Scan"

definition NullSchedulesSource_Value :: "null_enum \<Rightarrow> driver_value" where
  "NullSchedulesSource_Value = Null_Value"

definition SchedulesStatus_Scan :: "string \<Rightarrow> driver_value \<Rightarrow> string option \<times> string" where
  "SchedulesStatus_Scan = Enum_Scan ''SchedulesStatus''"

definition NullSchedulesStatus_Scan :: "null_enum \<Rightarrow> driver_value \<Rightarrow> string option \<times> null_enum" where
  "NullSchedulesStatus_Scan = Null_Scan SchedulesStatus_Scan"

definition NullSchedulesStatus_Value :: "null_enum \<Rightarrow> driver_value" where
  "NullSchedulesStatus_Value = Null_Value"

lemmas scan_defs = AiExtractionsStatus_Scan_def NullAiExtractionsStatus_Scan_def NullAiExtractionsStatus_Value_def
  ScheduleRemindersChannel_Scan_def NullScheduleRemindersChannel_Scan_def NullScheduleRemindersChannel_Value_def
  SchedulesSource_Scan_def NullSchedulesSource_Scan_def NullSchedulesSource_Value_def
  SchedulesStatus_Scan_def NullSchedulesStatus_Scan_def NullSchedulesStatus_Value_def

section \<open>Conversions\<close>

record NullString =
  ns_String :: string
  ns_Valid :: bool

record NullTime =
  nt_Time :: time
  nt_Valid :: bool

text \<open>The \<open>k\<close> bytes of a number, the most significant one first, and the number of a list of bytes.\<close>

fun bytes_of :: "nat \<Rightarrow> nat \<Rightarrow> 8 word list" where
  "bytes_of 0 n = []"
| "bytes_of (Suc k) n = bytes_of k (n div 256) @ [word_of_nat (n mod 256)]"

definition number_of_bytes :: "8 word list \<Rightarrow> nat" where
  "number_of_bytes = foldl (\<lambda>n b. n * 256 + unat b) 0"

definition idBytes :: "uuid \<Rightarrow> 8 word list" where
  "idBytes u = bytes_of 16 (unat u)"

text \<open>\<open>uuid.FromBytes\<close> accepts exactly sixteen bytes; \<open>None\<close> is its error.\<close>

definition toUUID :: "8 word list \<Rightarrow> uuid option" where
  "toUUID bs = (if length bs = 16 then Some (word_of_nat (number_of_bytes bs)) else None)"

definition nullString :: "string option \<Rightarrow> NullString" where
  "nullString s = (case s of None \<Rightarrow> \<lparr>ns_String = [], ns_Valid = False\<rparr> | Some v \<Rightarrow> \<lparr>ns_String = v, ns_Valid = True\<rparr>)"

definition strPtr :: "NullString \<Rightarrow> string option" where
  "strPtr ns = (if \<not> ns_Valid ns then None else Some (ns_String ns))"

text \<open>Instants have no zone; the zero value of \<open>time.Time\<close> is in the field of an invalid one.\<close>

definition nullTime :: "time \<Rightarrow> time option \<Rightarrow> NullTime" where
  "nullTime zero t = (case t of None \<Rightarrow> \<lparr>nt_Time = zero, nt_Valid = False\<rparr> | Some v \<Rightarrow> \<lparr>nt_Time = v, nt_Valid = True\<rparr>)"

definition timePtr :: "NullTime \<Rightarrow> time option" where
  "timePtr nt = (if \<not> nt_Valid nt then None else Some (nt_Time nt))"

text \<open>Bytes as a Go string, and back.\<close>

definition text_of_bytes :: "8 word list \<Rightarrow> string" where
  "text_of_bytes = map (\<lambda>b. char_of (unat b))"

definition bytes_of_text :: "string \<Rightarrow> 8 word list" where
  "bytes_of_text = map (\<lambda>c. word_of_nat (of_char c))"

definition extractionIDToNullString :: "uuid option \<Rightarrow> NullString" where
  "extractionIDToNullString i =
     (case i of None \<Rightarrow> \<lparr>ns_String = [], ns_Valid = False\<rparr> | Some u \<Rightarrow> \<lparr>ns_String = text_of_bytes (idBytes u), ns_Valid = True\<rparr>)"

text \<open>\<open>None\<close> is the error of \<open>uuid.FromBytes\<close>.\<close>

definition nullStringToExtractionID :: "NullString \<Rightarrow> uuid option option" where
  "nullStringToExtractionID ns =
     (if \<not> ns_Valid ns then Some None else map_option Some (toUUID (bytes_of_text (ns_String ns))))"

section \<open>Round trips\<close>

lemma length_bytes_of [simp]: "length (bytes_of k n) = k"
  by (induction k n rule: bytes_of.induct) simp_all

lemma number_of_bytes_of: "number_of_bytes (bytes_of k n) = n mod 256 ^ k"
proof (induction k n rule: bytes_of.induct)
  case (2 k n)
  then show ?case
    by (simp add: number_of_bytes_def unat_of_nat take_bit_eq_mod mod_mult2_eq mult.commute)
qed (simp add: number_of_bytes_def)

lemma bytes_of_number: "bytes_of (length bs) (number_of_bytes bs) = bs"
proof (induction bs rule: rev_induct)
  case (snoc b bs)
  have "unat b < 256" using unsigned_less[of b, where ?'a = nat] by simp
  with snoc show ?case by (simp add: number_of_bytes_def)
qed simp

lemma number_of_bytes_less: "number_of_bytes bs < 256 ^ length bs"
proof (induction bs rule: rev_induct)
  case (snoc b bs)
  have "unat b < 256" using unsigned_less[of b, where ?'a = nat] by simp
  with snoc show ?case by (simp add: number_of_bytes_def)
qed (simp add: number_of_bytes_def)

lemma toUUID_idBytes: "toUUID (idBytes u) = Some u"
proof -
  have "unat u < 256 ^ 16" using unsigned_less[of u, where ?'a = nat] by simp
  then show ?thesis by (simp add: toUUID_def idBytes_def number_of_bytes_of)
qed

lemma idBytes_toUUID: "toUUID bs = Some u \<Longrightarrow> idBytes u = bs"
  using number_of_bytes_less[of bs] bytes_of_number[of bs]
  by (auto simp: toUUID_def idBytes_def unat_of_nat split: if_splits)

lemma bytes_of_text_of_bytes: "bytes_of_text (text_of_bytes bs) = bs"
proof -
  have "unat (b :: 8 word) mod 256 = unat b" for b using unsigned_less[of b, where ?'a = nat] by simp
  then show ?thesis by (simp add: bytes_of_text_def text_of_bytes_def comp_def)
qed

lemma extraction_id_roundtrip: "nullStringToExtractionID (extractionIDToNullString i) = Some i"
  by (cases i) (simp_all add: nullStringToExtractionID_def extractionIDToNullString_def bytes_of_text_of_bytes toUUID_idBytes)

lemma nullable_roundtrips: "strPtr (nullString s) = s" "timePtr (nullTime zero t) = t"
  by (cases s; cases t; simp add: strPtr_def nullString_def timePtr_def nullTime_def)+

text \<open>A scanner never looks at the value: text outside the enumeration is accepted, and anything but text is refused.\<close>

lemma Null_Scan_Value:
  "Null_Scan (Enum_Scan name) old (Null_Value ns) = (None, if ne_Valid ns then ns else \<lparr>ne_Value = [], ne_Valid = False\<rparr>)"
  by (simp add: Null_Scan_def Null_Value_def Enum_Scan_def)

lemma Enum_Scan_error: "fst (Enum_Scan name e src) \<noteq> None \<longleftrightarrow> src = DNull \<or> (\<exists>t. src = DOther t)"
  by (cases src) (simp_all add: Enum_Scan_def)

end
