(* ===== verification/Process.thy ===== *)
theory Process
  imports Program Observe Columns
begin

text \<open>
  The process: its configuration (\<open>internal/config/config.go\<close>), the database it opens
  (\<open>internal/db\<close>), the connection of the publisher (\<open>events/stream.go\<close>, \<open>publisher.go\<close> and \<open>setupEventPublisher\<close>),
  the construction of the authentication, and \<open>main\<close> of the server and of the command that clears extractions. What the
  libraries answer is a parameter of each operation; what an operation does with the answers is modelled.
\<close>

section \<open>Configuration\<close>

record Config =
  cfg_HTTPPort :: string
  cfg_DBHost :: string
  cfg_DBPort :: string
  cfg_DBUser :: string
  cfg_DBPassword :: string
  cfg_DBName :: string
  cfg_DBTLS :: bool
  cfg_JWKSURL :: string
  cfg_AuthIntrospectURL :: string
  cfg_AuthAccountStatusURL :: string
  cfg_NotifyInternalBaseURL :: string
  cfg_InternalServiceToken :: string
  cfg_JWTIssuer :: string
  cfg_JWTAudience :: string
  cfg_NATSURL :: string
  cfg_GeminiBaseURL :: string
  cfg_GeminiModel :: string
  cfg_GeminiAPIKey :: string

text \<open>
  The tags of the fields: name of the variable, its default and whether it is required. \<open>resolve\<close> is the
  library's reading of one variable under its tags, \<open>None\<close> for an error; \<open>parse_bool\<close> its reading of a flag.
\<close>

definition config_vars :: "(string \<times> string option \<times> bool) list" where
  "config_vars =
     [(''HTTP_PORT'', Some ''8080'', False),
      (''DB_HOST'', None, True),
      (''DB_PORT'', Some ''3306'', False),
      (''DB_USER'', None, True),
      (''DB_PASSWORD'', None, True),
      (''DB_NAME'', None, True),
      (''DB_TLS'', Some ''true'', False),
      (''JWKS_URL'', Some ''http://auth.auth.svc.cluster.local:3000/.well-known/jwks.json'', False),
      (''AUTH_INTROSPECT_URL'', Some ''http://auth.auth.svc.cluster.local:3000/introspect'', False),
      (''AUTH_ACCOUNT_STATUS_URL'', Some ''http://auth.auth.svc.cluster.local:3000/internal/accounts'', False),
      (''NOTIFY_INTERNAL_BASE_URL'', Some ''http://notify.notify.svc.cluster.local:8080'', False),
      (''INTERNAL_SERVICE_TOKEN'', None, False),
      (''JWT_ISSUER'', None, True),
      (''JWT_AUDIENCE'', Some ''core'', False),
      (''NATS_URL'', Some ''nats://nats.data.svc.cluster.local:4222'', False),
      (''GEMINI_BASE_URL'', Some ''https://generativelanguage.googleapis.com'', False),
      (''GEMINI_MODEL'', Some ''gemini-3.5-flash-lite'', False),
      (''GEMINI_API_KEY'', None, False)]"

definition Load :: "(string \<Rightarrow> string option \<Rightarrow> bool \<Rightarrow> string option) \<Rightarrow> (string \<Rightarrow> bool option) \<Rightarrow> Config option" where
  "Load resolve parse_bool =
     (let values = map (\<lambda>(name, default, required). (name, resolve name default required)) config_vars;
          get = (\<lambda>name. case map_of values name of Some (Some v) \<Rightarrow> v | _ \<Rightarrow> [])
      in if (\<exists>x \<in> set values. snd x = None) then None
         else case parse_bool (get ''DB_TLS'') of
             None \<Rightarrow> None
           | Some tls \<Rightarrow> Some
               \<lparr>cfg_HTTPPort = get ''HTTP_PORT'', cfg_DBHost = get ''DB_HOST'', cfg_DBPort = get ''DB_PORT'',
                cfg_DBUser = get ''DB_USER'', cfg_DBPassword = get ''DB_PASSWORD'', cfg_DBName = get ''DB_NAME'', cfg_DBTLS = tls,
                cfg_JWKSURL = get ''JWKS_URL'', cfg_AuthIntrospectURL = get ''AUTH_INTROSPECT_URL'',
                cfg_AuthAccountStatusURL = get ''AUTH_ACCOUNT_STATUS_URL'',
                cfg_NotifyInternalBaseURL = get ''NOTIFY_INTERNAL_BASE_URL'',
                cfg_InternalServiceToken = get ''INTERNAL_SERVICE_TOKEN'', cfg_JWTIssuer = get ''JWT_ISSUER'',
                cfg_JWTAudience = get ''JWT_AUDIENCE'', cfg_NATSURL = get ''NATS_URL'', cfg_GeminiBaseURL = get ''GEMINI_BASE_URL'',
                cfg_GeminiModel = get ''GEMINI_MODEL'', cfg_GeminiAPIKey = get ''GEMINI_API_KEY''\<rparr>)"

section \<open>Database\<close>

definition dsn :: "Config \<Rightarrow> bool \<Rightarrow> string" where
  "dsn cfg multiStatements =
     (let flag = (\<lambda>b. if b then ''true'' else ''false'')
      in cfg_DBUser cfg @ '':'' @ cfg_DBPassword cfg @ ''@tcp('' @ cfg_DBHost cfg @ '':'' @ cfg_DBPort cfg @ '')/'' @ cfg_DBName cfg
         @ ''?parseTime=true&loc=UTC&tls='' @ (if cfg_DBTLS cfg then ''skip-verify'' else ''false'')
         @ ''&multiStatements='' @ flag multiStatements)"

record pool =
  pl_DSN :: string
  pl_MaxOpenConns :: nat
  pl_MaxIdleConns :: nat
  pl_ConnMaxLifetime :: duration

text \<open>\<open>opens\<close> and \<open>pings\<close> say whether the driver accepts the name and the server answers within five seconds.\<close>

definition connect :: "bool \<Rightarrow> bool \<Rightarrow> Config \<Rightarrow> bool \<Rightarrow> string + pool" where
  "connect opens pings cfg multiStatements =
     (if \<not> opens then Inl ''open db''
      else if \<not> pings then Inl ''ping db''
      else Inr \<lparr>pl_DSN = dsn cfg multiStatements, pl_MaxOpenConns = 10, pl_MaxIdleConns = 5, pl_ConnMaxLifetime = 5 * minute\<rparr>)"

definition db_Connect :: "bool \<Rightarrow> bool \<Rightarrow> Config \<Rightarrow> string + pool" where
  "db_Connect opens pings cfg = connect opens pings cfg False"

datatype up_result = UpDone | ErrNoChange | UpError

record migration =
  mg_opens :: bool
  mg_pings :: bool
  mg_source :: bool
  mg_driver :: bool
  mg_migrator :: bool
  mg_up :: up_result

text \<open>What the migrations do to existing rows is not modelled: the tables of the model are those of the last version.\<close>

definition MigrateUp :: "migration \<Rightarrow> Config \<Rightarrow> env \<Rightarrow> world \<Rightarrow> string option \<times> world" where
  "MigrateUp mg cfg e w =
     (case connect (mg_opens mg) (mg_pings mg) cfg True of
        Inl er \<Rightarrow> (Some er, w)
      | Inr _ \<Rightarrow>
          if \<not> mg_source mg then (Some ''open embedded migrations'', w)
          else if \<not> mg_driver mg then (Some ''configure migration database'', w)
          else if \<not> mg_migrator mg then (Some ''create migrator'', w)
          else if mg_up mg = UpError then (Some ''apply migrations'', w)
          else (case CheckReady e w of (Inl _, w') \<Rightarrow> (Some ''check ready'', w') | (Inr _, w') \<Rightarrow> (None, w')))"

section \<open>Publisher\<close>

record StreamConfig =
  sc_Name :: string
  sc_Subjects :: "string list"
  sc_Replicas :: nat
  sc_MaxAge :: duration
  sc_MaxBytes :: int

definition schedules_stream :: StreamConfig where
  "schedules_stream = \<lparr>sc_Name = ''APP_SCHEDULES'',
     sc_Subjects = [SubjectScheduleCreated, SubjectScheduleUpdated, SubjectScheduleDeleted],
     sc_Replicas = 1, sc_MaxAge = 7 * 24 * 60 * minute, sc_MaxBytes = 2 ^ 30\<rparr>"

text \<open>
  One round of the loop: which calls of the client succeed. \<open>events_Connect\<close> is \<open>Connect\<close>: whether it returns a
  connection, and how many connections it opened and closed on the way.
\<close>

record round =
  rd_Dial :: bool
  rd_JetStream :: bool
  rd_Stream :: bool

definition events_Connect :: "round \<Rightarrow> bool \<times> nat \<times> nat" where
  "events_Connect rd =
     (if \<not> rd_Dial rd then (False, 0, 0)
      else if \<not> rd_JetStream rd then (False, 1, 1)
      else (True, 1, 0))"

text \<open>
  What the loop does, in order: \<open>SetJetStream True\<close> hands the connection to the publisher,
  \<open>SetJetStream False\<close> takes it back.
\<close>

datatype publisher_event = OpenConn | CloseConn | EnsureStream StreamConfig bool | SetJetStream bool | WaitRetry

text \<open>The rounds until the context is cancelled; the round that sets the connection ends with the context.\<close>

fun setupEventPublisher :: "round list \<Rightarrow> publisher_event list" where
  "setupEventPublisher [] = []"
| "setupEventPublisher (rd # rds) =
     (case events_Connect rd of (ok, up, down) \<Rightarrow>
        replicate up OpenConn @ replicate down CloseConn @
        (if ok then
           EnsureStream schedules_stream (rd_Stream rd) #
           (if rd_Stream rd then [SetJetStream True, SetJetStream False, CloseConn]
            else [CloseConn, WaitRetry] @ setupEventPublisher rds)
         else WaitRetry # setupEventPublisher rds))"

text \<open>
  The number of open connections, whether the stream is declared on the last one, and whether the publisher
  holds it: at every moment of a run.
\<close>

fun publisher_step :: "publisher_event \<Rightarrow> int \<times> bool \<times> bool \<Rightarrow> int \<times> bool \<times> bool" where
  "publisher_step OpenConn (n, s, j) = (n + 1, False, j)"
| "publisher_step CloseConn (n, s, j) = (n - 1, False, j)"
| "publisher_step (EnsureStream c ok) (n, s, j) = (n, ok, j)"
| "publisher_step (SetJetStream b) (n, s, j) = (n, s, b)"
| "publisher_step WaitRetry (n, s, j) = (n, s, j)"

fun moments :: "int \<times> bool \<times> bool \<Rightarrow> publisher_event list \<Rightarrow> (int \<times> bool \<times> bool) list" where
  "moments st [] = [st]"
| "moments st (ev # evs) = st # moments (publisher_step ev st) evs"

text \<open>At most one connection is open, and the publisher holds one only while it is open and has the stream.\<close>

definition publisher_ok :: "int \<times> bool \<times> bool \<Rightarrow> bool" where
  "publisher_ok st = (case st of (n, s, j) \<Rightarrow> (n = 0 \<or> n = 1) \<and> (j \<longrightarrow> n = 1 \<and> s))"

lemma setupEventPublisher_moments:
  "list_all publisher_ok (moments (0, s, False) (setupEventPublisher rds))
   \<and> (case last (moments (0, s, False) (setupEventPublisher rds)) of (n, t, j) \<Rightarrow> n = 0 \<and> \<not> j)"
proof (induction rds arbitrary: s)
  case (Cons rd rds)
  have ne: "moments st evs \<noteq> []" for st evs by (cases evs) simp_all
  show ?case using Cons.IH[of s] Cons.IH[of False]
    by (simp add: events_Connect_def publisher_ok_def ne)
qed (simp add: publisher_ok_def)

text \<open>The publisher gets its stream as soon as one round succeeds.\<close>

lemma setupEventPublisher_connects:
  "SetJetStream True \<in> set (setupEventPublisher rds) \<longleftrightarrow> (\<exists>rd \<in> set rds. rd_Dial rd \<and> rd_JetStream rd \<and> rd_Stream rd)"
  by (induction rds) (auto simp: events_Connect_def)

text \<open>
  A publisher holds a stream or none; the stream has a connection or none. \<open>link_up\<close> is what the client says
  of the connection. There may be no publisher at all.
\<close>

type_synonym publisher = "bool option"

definition Publisher_SetJetStream :: "publisher \<Rightarrow> bool option \<Rightarrow> publisher" where
  "Publisher_SetJetStream p js = js"

definition Connected :: "publisher option \<Rightarrow> bool \<Rightarrow> bool" where
  "Connected p link_up =
     (case p of
        None \<Rightarrow> False
      | Some None \<Rightarrow> False
      | Some (Some conn) \<Rightarrow> conn \<and> link_up)"

text \<open>The headers of a message, in which the case of a key matters.\<close>

type_synonym nats_header = "(string, string list) map"

definition natsHeaderCarrier_Get :: "nats_header \<Rightarrow> string \<Rightarrow> string" where
  "natsHeaderCarrier_Get c key = (case c key of Some (v # _) \<Rightarrow> v | _ \<Rightarrow> [])"

definition natsHeaderCarrier_Set :: "nats_header \<Rightarrow> string \<Rightarrow> string \<Rightarrow> nats_header" where
  "natsHeaderCarrier_Set c key v = c(key \<mapsto> [v])"

lemma natsHeaderCarrier_Get_Set:
  "natsHeaderCarrier_Get (natsHeaderCarrier_Set c key v) k = (if k = key then v else natsHeaderCarrier_Get c k)"
  by (simp add: natsHeaderCarrier_Get_def natsHeaderCarrier_Set_def)

text \<open>The time of the database, or that of the process if the query fails.\<close>

definition Service_occurredAt :: "time \<Rightarrow> time tx" where
  "Service_occurredAt process_now = rescue db_now (\<lambda>_. ret process_now)"

lemma occurredAt_total: "\<exists>t w'. Service_occurredAt now e w = (Inr t, w') \<and> w_db w' = w_db w"
  by (auto simp: Service_occurredAt_def rescue_def db_now_def sql_def ret_def Let_def)

section \<open>Direct publishing\<close>

text \<open>
  The publishing of an event that is not serialised yet: if the publisher has no connection or the event has no JSON
  text, nothing is sent, and the failure is counted.
\<close>

definition publish :: "string \<Rightarrow> string \<Rightarrow> time \<Rightarrow> payload \<Rightarrow> publish_error option tx" where
  "publish subject scheduleID occurredAt data = (\<lambda>e w.
     if publish_at e (w_pubs w) = NotConnected \<or> \<not> json_payload_ok data
     then (Inr (Some PublishError), w\<lparr>w_pubs := Suc (w_pubs w),
        w_publish_failed := (w_publish_failed w)(subject := w_publish_failed w subject + 1)\<rparr>)
     else publishData subject scheduleID occurredAt data [] e w)"

definition PublishScheduleCreated :: "ScheduleEvent \<Rightarrow> publish_error option tx" where
  "PublishScheduleCreated evt = publish SubjectScheduleCreated (ev_ScheduleID evt) (ev_OccurredAt evt) (PScheduleEvent evt)"

definition PublishScheduleUpdated :: "ScheduleEvent \<Rightarrow> publish_error option tx" where
  "PublishScheduleUpdated evt = publish SubjectScheduleUpdated (ev_ScheduleID evt) (ev_OccurredAt evt) (PScheduleEvent evt)"

definition PublishScheduleDeleted :: "ScheduleDeletedEvent \<Rightarrow> publish_error option tx" where
  "PublishScheduleDeleted evt = publish SubjectScheduleDeleted (dev_ScheduleID evt) (dev_OccurredAt evt) (PDeletedEvent evt)"

definition PublishSerialized :: "string \<Rightarrow> string \<Rightarrow> time \<Rightarrow> payload \<Rightarrow> publish_error option tx" where
  "PublishSerialized subject scheduleID occurredAt data = publishData subject scheduleID occurredAt data []"

definition PublishSerializedWithHeaders :: "string \<Rightarrow> string \<Rightarrow> time \<Rightarrow> payload \<Rightarrow> (string \<times> string) list \<Rightarrow> publish_error option tx" where
  "PublishSerializedWithHeaders = publishData"

lemma publish_serialized:
  "publish_at e (w_pubs w) \<noteq> NotConnected \<Longrightarrow> json_payload_ok d \<Longrightarrow> publish s i t d e w = PublishSerialized s i t d e w"
  by (simp add: publish_def PublishSerialized_def)

section \<open>Wiring\<close>

text \<open>
  \<open>url_parse\<close> is \<open>url.Parse\<close> with the scheme and the host of its result, \<open>register\<close> whether the key cache accepts
  the address of the key set.
\<close>

definition NewJWTAuth :: "(string \<Rightarrow> (string \<times> string) option) \<Rightarrow> (string \<Rightarrow> bool) \<Rightarrow> string \<Rightarrow> string \<Rightarrow> string \<Rightarrow> string
    \<Rightarrow> 'k jwt \<Rightarrow> string + 'k jwt" where
  "NewJWTAuth url_parse register jwksURL introspectURL issuer audience outside =
     (case url_parse introspectURL of
        None \<Rightarrow> Inl ''invalid auth introspection URL''
      | Some (scheme, host) \<Rightarrow>
          if scheme \<noteq> ''http'' \<and> scheme \<noteq> ''https'' \<or> host = [] then Inl ''invalid auth introspection URL''
          else if \<not> register jwksURL then Inl ''register jwks''
          else Inr (outside\<lparr>ja_issuer := issuer, ja_audience := audience\<rparr>))"

record InternalServiceConfig =
  is_Token :: string
  is_AuthAccountStatusURL :: string
  is_NotifyInternalBaseURL :: string

definition NewHandlerWithInternal :: "api \<Rightarrow> InternalServiceConfig \<Rightarrow> api" where
  "NewHandlerWithInternal outside cfg = outside\<lparr>a_internalToken := is_Token cfg, a_statusURL := is_AuthAccountStatusURL cfg,
     a_notifyURL := is_NotifyInternalBaseURL cfg\<rparr>"

definition NewHandler :: "api \<Rightarrow> api" where
  "NewHandler outside = NewHandlerWithInternal outside
     \<lparr>is_Token = [], is_AuthAccountStatusURL = [], is_NotifyInternalBaseURL = []\<rparr>"

definition ai_New :: "string \<Rightarrow> string \<Rightarrow> string \<Rightarrow> gemini \<Rightarrow> gemini" where
  "ai_New baseURL model defaultKey outside = outside\<lparr>g_baseURL := baseURL, g_model := model, g_defaultKey := defaultKey\<rparr>"

text \<open>
  The server of a configuration: \<open>outside\<close> supplies what the libraries and the other services answer to the
  request at hand, everything else comes from the configuration.
\<close>

definition wire :: "Config \<Rightarrow> string \<Rightarrow> 'k jwt \<Rightarrow> 'k server \<Rightarrow> 'k server" where
  "wire cfg origins auth outside = outside
     \<lparr>sv_api := NewHandlerWithInternal (sv_api outside)
        \<lparr>is_Token = cfg_InternalServiceToken cfg, is_AuthAccountStatusURL = cfg_AuthAccountStatusURL cfg,
         is_NotifyInternalBaseURL = cfg_NotifyInternalBaseURL cfg\<rparr>,
      sv_jwt := auth,
      sv_extraction := (sv_extraction outside)\<lparr>xe_gemini := ai_New (cfg_GeminiBaseURL cfg) (cfg_GeminiModel cfg)
        (cfg_GeminiAPIKey cfg) (xe_gemini (sv_extraction outside))\<rparr>,
      sv_origins := origins\<rparr>"

section \<open>The server process\<close>

datatype server_end = ServerFailed | Signalled

record 'k boot =
  bt_resolve :: "string \<Rightarrow> string option \<Rightarrow> bool \<Rightarrow> string option"
  bt_parse_bool :: "string \<Rightarrow> bool option"
  bt_migration :: migration
  bt_getenv :: "string \<Rightarrow> string"
  bt_parse_float :: "string \<Rightarrow> rat option"
  bt_exporter :: bool
  bt_resource :: bool
  bt_opens :: bool
  bt_pings :: bool
  bt_url_parse :: "string \<Rightarrow> (string \<times> string) option"
  bt_register :: "string \<Rightarrow> bool"
  bt_outside :: "'k server"
  bt_end :: server_end

text \<open>
  What \<open>main\<close> does, in order. \<open>Exit 1\<close> is \<open>log.Fatal\<close>, which ends the process without running the
  deferred calls; \<open>Exit 0\<close> is the return from \<open>main\<close> after them.
\<close>

datatype 'k action = LoadConfig | MigrateDB | TracingUp | ConnectDB | ReadyDB | AuthUp | StartPublisher | StartOutbox
  | StartConsumer | ListenAndServe string "'k server" | ShutdownServer | CloseDB | ShutdownTracing | Exit nat

definition server_main :: "'k boot \<Rightarrow> env \<Rightarrow> world \<Rightarrow> 'k action list \<times> world" where
  "server_main b e w =
     (case Load (bt_resolve b) (bt_parse_bool b) of
        None \<Rightarrow> ([LoadConfig, Exit 1], w)
      | Some cfg \<Rightarrow>
     (case MigrateUp (bt_migration b) cfg e w of
        (Some _, w1) \<Rightarrow> ([LoadConfig, MigrateDB, Exit 1], w1)
      | (None, w1) \<Rightarrow>
     if SetupTracing (bt_getenv b) (bt_parse_float b) (bt_exporter b) (bt_resource b) = TracingError
     then ([LoadConfig, MigrateDB, TracingUp, Exit 1], w1)
     else (case db_Connect (bt_opens b) (bt_pings b) cfg of
        Inl _ \<Rightarrow> ([LoadConfig, MigrateDB, TracingUp, ConnectDB, Exit 1], w1)
      | Inr _ \<Rightarrow>
     (case CheckReady e w1 of
        (Inl _, w2) \<Rightarrow> ([LoadConfig, MigrateDB, TracingUp, ConnectDB, ReadyDB, Exit 1], w2)
      | (Inr _, w2) \<Rightarrow>
     (case NewJWTAuth (bt_url_parse b) (bt_register b) (cfg_JWKSURL cfg) (cfg_AuthIntrospectURL cfg) (cfg_JWTIssuer cfg)
         (cfg_JWTAudience cfg) (sv_jwt (bt_outside b)) of
        Inl _ \<Rightarrow> ([LoadConfig, MigrateDB, TracingUp, ConnectDB, ReadyDB, AuthUp, Exit 1], w2)
      | Inr auth \<Rightarrow>
          ([LoadConfig, MigrateDB, TracingUp, ConnectDB, ReadyDB, AuthUp, StartPublisher, StartOutbox, StartConsumer,
            ListenAndServe ('':'' @ cfg_HTTPPort cfg) (wire cfg (bt_getenv b ''CORS_ALLOWED_ORIGINS'') auth (bt_outside b))]
           @ (case bt_end b of
                ServerFailed \<Rightarrow> [Exit 1]
              | Signalled \<Rightarrow> [ShutdownServer, CloseDB, ShutdownTracing, Exit 0]), w2))))))"

section \<open>Starting and stopping\<close>

text \<open>
  The server listens only after everything before has succeeded, on the port and with the secrets of the
  configuration; it stops in order after a signal, and in every other case it ends with status 1 and without
  the deferred calls. The tables are not changed by starting.
\<close>

definition boot_actions :: "'k action list" where
  "boot_actions = [LoadConfig, MigrateDB, TracingUp, ConnectDB, ReadyDB, AuthUp]"

lemma MigrateUp_ready: "MigrateUp mg cfg e w = (None, w') \<Longrightarrow> CheckReady e w = (Inr (), w') \<and> w_db w' = w_db w"
  using stepsD[OF same_CheckReady, of e w] by (auto simp: MigrateUp_def split: sum.splits prod.splits if_splits)

lemma MigrateUp_db: "MigrateUp mg cfg e w = (r, w') \<Longrightarrow> w_db w' = w_db w"
  using stepsD[OF same_CheckReady, of e w] by (auto simp: MigrateUp_def split: sum.splits prod.splits if_splits)

lemma server_main_cases:
  assumes run: "server_main b e w = (acts, w')"
  obtains (fatal) k where "acts = take k boot_actions @ [Exit 1]" "0 < k" "k \<le> 6" "w_db w' = w_db w"
  | (listens) cfg w1 auth where "Load (bt_resolve b) (bt_parse_bool b) = Some cfg"
      and "CheckReady e w = (Inr (), w1)" and "CheckReady e w1 = (Inr (), w')" and "w_db w' = w_db w"
      and "NewJWTAuth (bt_url_parse b) (bt_register b) (cfg_JWKSURL cfg) (cfg_AuthIntrospectURL cfg) (cfg_JWTIssuer cfg)
         (cfg_JWTAudience cfg) (sv_jwt (bt_outside b)) = Inr auth"
      and "acts = boot_actions @ [StartPublisher, StartOutbox, StartConsumer,
           ListenAndServe ('':'' @ cfg_HTTPPort cfg) (wire cfg (bt_getenv b ''CORS_ALLOWED_ORIGINS'') auth (bt_outside b))]
         @ (if bt_end b = ServerFailed then [Exit 1] else [ShutdownServer, CloseDB, ShutdownTracing, Exit 0])"
proof -
  note cut = fatal[of 1] fatal[of 2] fatal[of 3] fatal[of 4] fatal[of 5] fatal[of 6]
  note run = run[unfolded server_main_def]
  show thesis
  proof (cases "Load (bt_resolve b) (bt_parse_bool b)")
    case None
    with run cut(1) show ?thesis by (simp add: boot_actions_def)
  next
    case (Some cfg)
    obtain r w1 where m: "MigrateUp (bt_migration b) cfg e w = (r, w1)" by fastforce
    note db1 = MigrateUp_db[OF m]
    show ?thesis
    proof (cases r)
      case (Some er)
      with run cut(2) m db1 \<open>Load _ _ = _\<close> show ?thesis by (simp add: boot_actions_def numeral_2_eq_2)
    next
      case None
      obtain r2 w2 where c: "CheckReady e w1 = (r2, w2)" by fastforce
      note db2 = stepsD[OF same_CheckReady c]
      from m None have ready: "CheckReady e w = (Inr (), w1)" using MigrateUp_ready by blast
      show ?thesis
        using run m None \<open>Load _ _ = _\<close> c db1 db2 cut(3-6) listens[OF _ ready]
        by (auto simp: boot_actions_def eval_nat_numeral split: if_splits sum.splits server_end.splits)
    qed
  qed
qed

text \<open>A process that listens serves with the issuer, the audience and the secret of its configuration.\<close>

lemma server_main_wired:
  assumes run: "server_main b e w = (acts, w')" and listens: "ListenAndServe addr s \<in> set acts"
  shows "\<exists>cfg. Load (bt_resolve b) (bt_parse_bool b) = Some cfg \<and> addr = '':'' @ cfg_HTTPPort cfg
    \<and> ja_issuer (sv_jwt s) = cfg_JWTIssuer cfg \<and> ja_audience (sv_jwt s) = cfg_JWTAudience cfg
    \<and> a_internalToken (sv_api s) = cfg_InternalServiceToken cfg \<and> sv_origins s = bt_getenv b ''CORS_ALLOWED_ORIGINS''"
  using run
proof (cases rule: server_main_cases)
  case (fatal k)
  then show ?thesis using listens in_set_takeD[of _ k boot_actions] by (auto simp: boot_actions_def dest!: in_set_takeD)
next
  case (listens cfg w1 auth)
  then show ?thesis using assms(2)
    by (intro exI[of _ cfg]) (auto simp: boot_actions_def wire_def NewHandlerWithInternal_def NewJWTAuth_def split: option.splits if_splits)
qed

section \<open>The clearing command\<close>

datatype cleanup_output = CleanupFatal | DryRun nat string | Cleared nat string

text \<open>
  \<open>before_arg\<close> and \<open>do_apply\<close> are the flags, \<open>rest\<close> the arguments after them. The instant is printed as it was
  understood, in UTC.
\<close>

definition cleanup_main :: "string \<Rightarrow> bool \<Rightarrow> string list \<Rightarrow> Config option \<Rightarrow> bool \<Rightarrow> bool \<Rightarrow> env \<Rightarrow> world \<Rightarrow> cleanup_output \<times> world" where
  "cleanup_main before_arg do_apply rest cfg opens pings e w =
     (if before_arg = [] \<or> rest \<noteq> [] then (CleanupFatal, w)
      else case time_Parse before_arg of
          None \<Rightarrow> (CleanupFatal, w)
        | Some before \<Rightarrow>
            (case cfg of
               None \<Rightarrow> (CleanupFatal, w)
             | Some c \<Rightarrow>
                 (case db_Connect opens pings c of
                    Inl _ \<Rightarrow> (CleanupFatal, w)
                  | Inr _ \<Rightarrow>
                      (case cleanup_extractions before do_apply e w of
                         (Inl _, w') \<Rightarrow> (CleanupFatal, w')
                       | (Inr n, w') \<Rightarrow> ((if do_apply then Cleared n else DryRun n) (format_rfc3339 before), w')))))"

text \<open>
  Only the flag lets the command change anything; then exactly the rows before the instant lose their
  content, and the number it prints is theirs.
\<close>

lemma cleanup_main_spec:
  assumes run: "cleanup_main before_arg do_apply rest cfg opens pings e w = (out, w')"
  shows "(\<not> do_apply \<or> out = CleanupFatal \<longrightarrow> w_db w' = w_db w)
    \<and> (\<forall>n t. out \<in> {DryRun n t, Cleared n t} \<longrightarrow> (\<exists>before. time_Parse before_arg = Some before \<and> t = format_rfc3339 before
         \<and> n = length (filter (retained (arg_time e before)) (t_extractions (w_db w)))
         \<and> (do_apply \<longrightarrow> out = Cleared n t \<and> (\<forall>r \<in> set (t_extractions (w_db w')). \<not> retained (arg_time e before) r)
              \<and> filter (\<lambda>r. \<not> ex_CreatedAt r < arg_time e before) (t_extractions (w_db w'))
                = filter (\<lambda>r. \<not> ex_CreatedAt r < arg_time e before) (t_extractions (w_db w)))))"
proof -
  have cleared: "\<not> retained b r" if "r \<in> set (upd_where (retained b) (\<lambda>r. r\<lparr>ex_RawText := None, ex_ResultJson := None\<rparr>) xs)" for b r xs
    using that by (auto simp: set_upd_where retained_def split: if_splits)
  have kept: "filter (\<lambda>r. \<not> ex_CreatedAt r < b) (upd_where (retained b) (\<lambda>r. r\<lparr>ex_RawText := None, ex_ResultJson := None\<rparr>) xs)
      = filter (\<lambda>r. \<not> ex_CreatedAt r < b) xs" for b xs
    by (induction xs) (auto simp: upd_where_def retained_def)
  show ?thesis
    using run unfolding cleanup_main_def cleanup_extractions_def bnd_def sql_def ret_def Let_def
    by (auto simp: cleared kept split: if_splits option.splits sum.splits)
qed

end
