(* ===== verification/Paging.thy ===== *)
theory Paging
  imports Http
begin

text \<open>
  A client that follows the cursors of a list from request to request, over HTTP: what the pages of
  \<open>Handler_ListSchedules\<close> add up to. Decoding of the request, the token of the cursor and the page of
  the service (\<open>Tokens\<close>, \<open>Lookup\<close>) are composed here.
\<close>

section \<open>Following the cursors\<close>

definition with_cursor :: "string \<Rightarrow> http_request \<Rightarrow> http_request" where
  "with_cursor t rq = rq\<lparr>hr_query := (''cursor'', [t]) # hr_query rq\<rparr>"

text \<open>At most \<open>n\<close> requests; the client stops when an answer has no cursor.\<close>

fun follow :: "nat \<Rightarrow> api \<Rightarrow> http_request \<Rightarrow> env \<Rightarrow> world \<Rightarrow> http_response list \<times> world" where
  "follow 0 a rq e w = ([], w)"
| "follow (Suc n) a rq e w =
     (case Handler_ListSchedules a rq e w of (resp, w') \<Rightarrow>
        (case h_body resp of
           BSchedules _ (Some t) \<Rightarrow> (case follow n a (with_cursor t rq) e w' of (resps, w'') \<Rightarrow> (resp # resps, w''))
         | _ \<Rightarrow> ([resp], w')))"

definition listed :: "http_response \<Rightarrow> string list" where
  "listed resp = (case h_body resp of BSchedules ss _ \<Rightarrow> map srs_ID ss | _ \<Rightarrow> [])"

definition last_page :: "http_response \<Rightarrow> bool" where
  "last_page resp = (case h_body resp of BSchedules _ None \<Rightarrow> True | _ \<Rightarrow> False)"

text \<open>All rows that a list request asks for, in the order of the list.\<close>

definition asked_rows :: "env \<Rightarrow> uuid \<Rightarrow> list_query \<Rightarrow> string \<Rightarrow> db \<Rightarrow> schedule_row list" where
  "asked_rows e u q search d =
     page_list e (page_params u (lq_from q) (lq_to q) (format_date (date_in (lq_zone q) (lq_from q))) (upper_date (lq_zone q) (lq_to q))
       (lq_status q) search None (lq_limit q)) d"

section \<open>One page\<close>

lemma query_with_cursor: "map_of (hr_query (with_cursor t rq)) name = (if name = ''cursor'' then Some [t] else map_of (hr_query rq) name)"
  by (simp add: with_cursor_def)

lemma query_Get_with_cursor: "query_Get (with_cursor t rq) name = (if name = ''cursor'' then t else query_Get rq name)"
  by (simp add: query_Get_def query_with_cursor)

lemma list_request_with_cursor:
  assumes "list_request e rq = Inr q"
  shows "list_request e (with_cursor t rq) = Inr (q\<lparr>lq_cursor := Some t\<rparr>)"
proof -
  have "list_range e (with_cursor t rq) = list_range e rq"
    by (simp add: list_range_def display_timezone_def query_Get_with_cursor)
  with assms show ?thesis
    unfolding list_request_def
    by (cases "list_range e rq")
      (auto simp: query_Get_with_cursor query_with_cursor andthen_def Let_def refuse_if_def repeated_def split: if_splits option.splits sum.splits list.splits)
qed

lemma collect_total:
  assumes "\<And>n. \<not> fault_at e n"
  shows "\<exists>ss w'. collect rows (\<lambda>row. loadOccurrenceMetadata (mapSchedule row [])) e w = (Inr ss, w')"
proof (induction rows arbitrary: w)
  case Nil
  show ?case by (simp add: ret_def)
next
  case (Cons row rows)
  obtain s w1 where one: "loadOccurrenceMetadata (mapSchedule row []) e w = (Inr s, w1)"
    using assms by (auto simp: tx_run)
  obtain ss w2 where "collect rows (\<lambda>row. loadOccurrenceMetadata (mapSchedule row [])) e w1 = (Inr ss, w2)"
    using Cons.IH by blast
  with one show ?case by (simp add: bnd_def ret_def)
qed

lemma ListSchedulesPage_total:
  assumes "\<And>n. \<not> fault_at e n" and "limit \<le> 100"
  shows "\<exists>page hasMore w'. ListSchedulesPage u from until fd td st q c limit e w = (Inr (page, hasMore), w')"
proof -
  obtain rows w1 where rows: "repo_ListSchedulesPage (page_params u from until fd td st q c limit) e w = (Inr rows, w1)"
    using assms by (simp add: repo_ListSchedulesPage_def sql_def Let_def page_params_def)
  obtain ss w2 where "collect (if limit < length rows then take limit rows else rows)
      (\<lambda>row. loadOccurrenceMetadata (mapSchedule row [])) e w1 = (Inr ss, w2)"
    using collect_total[OF assms(1)] by blast
  with rows show ?thesis by (simp add: ListSchedulesPage_def bnd_def Let_def ret_def)
qed

text \<open>The request of the page that starts after the first \<open>i\<close> rows.\<close>

definition request_at :: "api \<Rightarrow> env \<Rightarrow> uuid \<Rightarrow> list_query \<Rightarrow> string \<Rightarrow> string \<Rightarrow> schedule_row list \<Rightarrow> nat \<Rightarrow> http_request \<Rightarrow> bool" where
  "request_at a e u q search tz rows i rq \<longleftrightarrow> hr_user rq = Some u \<and> query_Get rq ''q'' = search \<and> display_timezone rq = tz
     \<and> list_request e rq = Inr (q\<lparr>lq_cursor := (if i = 0 then None else
         Some (encodeScheduleCursor (a_codec a) (sr_StartAt (rows ! (i - 1))) (sr_ID (rows ! (i - 1)))
           (listFilterHash a e u (lq_from q) (lq_to q) (lq_status q) search tz)))\<rparr>)"

lemma request_at_next:
  assumes "request_at a e u q search tz rows i rq" and "0 < j"
    and "t = encodeScheduleCursor (a_codec a) (sr_StartAt (rows ! (j - 1))) (sr_ID (rows ! (j - 1)))
           (listFilterHash a e u (lq_from q) (lq_to q) (lq_status q) search tz)"
  shows "request_at a e u q search tz rows j (with_cursor t rq)"
  using assms list_request_with_cursor[of e rq _ t]
  by (simp add: request_at_def query_Get_with_cursor display_timezone_def) (simp add: with_cursor_def)

lemma list_request_limit: "list_request e rq = Inr q \<Longrightarrow> 1 \<le> lq_limit q \<and> lq_limit q \<le> 100"
  by (auto simp: list_request_def Let_def refuse_if_def split: if_splits option.splits list.splits)

text \<open>What makes a list followable: nothing fails, and every row starts before the end of the range.\<close>

definition followable :: "api \<Rightarrow> env \<Rightarrow> uuid \<Rightarrow> list_query \<Rightarrow> string \<Rightarrow> db \<Rightarrow> bool" where
  "followable a e u q search d \<longleftrightarrow> codec_ok (a_codec a) \<and> (\<forall>n. \<not> fault_at e n) \<and> db_wf d
     \<and> (\<forall>s \<in> set (t_schedules d). arg_time e (sr_StartAt s) = sr_StartAt s)
     \<and> (\<forall>s \<in> set (asked_rows e u q search d). sr_StartAt s < lq_to q \<and> sr_StartAt s \<noteq> zero_time)
     \<and> 1 \<le> lq_limit q \<and> lq_limit q \<le> 100"

lemma page_at:
  assumes rq: "request_at a e u q search tz rows i rq" and ok: "followable a e u q search (w_db w)"
    and rows: "rows = asked_rows e u q search (w_db w)" and i: "i \<le> length rows"
  obtains resp w' where "Handler_ListSchedules a rq e w = (resp, w')" and "w_db w' = w_db w" and "h_status resp = 200"
    and "listed resp = map (\<lambda>s. uuid_string e (sr_ID s)) (take (lq_limit q) (drop i rows))"
    and "\<exists>ss. h_body resp = BSchedules ss (if i + lq_limit q < length rows
        then Some (encodeScheduleCursor (a_codec a) (sr_StartAt (rows ! (i + lq_limit q - 1))) (sr_ID (rows ! (i + lq_limit q - 1)))
           (listFilterHash a e u (lq_from q) (lq_to q) (lq_status q) search tz)) else None)"
proof -
  let ?k = "lq_limit q"
  let ?h = "listFilterHash a e u (lq_from q) (lq_to q) (lq_status q) search tz"
  let ?cursor = "cursor_at rows i"
  define q' where "q' = q\<lparr>lq_cursor := (if i = 0 then None else
      Some (encodeScheduleCursor (a_codec a) (sr_StartAt (rows ! (i - 1))) (sr_ID (rows ! (i - 1))) ?h))\<rparr>"
  have nofault: "\<And>n. \<not> fault_at e n" and limit: "?k \<le> 100" using ok by (simp_all add: followable_def)
  have req: "hr_user rq = Some u" "query_Get rq ''q'' = search" "display_timezone rq = tz" "list_request e rq = Inr q'"
    using rq by (simp_all add: request_at_def q'_def)
  have same: "lq_from q' = lq_from q" "lq_to q' = lq_to q" "lq_zone q' = lq_zone q" "lq_status q' = lq_status q" "lq_limit q' = ?k"
    by (simp_all add: q'_def)
  have "list_cursor a ?h (lq_to q) (lq_cursor q') = Inr ?cursor"
  proof (cases i)
    case 0
    then show ?thesis by (simp add: q'_def list_cursor_def cursor_at_def)
  next
    case (Suc j)
    then have "rows ! j \<in> set rows" using i by simp
    then have "sr_StartAt (rows ! j) < lq_to q" "sr_StartAt (rows ! j) \<noteq> zero_time" using ok rows by (auto simp: followable_def)
    with Suc ok show ?thesis
      by (simp add: q'_def list_cursor_def cursor_at_def decode_encode_cursor followable_def or_refuse_def refuse_if_def)
  qed
  moreover obtain page hasMore w' where run: "ListSchedulesPage u (lq_from q) (lq_to q) (format_date (date_in (lq_zone q) (lq_from q)))
      (upper_date (lq_zone q) (lq_to q)) (lq_status q) search ?cursor ?k e w = (Inr (page, hasMore), w')"
    using ListSchedulesPage_total[OF nofault limit] by blast
  ultimately have handler: "Handler_ListSchedules a rq e w =
      (writeJSON 200 (BSchedules (map (toScheduleResponse e) page) (next_cursor a ?h hasMore page)), w')"
    using req same by (simp add: Handler_ListSchedules_def authenticated_def or_refuse_def accepted_def reading_def calling_def respond_def Let_def)
  have pages: "map s_ID page = map sr_ID (take ?k (drop i rows)) \<and> map s_StartAt page = map sr_StartAt (take ?k (drop i rows))
     \<and> (hasMore \<longleftrightarrow> i + ?k < length rows) \<and> sorted_wrt start_id_le rows \<and> distinct (map sr_ID rows) \<and> w_db w' = w_db w"
    using ok i by (intro ListSchedulesPage_pages[OF run]) (auto simp: rows asked_rows_def followable_def)
  have "map srs_ID (map (toScheduleResponse e) page) = map (uuid_string e) (map s_ID page)"
    by (simp add: toScheduleResponse_def comp_def)
  then have ids: "map srs_ID (map (toScheduleResponse e) page) = map (\<lambda>s. uuid_string e (sr_ID s)) (take ?k (drop i rows))"
    using pages by (simp add: comp_def)
  have "next_cursor a ?h hasMore page = (if i + ?k < length rows
      then Some (encodeScheduleCursor (a_codec a) (sr_StartAt (rows ! (i + ?k - 1))) (sr_ID (rows ! (i + ?k - 1))) ?h) else None)"
  proof (cases "i + ?k < length rows")
    case True
    have k: "1 \<le> ?k" using ok by (simp add: followable_def)
    then have last: "last (take ?k (drop i rows)) = rows ! (i + ?k - 1)" and ne: "take ?k (drop i rows) \<noteq> []"
      using True by (simp_all add: last_conv_nth)
    then have page: "page \<noteq> []" using pages by (metis map_is_Nil_conv)
    then have "s_StartAt (last page) = sr_StartAt (rows ! (i + ?k - 1))" "s_ID (last page) = sr_ID (rows ! (i + ?k - 1))"
      using pages last ne by (metis last_map)+
    with True page pages show ?thesis by (simp add: next_cursor_def)
  qed (use pages in \<open>simp add: next_cursor_def\<close>)
  with handler ids pages that show thesis by (simp add: writeJSON_def listed_def)
qed

section \<open>All pages\<close>

lemma follow_from:
  assumes "request_at a e u q search tz rows i rq" and "followable a e u q search (w_db w)"
    and "rows = asked_rows e u q search (w_db w)" and "i \<le> length rows"
    and "0 < n" and "length rows - i \<le> n * lq_limit q" and "follow n a rq e w = (resps, w')"
  shows "resps \<noteq> [] \<and> (\<forall>r \<in> set resps. h_status r = 200) \<and> last_page (last resps) \<and> w_db w' = w_db w
     \<and> concat (map listed resps) = map (\<lambda>s. uuid_string e (sr_ID s)) (drop i rows)
     \<and> (length resps - 1) * lq_limit q \<le> length rows - i"
  using assms
proof (induction n arbitrary: i rq w resps)
  case (Suc n)
  let ?k = "lq_limit q"
  let ?t = "encodeScheduleCursor (a_codec a) (sr_StartAt (rows ! (i + ?k - 1))) (sr_ID (rows ! (i + ?k - 1)))
     (listFilterHash a e u (lq_from q) (lq_to q) (lq_status q) search tz)"
  obtain resp w1 ss where run: "Handler_ListSchedules a rq e w = (resp, w1)" and db: "w_db w1 = w_db w" and st: "h_status resp = 200"
    and listed: "listed resp = map (\<lambda>s. uuid_string e (sr_ID s)) (take ?k (drop i rows))"
    and body: "h_body resp = BSchedules ss (if i + ?k < length rows then Some ?t else None)"
    using page_at[OF Suc.prems(1-4)] by metis
  have k: "1 \<le> ?k" using Suc.prems(2) by (simp add: followable_def)
  show ?case
  proof (cases "i + ?k < length rows")
    case False
    then have "resps = [resp]" "w' = w1" using Suc.prems(7) run body by simp_all
    with False db st listed body show ?thesis by (simp add: last_page_def)
  next
    case True
    obtain rest where rest: "follow n a (with_cursor ?t rq) e w1 = (rest, w')" and resps: "resps = resp # rest"
      using Suc.prems(7) run body True by (auto split: prod.splits)
    have "0 < n" using Suc.prems(6) True by (cases n) auto
    moreover have "request_at a e u q search tz rows (i + ?k) (with_cursor ?t rq)"
      using request_at_next[OF Suc.prems(1), of "i + ?k"] k by simp
    moreover have "length rows - (i + ?k) \<le> n * ?k" using Suc.prems(6) by simp
    ultimately have IH: "rest \<noteq> [] \<and> (\<forall>r \<in> set rest. h_status r = 200) \<and> last_page (last rest) \<and> w_db w' = w_db w1
     \<and> concat (map listed rest) = map (\<lambda>s. uuid_string e (sr_ID s)) (drop (i + ?k) rows)
     \<and> (length rest - 1) * ?k \<le> length rows - (i + ?k)"
      using Suc.IH[of "i + ?k" "with_cursor ?t rq" w1 rest] Suc.prems(2,3) rest True db by simp
    have "drop i rows = take ?k (drop i rows) @ drop (i + ?k) rows"
      by (metis append_take_drop_id drop_drop add.commute)
    moreover have "(length resps - 1) * ?k \<le> length rows - i"
    proof -
      have "(length resps - 1) * ?k = (length rest - 1) * ?k + ?k"
        using IH resps by (cases rest) simp_all
      then show ?thesis using IH True by linarith
    qed
    ultimately show ?thesis using IH resps st listed db by (metis concat.simps(2) last_ConsR list.distinct(1) list.simps(9) map_append set_ConsD)
  qed
qed simp

text \<open>
  C26: A client that asks for a list and follows the cursor of every answer sees every schedule that matches exactly once
  and in order, over HTTP and whatever the page size: every answer is a success, the last one has no cursor,
  and there are no more requests than full pages plus one. This holds while nothing fails or changes in between,
  and if every matching schedule starts before the end of the range; an all-day event that starts
  after it in UTC gets a cursor that is refused.\<close>

theorem following_cursors:
  assumes "hr_user rq = Some u" and "list_request e rq = Inr q" and "lq_cursor q = None"
    and "codec_ok (a_codec a)" and "\<And>n. \<not> fault_at e n" and wf: "db_wf (w_db w)"
    and "\<And>s. s \<in> set (t_schedules (w_db w)) \<Longrightarrow> arg_time e (sr_StartAt s) = sr_StartAt s"
    and rows: "rows = asked_rows e u q (query_Get rq ''q'') (w_db w)"
    and "\<And>s. s \<in> set rows \<Longrightarrow> sr_StartAt s < lq_to q \<and> sr_StartAt s \<noteq> zero_time"
    and "0 < n" and "length rows \<le> n * lq_limit q" and run: "follow n a rq e w = (resps, w')"
  shows "(\<forall>r \<in> set resps. h_status r = 200) \<and> resps \<noteq> [] \<and> last_page (last resps)
     \<and> concat (map listed resps) = map (\<lambda>s. uuid_string e (sr_ID s)) rows
     \<and> sorted_wrt start_id_le rows \<and> distinct (map sr_ID rows)
     \<and> (length resps - 1) * lq_limit q \<le> length rows \<and> w_db w' = w_db w"
proof -
  have "request_at a e u q (query_Get rq ''q'') (display_timezone rq) rows 0 rq"
    using assms(1-3) by (simp add: request_at_def)
  moreover have "followable a e u q (query_Get rq ''q'') (w_db w)"
    using assms list_request_limit[of e rq q] by (simp add: followable_def)
  ultimately show ?thesis
    using follow_from[of a e u q "query_Get rq ''q''" "display_timezone rq" rows 0 rq w n resps w'] assms
      page_list_sorted page_list_distinct[OF wf] by (simp add: asked_rows_def)
qed

text \<open>Two schedules and pages of one.\<close>

definition later_schedule :: schedule_row where
  "later_schedule = sample_schedule\<lparr>sr_ID := 13, sr_StartAt := 60 * second\<rparr>"

definition paged_db :: db where
  "paged_db = sample_db\<lparr>t_schedules := [later_schedule, sample_schedule, sample_other]\<rparr>"

definition paged_request :: http_request where
  "paged_request = \<lparr>hr_user = Some 1, hr_id = [], hr_reminderId = [],
     hr_query = [(''from'', [''1970-01-01T00:00:00Z'']), (''to'', [''1970-01-01T01:00:00Z'']), (''limit'', [''1''])],
     hr_header = (\<lambda>_. []), hr_body = NoBody\<rparr>"

lemma following_cursors_witness:
  "\<exists>resps w'. follow 2 sample_api paged_request sample_env (sample_world paged_db) = (resps, w')
     \<and> concat (map listed resps) = [''11'', ''13''] \<and> last_page (last resps)"
proof -
  have "case list_request sample_env paged_request of
      Inr q \<Rightarrow> lq_limit q = 1 \<and> lq_cursor q = None \<and> lq_from q = 0 \<and> lq_to q = hour \<and> lq_status q = None | Inl _ \<Rightarrow> False"
    by code_simp
  then obtain q where q: "list_request sample_env paged_request = Inr q" "lq_limit q = 1" "lq_cursor q = None" "lq_to q = hour"
    and "lq_from q = 0" "lq_status q = None"
    by (auto split: sum.splits)
  moreover have "query_Get paged_request ''q'' = []" by code_simp
  ultimately have "asked_rows sample_env 1 q (query_Get paged_request ''q'') paged_db = [sample_schedule, later_schedule]"
    by (simp add: asked_rows_def page_list_def page_match_def page_range_def page_params_def paged_db_def later_schedule_def sample_defs
        start_id_le_def)
  then have rows: "map (\<lambda>s. (sr_ID s, sr_StartAt s)) (asked_rows sample_env 1 q (query_Get paged_request ''q'') paged_db) = [(11, 0), (13, 60 * second)]"
    by (simp add: sample_schedule_def later_schedule_def)
  let ?rows = "asked_rows sample_env 1 q (query_Get paged_request ''q'') paged_db"
  have wf: "db_wf paged_db" by code_simp
  have times: "sr_StartAt s < lq_to q \<and> sr_StartAt s \<noteq> zero_time" if "s \<in> set ?rows" for s
  proof -
    have "sr_StartAt s \<in> set (map snd (map (\<lambda>s. (sr_ID s, sr_StartAt s)) ?rows))" using that by simp
    then have "sr_StartAt s = 0 \<or> sr_StartAt s = 60 * second" unfolding rows by simp
    moreover have "60 * second < hour \<and> zero_time \<noteq> 0 \<and> zero_time \<noteq> 60 * second" by code_simp
    ultimately show ?thesis using q(4) by auto
  qed
  have "map fst (map (\<lambda>s. (sr_ID s, sr_StartAt s)) ?rows) = [11, 13]" unfolding rows by simp
  then have ids: "map sr_ID ?rows = [11, 13]" by (simp add: comp_def)
  then have len: "length ?rows = 2" by (metis length_map list.size(3,4) numeral_2_eq_2 One_nat_def add.commute plus_1_eq_Suc)
  have texts: "map (\<lambda>s. uuid_string sample_env (sr_ID s)) ?rows = [''11'', ''13'']"
  proof -
    have "map (\<lambda>s. uuid_string sample_env (sr_ID s)) ?rows = map (\<lambda>i. nat_digits (unat i)) (map sr_ID ?rows)" by simp
    also have "\<dots> = map (\<lambda>i. nat_digits (unat i)) [11 :: uuid, 13]" by (simp only: ids)
    also have "\<dots> = [''11'', ''13'']" by code_simp
    finally show ?thesis .
  qed
  obtain resps w' where run: "follow 2 sample_api paged_request sample_env (sample_world paged_db) = (resps, w')" by fastforce
  have "hr_user paged_request = Some 1" "codec_ok (a_codec sample_api)" by (simp_all add: paged_request_def sample_api_def sample_codec_ok)
  from following_cursors[OF this(1) q(1,3) this(2) _ _ _ refl, of "sample_world paged_db" 2 resps w'] run wf times len q(2) texts
  show ?thesis by auto
qed

end
